(* ===== verification/Py_Value.thy ===== *)
theory Py_Value
  imports Complex_Main "HOL-Library.AList" "HOL-Library.Char_ord" "HOL-Library.List_Lexorder"
begin

text \<open>
  The prelude of the development: the part of Python that the services of Tarka are
  written in, as far as they use it.

  \<^item> \<open>pyfloat\<close>: a Python float.  Finite floats are exact rationals (rounding of binary64
    arithmetic is the one thing that is idealised); the infinities and NaN are values of their
    own with the comparisons of IEEE 754, because the code receives them from JSON.
  \<^item> \<open>pyval\<close>: the values \<open>json.loads\<close> produces.  A dict is an association list with
    distinct keys in insertion order, as Python's.
  \<^item> truthiness, \<open>or\<close>, \<open>==\<close>, \<open>str\<close>, \<open>int\<close>, \<open>float\<close>,
    \<open>json.dumps\<close> on these values; exceptions are values of type \<open>pyerr\<close>.
  \<^item> the string methods the code uses.  A \<open>str\<close> is a HOL \<open>string\<close>; a character is the
    code point of the same number (0 to 255).
\<close>

named_theorems py_defs "definitions of the Python fragment, for evaluation on concrete inputs"

section \<open>Exceptions and results\<close>

datatype pyerr = TypeError | ValueError | OverflowError | KeyError | AttributeError | ZeroDivisionError | InvalidOperation

type_synonym 'a res = "pyerr + 'a"

text \<open>A list comprehension whose element expression may raise: the first exception wins.\<close>

fun res_map :: "('a \<Rightarrow> 'b res) \<Rightarrow> 'a list \<Rightarrow> 'b list res" where
  "res_map f [] = Inr []"
| "res_map f (x # xs) = (case f x of Inl e \<Rightarrow> Inl e
     | Inr y \<Rightarrow> (case res_map f xs of Inl e \<Rightarrow> Inl e | Inr ys \<Rightarrow> Inr (y # ys)))"

lemma res_map_cong [fundef_cong]: "xs = ys \<Longrightarrow> (\<And>x. x \<in> set ys \<Longrightarrow> f x = g x) \<Longrightarrow> res_map f xs = res_map g ys"
  by (induction ys arbitrary: xs) (auto split: sum.splits)

lemma res_map_returns: "\<forall>x \<in> set xs. \<exists>y. f x = Inr y \<Longrightarrow> \<exists>ys. res_map f xs = Inr ys"
  by (induction xs) auto

text \<open>Sequencing: the next computation runs on the result of the one before, an exception ends both.\<close>

definition and_then :: "'a res \<Rightarrow> ('a \<Rightarrow> 'b res) \<Rightarrow> 'b res" where
  "and_then r f = (case r of Inl e \<Rightarrow> Inl e | Inr x \<Rightarrow> f x)"

lemma and_then_simps [simp]: "and_then (Inl e) f = Inl e" "and_then (Inr x) f = f x"
  by (simp_all add: and_then_def)

lemma and_then_Inr: "and_then r f = Inr y \<longleftrightarrow> (\<exists>x. r = Inr x \<and> f x = Inr y)"
  by (cases r) auto

definition or_default :: "'a \<Rightarrow> 'a res \<Rightarrow> 'a" where
  "or_default d r = (case r of Inl _ \<Rightarrow> d | Inr x \<Rightarrow> x)"

definition res_opt :: "'a res \<Rightarrow> 'a option" where
  "res_opt r = (case r of Inl _ \<Rightarrow> None | Inr x \<Rightarrow> Some x)"

lemma or_default_simps [simp]: "or_default d (Inl e) = d" "or_default d (Inr x) = x"
  by (simp_all add: or_default_def)

lemma res_opt_simps [simp]: "res_opt (Inl e) = None" "res_opt (Inr x) = Some x"
  by (simp_all add: res_opt_def)

section \<open>Floats\<close>

datatype pyfloat = Fin rat | PInf | NInf | NaN

fun flt :: "pyfloat \<Rightarrow> pyfloat \<Rightarrow> bool" where
  "flt NaN _ = False"
| "flt _ NaN = False"
| "flt (Fin a) (Fin b) = (a < b)"
| "flt NInf x = (x \<noteq> NInf)"
| "flt (Fin _) PInf = True"
| "flt _ _ = False"

fun feq :: "pyfloat \<Rightarrow> pyfloat \<Rightarrow> bool" where
  "feq NaN _ = False"
| "feq a b = (a = b)"

definition fle :: "pyfloat \<Rightarrow> pyfloat \<Rightarrow> bool" where
  "fle a b = (flt a b \<or> feq a b)"

fun fneg :: "pyfloat \<Rightarrow> pyfloat" where
  "fneg (Fin a) = Fin (- a)"
| "fneg PInf = NInf"
| "fneg NInf = PInf"
| "fneg NaN = NaN"

fun fadd :: "pyfloat \<Rightarrow> pyfloat \<Rightarrow> pyfloat" where
  "fadd (Fin a) (Fin b) = Fin (a + b)"
| "fadd NaN _ = NaN"
| "fadd _ NaN = NaN"
| "fadd PInf NInf = NaN"
| "fadd NInf PInf = NaN"
| "fadd PInf _ = PInf"
| "fadd NInf _ = NInf"
| "fadd _ PInf = PInf"
| "fadd _ NInf = NInf"

text \<open>Division by a finite non-zero number, the only division of the code on such floats.\<close>

fun fdiv_rat :: "pyfloat \<Rightarrow> rat \<Rightarrow> pyfloat" where
  "fdiv_rat (Fin a) q = Fin (a / q)"
| "fdiv_rat NaN q = NaN"
| "fdiv_rat PInf q = (if q < 0 then NInf else PInf)"
| "fdiv_rat NInf q = (if q < 0 then PInf else NInf)"

text \<open>
  Python's two-argument \<open>min\<close> and \<open>max\<close>: the first argument unless the second one is
  strictly smaller (larger).  With a NaN second argument the first one wins.
\<close>

definition fmin :: "pyfloat \<Rightarrow> pyfloat \<Rightarrow> pyfloat" where
  "fmin a b = (if flt b a then b else a)"

definition fmax :: "pyfloat \<Rightarrow> pyfloat \<Rightarrow> pyfloat" where
  "fmax a b = (if flt a b then b else a)"

definition clamp_float :: "rat \<Rightarrow> rat \<Rightarrow> pyfloat \<Rightarrow> pyfloat" where
  "clamp_float lo hi x = fmax (Fin lo) (fmin (Fin hi) x)"

definition in_range :: "rat \<Rightarrow> rat \<Rightarrow> pyfloat \<Rightarrow> bool" where
  "in_range lo hi x = (\<exists>q. x = Fin q \<and> lo \<le> q \<and> q \<le> hi)"

lemma fle_Fin [simp]: "fle (Fin a) (Fin b) = (a \<le> b)"
  by (auto simp: fle_def)

lemma fle_NaN [simp]: "\<not> fle NaN x" "\<not> fle x NaN"
  by (cases x; simp add: fle_def)+

lemma fle_PInf [simp]: "fle PInf (Fin b) = False" "fle (Fin b) PInf = True"
  "fle NInf (Fin b) = True" "fle (Fin b) NInf = False"
  by (auto simp: fle_def)

lemma clamp_float_in_range: "lo \<le> hi \<Longrightarrow> in_range lo hi (clamp_float lo hi x)"
  by (cases x) (auto simp: in_range_def clamp_float_def fmin_def fmax_def)

lemma clamp_float_Fin [simp]: "clamp_float lo hi (Fin q) = Fin (max lo (min hi q))"
  by (auto simp: clamp_float_def fmin_def fmax_def max_def min_def)

lemma clamp_float_NaN [simp]: "lo \<le> hi \<Longrightarrow> clamp_float lo hi NaN = Fin hi"
  by (auto simp: clamp_float_def fmin_def fmax_def)

lemma clamp_float_id: "in_range lo hi x \<Longrightarrow> clamp_float lo hi x = x"
  by (auto simp: in_range_def)

section \<open>Strings\<close>

definition is_space :: "char \<Rightarrow> bool" where
  "is_space c = (let n = (of_char c :: nat)
     in (9 \<le> n \<and> n \<le> 13) \<or> (28 \<le> n \<and> n \<le> 32) \<or> n = 133 \<or> n = 160)"

definition lower_char :: "char \<Rightarrow> char" where
  "lower_char c = (let n = (of_char c :: nat)
     in if (65 \<le> n \<and> n \<le> 90) \<or> (192 \<le> n \<and> n \<le> 222 \<and> n \<noteq> 215) then char_of (n + 32) else c)"

text \<open>
  \<open>str.upper\<close>: the sharp s becomes two letters; the two characters whose upper case
  lies beyond code point 255 stay as they are.
\<close>

definition upper_char :: "char \<Rightarrow> string" where
  "upper_char c = (let n = (of_char c :: nat)
     in if (97 \<le> n \<and> n \<le> 122) \<or> (224 \<le> n \<and> n \<le> 254 \<and> n \<noteq> 247) then [char_of (n - 32)]
        else if n = 223 then ''SS'' else [c])"

definition lstrip :: "string \<Rightarrow> string" where
  "lstrip s = dropWhile is_space s"

definition strip :: "string \<Rightarrow> string" where
  "strip s = rev (dropWhile is_space (rev (dropWhile is_space s)))"

definition lower :: "string \<Rightarrow> string" where
  "lower s = map lower_char s"

definition upper :: "string \<Rightarrow> string" where
  "upper s = concat (map upper_char s)"

text \<open>The dash of some fixed texts, as its UTF-8 bytes.\<close>

definition em_dash :: string where
  "em_dash = [CHR 0xE2, CHR 0x80, CHR 0x94]"

text \<open>The idiom \<open>x or ""\<close> on an optional string.\<close>

definition opt_str :: "string option \<Rightarrow> string" where
  "opt_str x = (case x of None \<Rightarrow> [] | Some s \<Rightarrow> s)"

definition startswith :: "string \<Rightarrow> string \<Rightarrow> bool" where
  "startswith s p = (take (length p) s = p)"

definition endswith :: "string \<Rightarrow> string \<Rightarrow> bool" where
  "endswith s p = (length p \<le> length s \<and> drop (length s - length p) s = p)"

fun contains_str :: "string \<Rightarrow> string \<Rightarrow> bool" where
  "contains_str [] p = (p = [])"
| "contains_str (c # s) p = (startswith (c # s) p \<or> contains_str s p)"

text \<open>\<open>s.replace(a, b)\<close> for single characters.\<close>

definition replace_char :: "char \<Rightarrow> char \<Rightarrow> string \<Rightarrow> string" where
  "replace_char a b s = map (\<lambda>c. if c = a then b else c) s"

text \<open>\<open>s.split(sep)\<close> for a one-character separator, and \<open>s.split(sep, 1)\<close>.\<close>

fun split_on :: "char \<Rightarrow> string \<Rightarrow> string list" where
  "split_on sep [] = [[]]"
| "split_on sep (c # s) = (if c = sep then [] # split_on sep s
     else (case split_on sep s of [] \<Rightarrow> [[c]] | w # ws \<Rightarrow> (c # w) # ws))"

fun split_once :: "char \<Rightarrow> string \<Rightarrow> string \<times> string option" where
  "split_once sep [] = ([], None)"
| "split_once sep (c # s) = (if c = sep then ([], Some s)
     else (case split_once sep s of (w, r) \<Rightarrow> (c # w, r)))"

fun join_str :: "string \<Rightarrow> string list \<Rightarrow> string" where
  "join_str sep [] = []"
| "join_str sep [w] = w"
| "join_str sep (w # v # ws) = w @ sep @ join_str sep (v # ws)"

lemma strip_idem [simp]: "strip (strip s) = strip s"
proof -
  have tail: "dropWhile is_space (rev (dropWhile is_space (rev t))) = rev (dropWhile is_space (rev t))"
    if "dropWhile is_space t = t" for t
  proof (cases "dropWhile is_space (rev t)")
    case Nil
    show ?thesis unfolding Nil by simp
  next
    case (Cons a u)
    obtain p where p: "t = rev (dropWhile is_space (rev t)) @ p"
      by (metis rev_append rev_rev_ident takeWhile_dropWhile_id)
    have "\<not> is_space (hd t)" if "t \<noteq> []"
      using \<open>dropWhile is_space t = t\<close> that hd_dropWhile [of is_space t] by simp
    moreover have "t \<noteq> []" using Cons by auto
    moreover have "rev (dropWhile is_space (rev t)) \<noteq> []" using Cons by simp
    ultimately have "\<not> is_space (hd (rev (dropWhile is_space (rev t))))"
      using p by (metis hd_append2)
    then show ?thesis
      using \<open>rev (dropWhile is_space (rev t)) \<noteq> []\<close>
      by (metis dropWhile.simps(2) list.exhaust_sel)
  qed
  have idem: "dropWhile is_space (dropWhile is_space u) = dropWhile is_space u" for u
    by (induction u) auto
  show ?thesis
    by (simp add: strip_def tail [OF idem] idem)
qed

lemma strip_Nil [simp]: "strip [] = []"
  by (simp add: strip_def)

lemma lower_char_idem [simp]: "lower_char (lower_char c) = lower_char c"
proof -
  have "(of_char (char_of (of_char c + 32 :: nat)) :: nat) = of_char c + 32"
    if "(of_char c :: nat) \<le> 222" using that by simp
  then show ?thesis by (auto simp: lower_char_def Let_def)
qed

lemma lower_idem [simp]: "lower (lower s) = lower s"
  by (simp add: lower_def)

lemma length_lower [simp]: "length (lower s) = length s"
  by (simp add: lower_def)

lemma lower_Nil [simp]: "lower [] = []"
  by (simp add: lower_def)

lemma lower_eq_Nil [simp]: "(lower s = []) = (s = [])"
  by (simp add: lower_def)

lemma startswith_self [simp]: "startswith (p @ s) p"
  by (simp add: startswith_def)

lemma startswith_iff: "startswith s p = (\<exists>r. s = p @ r)"
  by (auto simp: startswith_def) (metis append_take_drop_id)

lemma endswith_iff: "endswith s p = (\<exists>r. s = r @ p)"
  by (auto simp: endswith_def) (metis append_take_drop_id)

lemma contains_str_iff: "contains_str s p = (\<exists>a b. s = a @ p @ b)"
proof (induction s)
  case Nil
  then show ?case by auto
next
  case (Cons c s)
  show ?case
  proof
    assume "contains_str (c # s) p"
    then consider "startswith (c # s) p" | "contains_str s p" by auto
    then show "\<exists>a b. c # s = a @ p @ b"
    proof cases
      case 1
      then show ?thesis by (metis append_Nil startswith_iff)
    next
      case 2
      then show ?thesis using Cons.IH by (metis append_Cons)
    qed
  next
    assume "\<exists>a b. c # s = a @ p @ b"
    then obtain a b where eq: "c # s = a @ p @ b" by blast
    show "contains_str (c # s) p"
    proof (cases a)
      case Nil
      then have "startswith (c # s) p" using eq by (metis append_Nil startswith_iff)
      then show ?thesis by simp
    next
      case (Cons d a')
      then have "s = a' @ p @ b" using eq by simp
      then show ?thesis using Cons.IH by auto
    qed
  qed
qed

lemma of_char_lt: "(of_char c :: nat) < 256"
proof -
  have "(of_char c :: nat) mod 256 < 256" by simp
  then show ?thesis by simp
qed

lemma strip_ends:
  assumes "strip s = s" and "s \<noteq> []"
  shows "\<not> is_space (hd s) \<and> \<not> is_space (last s)"
proof -
  let ?t = "dropWhile is_space s"
  let ?u = "dropWhile is_space (rev ?t)"
  have s: "s = rev ?u" using assms(1) by (simp add: strip_def)
  then have u: "?u \<noteq> []" using assms(2) by (metis rev.simps(1))
  then have "\<not> is_space (hd ?u)" by (rule hd_dropWhile)
  moreover have "hd ?u = last s" using s u by (metis hd_rev rev_rev_ident)
  moreover obtain p where "rev ?t = p @ ?u" by (metis takeWhile_dropWhile_id)
  then have "?t = rev ?u @ rev p" by (metis rev_append rev_rev_ident)
  then have t: "?t = s @ rev p" using s by simp
  then have "hd ?t = hd s" "?t \<noteq> []" using assms(2) by simp_all
  then have "\<not> is_space (hd s)" using hd_dropWhile [of is_space s] by metis
  ultimately show ?thesis by simp
qed

lemma strip_eqI:
  assumes "s = [] \<or> (\<not> is_space (hd s) \<and> \<not> is_space (last s))"
  shows "strip s = s"
proof (cases s)
  case Nil
  then show ?thesis by simp
next
  case (Cons c cs)
  then have 1: "dropWhile is_space s = s" using assms by simp
  have "s \<noteq> []" using Cons by simp
  then have "rev s \<noteq> []" "\<not> is_space (hd (rev s))" using assms by (simp_all only: hd_rev) auto
  then have "dropWhile is_space (rev s) = rev s" by (cases "rev s") auto
  with 1 show ?thesis by (simp add: strip_def)
qed

lemma upper_char_cases: "upper_char c = [c] \<or> (\<exists>d. upper_char c = [d] \<and> upper_char d = [d] \<and> \<not> is_space d \<and> \<not> is_space c) \<or>
    (upper_char c = ''SS'' \<and> \<not> is_space c)"
proof -
  let ?n = "of_char c :: nat"
  have "(of_char (char_of (?n - 32)) :: nat) = ?n - 32" using of_char_lt [of c] by (simp add: mod_less [OF less_imp_diff_less])
  then show ?thesis unfolding upper_char_def is_space_def Let_def by auto
qed

lemma upper_char_fixed: "d \<in> set (upper_char c) \<Longrightarrow> upper_char d = [d]"
  using upper_char_cases [of c] by (auto simp: upper_char_def)

lemma upper_fixed: "\<forall>c \<in> set s. upper_char c = [c] \<Longrightarrow> upper s = s"
  by (induction s) (auto simp: upper_def)

lemma upper_idem [simp]: "upper (upper s) = upper s"
  by (rule upper_fixed) (auto simp: upper_def intro: upper_char_fixed)

lemma upper_char_hd_last: "upper_char c \<noteq> [] \<and> is_space (hd (upper_char c)) = is_space c \<and>
    is_space (last (upper_char c)) = is_space c"
proof -
  have "\<not> is_space CHR ''S''" by (simp add: is_space_def)
  then show ?thesis using upper_char_cases [of c] by auto
qed

lemma upper_hd_last: "s \<noteq> [] \<Longrightarrow> upper s \<noteq> [] \<and> is_space (hd (upper s)) = is_space (hd s) \<and>
    is_space (last (upper s)) = is_space (last s)"
proof (induction s)
  case (Cons c s)
  then show ?case using upper_char_hd_last [of c] by (cases "s = []") (auto simp: upper_def)
qed simp

lemma strip_upper_fixed: "strip s = s \<Longrightarrow> strip (upper s) = upper s"
proof (cases "s = []")
  case False
  assume "strip s = s"
  with False show ?thesis using strip_ends [of s] upper_hd_last [of s] by (intro strip_eqI) auto
qed (simp add: upper_def)

lemma strip_nonempty: "c \<in> set s \<Longrightarrow> \<not> is_space c \<Longrightarrow> strip s \<noteq> []"
proof -
  assume c: "c \<in> set s" "\<not> is_space c"
  then have "c \<in> set (dropWhile is_space s)"
    by (metis set_takeWhileD takeWhile_dropWhile_id Un_iff set_append)
  then show ?thesis using c(2) by (force simp: strip_def dropWhile_eq_Nil_conv)
qed

lemma strip_Cons: "\<not> is_space c \<Longrightarrow> \<exists>t. strip (c # s) = c # t"
  by (simp add: strip_def dropWhile_append3)

section \<open>Stores that only grow\<close>

text \<open>
  What a store promises to those who write to it and what a system built on it keeps: every step maintains the
  invariant and only moves forward in an order, so every run does.
\<close>

locale growing_store =
  fixes step :: "'s \<Rightarrow> 's \<Rightarrow> bool" and inv :: "'s \<Rightarrow> bool" and grow :: "'s \<Rightarrow> 's \<Rightarrow> bool"
  assumes grow_refl: "grow s s"
    and grow_trans: "grow s t \<Longrightarrow> grow t u \<Longrightarrow> grow s u"
    and step_keeps: "inv s \<Longrightarrow> step s t \<Longrightarrow> inv t \<and> grow s t"
begin

lemma steps_keep:
  assumes "step\<^sup>*\<^sup>* s t" and "inv s"
  shows "inv t \<and> grow s t"
  using assms(1)
proof (induction rule: rtranclp_induct)
  case (step y z)
  then show ?case using step_keeps grow_trans by blast
qed (simp add: assms(2) grow_refl)

end

end
