(* ===== verification/Py_Json.thy ===== *)
theory Py_Json
  imports Py_Value
begin

text \<open>
  The dynamic values of the services: what \<open>json.loads\<close> returns, with the operations
  the code applies to them (\<open>or\<close>, \<open>==\<close>, \<open>str\<close>, \<open>repr\<close>, \<open>int\<close>,
  \<open>float\<close>, \<open>json.dumps\<close>, \<open>dict.get\<close>).  Theories that model code with typed
  arguments (\<open>str\<close>, \<open>int\<close>, \<open>list[str]\<close>) use the HOL types directly.
\<close>

section \<open>Values\<close>

datatype pyval =
    PNone
  | PBool bool
  | PInt int
  | PFloat pyfloat
  | PStr string
  | PList "pyval list"
  | PDict "(string \<times> pyval) list"

type_synonym dict = "(string \<times> pyval) list"

fun truthy :: "pyval \<Rightarrow> bool" where
  "truthy PNone = False"
| "truthy (PBool b) = b"
| "truthy (PInt i) = (i \<noteq> 0)"
| "truthy (PFloat f) = (f \<noteq> Fin 0)"
| "truthy (PStr s) = (s \<noteq> [])"
| "truthy (PList xs) = (xs \<noteq> [])"
| "truthy (PDict d) = (d \<noteq> [])"

text \<open>The Python expression \<open>a or b\<close>.\<close>

definition py_or :: "pyval \<Rightarrow> pyval \<Rightarrow> pyval" where
  "py_or a b = (if truthy a then a else b)"

text \<open>\<open>d.get(k)\<close> and \<open>d.get(k, default)\<close>.\<close>

definition dget :: "dict \<Rightarrow> string \<Rightarrow> pyval" where
  "dget d k = (case map_of d k of Some v \<Rightarrow> v | None \<Rightarrow> PNone)"

definition dget_or :: "dict \<Rightarrow> string \<Rightarrow> pyval \<Rightarrow> pyval" where
  "dget_or d k dflt = (case map_of d k of Some v \<Rightarrow> v | None \<Rightarrow> dflt)"

definition has_key :: "dict \<Rightarrow> string \<Rightarrow> bool" where
  "has_key d k = (map_of d k \<noteq> None)"

text \<open>\<open>d[k] = v\<close>: the old position is kept, a new key is appended.\<close>

abbreviation dset :: "string \<Rightarrow> 'v \<Rightarrow> (string \<times> 'v) list \<Rightarrow> (string \<times> 'v) list" where
  "dset \<equiv> AList.update"

definition dset_default :: "string \<Rightarrow> pyval \<Rightarrow> dict \<Rightarrow> dict" where
  "dset_default k v d = (if has_key d k then d else dset k v d)"

text \<open>\<open>d.update(e)\<close>.\<close>

definition dict_update :: "(string \<times> 'v) list \<Rightarrow> (string \<times> 'v) list \<Rightarrow> (string \<times> 'v) list" where
  "dict_update d e = fold (\<lambda>(k, v) acc. dset k v acc) e d"

fun dict_of :: "pyval \<Rightarrow> dict option" where
  "dict_of (PDict d) = Some d"
| "dict_of _ = None"

fun list_of :: "pyval \<Rightarrow> pyval list option" where
  "list_of (PList xs) = Some xs"
| "list_of _ = None"

fun str_of :: "pyval \<Rightarrow> string option" where
  "str_of (PStr s) = Some s"
| "str_of _ = None"

text \<open>What a \<open>for\<close> loop over a value iterates over.\<close>

fun py_iter :: "pyval \<Rightarrow> pyval list res" where
  "py_iter (PList xs) = Inr xs"
| "py_iter (PStr s) = Inr (map (\<lambda>c. PStr [c]) s)"
| "py_iter (PDict d) = Inr (map (\<lambda>(k, v). PStr k) d)"
| "py_iter _ = Inl TypeError"

fun py_len :: "pyval \<Rightarrow> int res" where
  "py_len (PList xs) = Inr (int (length xs))"
| "py_len (PStr s) = Inr (int (length s))"
| "py_len (PDict d) = Inr (int (length d))"
| "py_len _ = Inl TypeError"

definition str_vals :: "pyval list \<Rightarrow> string list" where
  "str_vals xs = List.map_filter str_of xs"

definition dict_vals :: "pyval list \<Rightarrow> dict list" where
  "dict_vals xs = List.map_filter dict_of xs"

lemma truthy_PStr [simp]: "truthy (PStr s) = (s \<noteq> [])"
  by simp

lemma py_or_simps [simp]:
  "truthy a \<Longrightarrow> py_or a b = a" "\<not> truthy a \<Longrightarrow> py_or a b = b"
  by (simp_all add: py_or_def)

lemma dget_Nil [simp]: "dget [] k = PNone"
  by (simp add: dget_def)

lemma dget_Cons [simp]: "dget ((k, v) # d) k' = (if k' = k then v else dget d k')"
  by (simp add: dget_def)

lemma dget_or_Nil [simp]: "dget_or [] k x = x"
  by (simp add: dget_or_def)

lemma dget_or_Cons [simp]: "dget_or ((k, v) # d) k' x = (if k' = k then v else dget_or d k' x)"
  by (simp add: dget_or_def)

lemma has_key_Nil [simp]: "has_key [] k = False"
  by (simp add: has_key_def)

lemma has_key_Cons [simp]: "has_key ((k, v) # d) k' = (k' = k \<or> has_key d k')"
  by (simp add: has_key_def)

lemma dget_dset [simp]: "dget (dset k v d) k' = (if k' = k then v else dget d k')"
  by (simp add: dget_def update_conv')

lemma dget_or_dset [simp]: "dget_or (dset k v d) k' x = (if k' = k then v else dget_or d k' x)"
  by (simp add: dget_or_def update_conv')

lemma has_key_dset [simp]: "has_key (dset k v d) k' = (k' = k \<or> has_key d k')"
  by (simp add: has_key_def update_conv')

lemma dget_not_has_key: "\<not> has_key d k \<Longrightarrow> dget d k = PNone"
  by (simp add: has_key_def dget_def)

lemma set_str_vals: "set (str_vals xs) = {s. PStr s \<in> set xs}"
proof -
  have "str_of v = Some s \<longleftrightarrow> v = PStr s" for v s
    by (cases v) auto
  then show ?thesis by (force simp: str_vals_def List.map_filter_def)
qed

section \<open>Numbers as text\<close>

definition digit_char :: "int \<Rightarrow> char" where
  "digit_char n = char_of (48 + n mod 10)"

function dec_digits :: "int \<Rightarrow> string" where
  "dec_digits n = (if n < 10 then [digit_char n] else dec_digits (n div 10) @ [digit_char n])"
  by pat_completeness auto
termination
  by (relation "measure nat") auto

declare dec_digits.simps [simp del]

definition int_str :: "int \<Rightarrow> string" where
  "int_str i = (if i < 0 then CHR ''-'' # dec_digits (- i) else dec_digits i)"

text \<open>
  \<open>repr\<close> of a float: the digits of the number, positional between \<open>1e-4\<close> and
  \<open>1e16\<close> and in scientific notation outside.  \<open>norm10\<close> scales a positive number into
  \<open>[1, 10)\<close>; a binary64 exponent is below 400 in absolute value, the fuel given.  A number
  with more than 17 significant digits is rounded to 17.
\<close>

fun norm10 :: "nat \<Rightarrow> rat \<Rightarrow> int \<Rightarrow> rat \<times> int" where
  "norm10 0 r e = (r, e)"
| "norm10 (Suc n) r e = (if r \<ge> 10 then norm10 n (r / 10) (e + 1)
     else if r < 1 then norm10 n (r * 10) (e - 1) else (r, e))"

text \<open>Rounding to an integer, ties to even, as Python's \<open>round\<close> does.\<close>

definition round_even :: "rat \<Rightarrow> int" where
  "round_even r = (let f = \<lfloor>r\<rfloor>; d = r - of_int f
     in if d < 1/2 then f else if d > 1/2 then f + 1 else if even f then f else f + 1)"

definition round_to :: "nat \<Rightarrow> rat \<Rightarrow> rat" where
  "round_to n r = of_int (round_even (r * 10 ^ n)) / 10 ^ n"

definition strip_zeros :: "string \<Rightarrow> string" where
  "strip_zeros s = rev (dropWhile (\<lambda>c. c = CHR ''0'') (rev s))"

definition exp_str :: "int \<Rightarrow> string" where
  "exp_str e = (if e < 0 then ''-'' else ''+'') @
     (let d = dec_digits \<bar>e\<bar> in if length d < 2 then CHR ''0'' # d else d)"

definition pos_float_repr :: "rat \<Rightarrow> string" where
  "pos_float_repr r = (case norm10 400 r 0 of (m, e0) \<Rightarrow>
     let raw = round_even (m * 10 ^ 16);
         e = (if raw \<ge> 10 ^ 17 then e0 + 1 else e0);
         ds = strip_zeros (dec_digits raw);
         n = length ds
     in if - 4 \<le> e \<and> e < 16 then
          (if e < 0 then ''0.'' @ replicate (nat (- e - 1)) CHR ''0'' @ ds
           else if n \<le> nat e + 1 then ds @ replicate (nat e + 1 - n) CHR ''0'' @ ''.0''
           else take (nat e + 1) ds @ ''.'' @ drop (nat e + 1) ds)
        else (if n = 1 then ds else take 1 ds @ ''.'' @ drop 1 ds) @ ''e'' @ exp_str e)"

fun float_repr :: "pyfloat \<Rightarrow> string" where
  "float_repr (Fin r) = (if r = 0 then ''0.0''
     else if r < 0 then CHR ''-'' # pos_float_repr (- r) else pos_float_repr r)"
| "float_repr PInf = ''inf''"
| "float_repr NInf = ''-inf''"
| "float_repr NaN = ''nan''"

section \<open>repr and str\<close>

definition hex_digit :: "nat \<Rightarrow> char" where
  "hex_digit n = (if n < 10 then char_of (48 + n) else char_of (87 + n))"

definition hex2 :: "nat \<Rightarrow> string" where
  "hex2 n = [hex_digit (n div 16 mod 16), hex_digit (n mod 16)]"

definition repr_char :: "char \<Rightarrow> char \<Rightarrow> string" where
  "repr_char q c = (let n = (of_char c :: nat) in
     if c = q \<or> c = CHR 0x5C then [CHR 0x5C, c]
     else if n = 9 then [CHR 0x5C, CHR ''t''] else if n = 10 then [CHR 0x5C, CHR ''n'']
     else if n = 13 then [CHR 0x5C, CHR ''r'']
     else if n < 32 \<or> (127 \<le> n \<and> n \<le> 160) \<or> n = 173 then [CHR 0x5C, CHR ''x''] @ hex2 n
     else [c])"

definition repr_str :: "string \<Rightarrow> string" where
  "repr_str s = (let q = (if CHR 0x27 \<in> set s \<and> CHR 0x22 \<notin> set s then CHR 0x22 else CHR 0x27)
     in [q] @ concat (map (repr_char q) s) @ [q])"

fun py_repr :: "pyval \<Rightarrow> string" where
  "py_repr PNone = ''None''"
| "py_repr (PBool b) = (if b then ''True'' else ''False'')"
| "py_repr (PInt i) = int_str i"
| "py_repr (PFloat f) = float_repr f"
| "py_repr (PStr s) = repr_str s"
| "py_repr (PList xs) = ''['' @ join_str '', '' (map py_repr xs) @ '']''"
| "py_repr (PDict d) = ''{'' @ join_str '', '' (map (\<lambda>(k, v). repr_str k @ '': '' @ py_repr v) d) @ ''}''"

definition py_str :: "pyval \<Rightarrow> string" where
  "py_str v = (case v of PStr s \<Rightarrow> s | _ \<Rightarrow> py_repr v)"

text \<open>The idiom \<open>str(x or "")\<close>.\<close>

definition str_or_empty :: "pyval \<Rightarrow> string" where
  "str_or_empty v = (if truthy v then py_str v else [])"

lemma py_str_PStr [simp]: "py_str (PStr s) = s"
  by (simp add: py_str_def)

lemma py_str_PNone [simp]: "py_str PNone = ''None''"
  by (simp add: py_str_def)

lemma str_or_empty_simps [simp]:
  "str_or_empty (PStr s) = s" "str_or_empty PNone = []"
  by (simp_all add: str_or_empty_def)

section \<open>json.dumps\<close>

text \<open>
  \<open>json.dumps(v, separators=(",", ":"))\<close>.  \<open>esc\<close> says whether characters above 126 are
  escaped (\<open>ensure_ascii\<close>), \<open>srt\<close> is \<open>sort_keys\<close>.
\<close>

definition json_char :: "bool \<Rightarrow> char \<Rightarrow> string" where
  "json_char esc c = (let n = (of_char c :: nat) in
     if n = 34 \<or> n = 92 then [CHR 0x5C, c]
     else if n = 8 then [CHR 0x5C, CHR ''b''] else if n = 9 then [CHR 0x5C, CHR ''t'']
     else if n = 10 then [CHR 0x5C, CHR ''n''] else if n = 12 then [CHR 0x5C, CHR ''f'']
     else if n = 13 then [CHR 0x5C, CHR ''r'']
     else if n < 32 \<or> (esc \<and> n > 126) then [CHR 0x5C, CHR ''u'', CHR ''0'', CHR ''0''] @ hex2 n
     else [c])"

definition json_str :: "bool \<Rightarrow> string \<Rightarrow> string" where
  "json_str esc s = [CHR 0x22] @ concat (map (json_char esc) s) @ [CHR 0x22]"

fun json_float :: "pyfloat \<Rightarrow> string" where
  "json_float (Fin r) = float_repr (Fin r)"
| "json_float PInf = ''Infinity''"
| "json_float NInf = ''-Infinity''"
| "json_float NaN = ''NaN''"

fun json_dumps :: "bool \<Rightarrow> bool \<Rightarrow> pyval \<Rightarrow> string" where
  "json_dumps esc srt PNone = ''null''"
| "json_dumps esc srt (PBool b) = (if b then ''true'' else ''false'')"
| "json_dumps esc srt (PInt i) = int_str i"
| "json_dumps esc srt (PFloat f) = json_float f"
| "json_dumps esc srt (PStr s) = json_str esc s"
| "json_dumps esc srt (PList xs) = ''['' @ join_str '','' (map (json_dumps esc srt) xs) @ '']''"
| "json_dumps esc srt (PDict d) = ''{'' @ join_str '',''
     (map snd ((if srt then sort_key fst else id)
       (map (\<lambda>(k, v). (k, json_str esc k @ '':'' @ json_dumps esc srt v)) d))) @ ''}''"

section \<open>int and float\<close>

definition is_digit :: "char \<Rightarrow> bool" where
  "is_digit c = (let n = (of_char c :: nat) in 48 \<le> n \<and> n \<le> 57)"

definition digit_val :: "char \<Rightarrow> int" where
  "digit_val c = of_char c - 48"

text \<open>Digits with single underscores between them; the value and the number of digits.\<close>

fun read_digits :: "string \<Rightarrow> int \<Rightarrow> nat \<Rightarrow> (int \<times> nat \<times> string)" where
  "read_digits [] acc n = (acc, n, [])"
| "read_digits (c # s) acc n =
     (if is_digit c then read_digits s (acc * 10 + digit_val c) (Suc n)
      else if c = CHR ''_'' \<and> n > 0 \<and> s \<noteq> [] \<and> is_digit (hd s) then read_digits s acc n
      else (acc, n, c # s))"

definition read_sign :: "string \<Rightarrow> bool \<times> string" where
  "read_sign s = (case s of [] \<Rightarrow> (False, [])
     | c # t \<Rightarrow> if c = CHR ''-'' then (True, t) else if c = CHR ''+'' then (False, t) else (False, s))"

definition parse_int :: "string \<Rightarrow> int res" where
  "parse_int s = (case read_sign (strip s) of (neg, t) \<Rightarrow>
     (case read_digits t 0 0 of (v, n, rest) \<Rightarrow>
       if n = 0 \<or> rest \<noteq> [] then Inl ValueError
       else Inr (if neg then - v else v)))"

text \<open>Optional exponent at the end of a float literal.\<close>

definition read_exp :: "string \<Rightarrow> int option" where
  "read_exp s = (case s of [] \<Rightarrow> Some 0
     | c # t \<Rightarrow> if c = CHR ''e'' \<or> c = CHR ''E'' then
         (case read_sign t of (neg, u) \<Rightarrow> (case read_digits u 0 0 of (v, n, rest) \<Rightarrow>
            if n = 0 \<or> rest \<noteq> [] then None else Some (if neg then - v else v)))
       else None)"

definition parse_float_body :: "string \<Rightarrow> pyfloat res" where
  "parse_float_body t =
     (if lower t = ''inf'' \<or> lower t = ''infinity'' then Inr PInf
      else if lower t = ''nan'' then Inr NaN
      else (case read_digits t 0 0 of (v, n, rest) \<Rightarrow>
        (case (if rest \<noteq> [] \<and> hd rest = CHR ''.'' then
                 (case read_digits (tl rest) 0 0 of (w, m, rest') \<Rightarrow> (w, m, rest'))
               else (0, 0, rest)) of (w, m, tail) \<Rightarrow>
          if n + m = 0 then Inl ValueError
          else (case read_exp tail of None \<Rightarrow> Inl ValueError
            | Some e \<Rightarrow> let x = of_int v + of_int w / 10 ^ m
                in Inr (Fin (if e \<ge> 0 then x * 10 ^ nat e else x / 10 ^ nat (- e)))))))"

definition parse_float :: "string \<Rightarrow> pyfloat res" where
  "parse_float s = (case read_sign (strip s) of (neg, t) \<Rightarrow>
     (case parse_float_body t of Inl e \<Rightarrow> Inl e
      | Inr f \<Rightarrow> Inr (if neg then fneg f else f)))"

definition trunc_rat :: "rat \<Rightarrow> int" where
  "trunc_rat r = (if r < 0 then - \<lfloor>- r\<rfloor> else \<lfloor>r\<rfloor>)"

fun py_int :: "pyval \<Rightarrow> int res" where
  "py_int (PBool b) = Inr (if b then 1 else 0)"
| "py_int (PInt i) = Inr i"
| "py_int (PFloat (Fin r)) = Inr (trunc_rat r)"
| "py_int (PFloat NaN) = Inl ValueError"
| "py_int (PFloat _) = Inl OverflowError"
| "py_int (PStr s) = parse_int s"
| "py_int _ = Inl TypeError"

text \<open>\<open>float(i)\<close> raises when the integer rounds beyond the largest finite float.\<close>

definition int_to_float :: "int \<Rightarrow> pyfloat res" where
  "int_to_float i = (if \<bar>i\<bar> \<ge> 2 ^ 1024 - 2 ^ 970 then Inl OverflowError else Inr (Fin (of_int i)))"

fun py_float :: "pyval \<Rightarrow> pyfloat res" where
  "py_float (PBool b) = Inr (Fin (if b then 1 else 0))"
| "py_float (PInt i) = int_to_float i"
| "py_float (PFloat f) = Inr f"
| "py_float (PStr s) = parse_float s"
| "py_float _ = Inl TypeError"

section \<open>Equality\<close>

text \<open>Python's \<open>==\<close>: numbers compare by value across \<open>bool\<close>, \<open>int\<close> and \<open>float\<close>.\<close>

fun num_of :: "pyval \<Rightarrow> pyfloat option" where
  "num_of (PBool b) = Some (Fin (if b then 1 else 0))"
| "num_of (PInt i) = Some (Fin (of_int i))"
| "num_of (PFloat f) = Some f"
| "num_of _ = None"

fun py_eq :: "pyval \<Rightarrow> pyval \<Rightarrow> bool"
  and py_eq_list :: "pyval list \<Rightarrow> pyval list \<Rightarrow> bool"
  and py_eq_sub :: "dict \<Rightarrow> dict \<Rightarrow> bool" where
  "py_eq PNone w = (w = PNone)"
| "py_eq (PStr s) w = (w = PStr s)"
| "py_eq (PList xs) w = (case w of PList ys \<Rightarrow> py_eq_list xs ys | _ \<Rightarrow> False)"
| "py_eq (PDict d) w = (case w of PDict e \<Rightarrow> length d = length e \<and> py_eq_sub d e | _ \<Rightarrow> False)"
| "py_eq (PBool b) w = (case num_of w of Some g \<Rightarrow> feq (Fin (if b then 1 else 0)) g | None \<Rightarrow> False)"
| "py_eq (PInt i) w = (case num_of w of Some g \<Rightarrow> feq (Fin (of_int i)) g | None \<Rightarrow> False)"
| "py_eq (PFloat f) w = (case num_of w of Some g \<Rightarrow> feq f g | None \<Rightarrow> False)"
| "py_eq_list [] ys = (ys = [])"
| "py_eq_list (x # xs) ys = (case ys of [] \<Rightarrow> False | y # zs \<Rightarrow> py_eq x y \<and> py_eq_list xs zs)"
| "py_eq_sub [] e = True"
| "py_eq_sub ((k, v) # d) e =
     ((case map_of e k of None \<Rightarrow> False | Some w \<Rightarrow> py_eq v w) \<and> py_eq_sub d e)"

lemma py_eq_PStr_right [simp]: "py_eq v (PStr s) = (v = PStr s)"
  by (cases v) auto

lemma py_eq_PNone_right [simp]: "py_eq v PNone = (v = PNone)"
  by (cases v) auto

lemma py_int_PInt_or_default: "or_default d (py_int (PInt i)) = i"
  by simp

section \<open>Decimal text read back\<close>

lemma digit_char_props:
  "is_digit (digit_char n)" "digit_val (digit_char n) = n mod 10" "\<not> is_space (digit_char n)"
  "digit_char n \<noteq> CHR ''-''" "digit_char n \<noteq> CHR ''+''" "digit_char n \<noteq> CHR ''_''"
proof -
  have "n mod 10 \<in> set [0..9]" by (simp add: pos_mod_bound less_imp_le)
  moreover have "\<forall>k \<in> set [0..9]. is_digit (char_of (48 + k)) \<and> digit_val (char_of (48 + k)) = k \<and> \<not> is_space (char_of (48 + k)) \<and>
    (char_of (48 + k) :: char) \<noteq> CHR ''-'' \<and> (char_of (48 + k) :: char) \<noteq> CHR ''+'' \<and> (char_of (48 + k) :: char) \<noteq> CHR ''_''" for k :: int
    by code_simp
  ultimately show "is_digit (digit_char n)" "digit_val (digit_char n) = n mod 10" "\<not> is_space (digit_char n)"
    "digit_char n \<noteq> CHR ''-''" "digit_char n \<noteq> CHR ''+''" "digit_char n \<noteq> CHR ''_''"
    unfolding digit_char_def by blast+
qed

lemma read_digits_append:
  "list_all is_digit ds \<Longrightarrow> read_digits (ds @ s) acc n =
     read_digits s (foldl (\<lambda>a c. a * 10 + digit_val c) acc ds) (n + length ds)"
  by (induction ds arbitrary: acc n) auto

lemma dec_digits_props:
  assumes "0 \<le> n"
  shows "list_all is_digit (dec_digits n) \<and> dec_digits n \<noteq> [] \<and>
    foldl (\<lambda>a c. a * 10 + digit_val c) 0 (dec_digits n) = n"
  using assms
proof (induction n rule: dec_digits.induct)
  case (1 n)
  show ?case
  proof (cases "n < 10")
    case True
    then show ?thesis using 1 by (simp add: dec_digits.simps [of n] digit_char_props)
  next
    case False
    then show ?thesis using 1 by (simp add: dec_digits.simps [of n] digit_char_props)
  qed
qed

lemma strip_int_str [simp]: "strip (int_str i) = int_str i"
proof -
  have d: "\<not> is_space (hd (dec_digits n)) \<and> \<not> is_space (last (dec_digits n))" if "0 \<le> n" for n
  proof -
    have sp: "is_digit c \<Longrightarrow> \<not> is_space c" for c by (auto simp: is_digit_def is_space_def Let_def)
    have "hd (dec_digits n) \<in> set (dec_digits n)" "last (dec_digits n) \<in> set (dec_digits n)"
      using dec_digits_props [OF that] by auto
    then show ?thesis using dec_digits_props [OF that] sp by (auto simp: list_all_iff)
  qed
  show ?thesis
  proof (rule strip_eqI)
    show "int_str i = [] \<or> \<not> is_space (hd (int_str i)) \<and> \<not> is_space (last (int_str i))"
      using d [of i] d [of "- i"] dec_digits_props [of "- i"] by (auto simp: int_str_def is_space_def)
  qed
qed

text \<open>\<open>int(str(i)) == i\<close>.\<close>

lemma parse_int_int_str [simp]: "parse_int (int_str i) = Inr i"
proof -
  have r: "read_digits (dec_digits n) 0 0 = (n, length (dec_digits n), [])" if "0 \<le> n" for n
    using read_digits_append [of "dec_digits n" "[]" 0 0] dec_digits_props [OF that] by simp
  have s: "read_sign (dec_digits n) = (False, dec_digits n)" if "0 \<le> n" for n
    using dec_digits_props [OF that] by (auto simp: read_sign_def is_digit_def Let_def split: list.split)
  have ne: "dec_digits n \<noteq> []" if "0 \<le> n" for n using dec_digits_props [OF that] by simp
  show ?thesis
  proof (cases "i < 0")
    case True
    then have "read_sign (int_str i) = (True, dec_digits (- i))" by (simp add: int_str_def read_sign_def)
    then show ?thesis using r [of "- i"] ne [of "- i"] True by (simp add: parse_int_def)
  next
    case False
    then have "read_sign (int_str i) = (False, dec_digits i)" using s by (simp add: int_str_def)
    then show ?thesis using r [of i] ne [of i] False by (simp add: parse_int_def)
  qed
qed

end
