(* ===== verification/Circuit_Breakers.thy ===== *)
theory Circuit_Breakers
  imports Py_Json
begin

text \<open>
  The two circuit breakers of the platform.

  \<^item> \<open>services/shared/circuit.py\<close>: \<open>AsyncCircuitBreaker\<close>, around outbound HTTP and Redis
    calls.  \<open>call\<close> takes its lock twice, before and after awaiting the wrapped coroutine, so
    any number of calls can be in flight between the two.  Each critical section is one
    operation of the model; the interleavings are the step relation \<open>br_step\<close>.
  \<^item> \<open>decision_api/rust_ffi_circuit.py\<close>: the sliding-window breaker in front of the Rust rule
    engine, a deque of failure times.

  Time is \<open>time.monotonic()\<close>, a rational number passed to each operation.  What both breakers
  promise to their callers is the locale \<open>failure_gate\<close>; it is interpreted on both.
\<close>

section \<open>AsyncCircuitBreaker\<close>

record breaker =
  br_threshold :: int
  br_recovery :: rat
  br_failures :: int
  br_blocked_until :: "rat option"

definition breaker_init :: "int \<Rightarrow> rat \<Rightarrow> breaker" where
  "breaker_init failure_threshold recovery_seconds =
     \<lparr>br_threshold = max 1 failure_threshold, br_recovery = max (1/100) recovery_seconds,
      br_failures = 0, br_blocked_until = None\<rparr>"

definition is_blocked_locked :: "rat \<Rightarrow> breaker \<Rightarrow> bool \<times> breaker" where
  "is_blocked_locked now b = (case br_blocked_until b of
       None \<Rightarrow> (False, b)
     | Some u \<Rightarrow> if now \<ge> u then (False, b\<lparr>br_blocked_until := None\<rparr>) else (True, b))"

text \<open>The handlers of the second critical section of \<open>call\<close>: the \<open>except\<close> branch and the
  normal one.\<close>

definition breaker_on_failure :: "rat \<Rightarrow> breaker \<Rightarrow> breaker" where
  "breaker_on_failure now b = (let b1 = b\<lparr>br_failures := br_failures b + 1\<rparr>
     in if br_failures b1 \<ge> br_threshold b1
        then b1\<lparr>br_blocked_until := Some (now + br_recovery b1)\<rparr> else b1)"

definition breaker_on_success :: "breaker \<Rightarrow> breaker" where
  "breaker_on_success b = b\<lparr>br_failures := 0, br_blocked_until := None\<rparr>"

datatype 'a call_result = CircuitOpenError | CallRaised | CallReturned 'a

text \<open>
  \<open>call\<close> without interleaving: \<open>t0\<close> is the clock at the gate and \<open>t1\<close> at the end of the
  awaited \<open>factory()\<close>, whose outcome is \<open>None\<close> for an exception.
\<close>

definition breaker_call :: "rat \<Rightarrow> rat \<Rightarrow> 'a option \<Rightarrow> breaker \<Rightarrow> 'a call_result \<times> breaker" where
  "breaker_call t0 t1 outcome b = (case is_blocked_locked t0 b of
       (True, b1) \<Rightarrow> (CircuitOpenError, b1)
     | (False, b1) \<Rightarrow> (case outcome of
           None \<Rightarrow> (CallRaised, breaker_on_failure t1 b1)
         | Some r \<Rightarrow> (CallReturned r, breaker_on_success b1)))"

definition breaker_open :: "rat \<Rightarrow> breaker \<Rightarrow> bool" where
  "breaker_open now b = fst (is_blocked_locked now b)"

definition breaker_inv :: "breaker \<Rightarrow> bool" where
  "breaker_inv b = (1 \<le> br_threshold b \<and> 0 < br_recovery b \<and> 0 \<le> br_failures b \<and>
     (br_blocked_until b \<noteq> None \<longrightarrow> br_threshold b \<le> br_failures b))"

lemmas breaker_defs = breaker_inv_def breaker_open_def is_blocked_locked_def
  breaker_on_failure_def breaker_on_success_def

lemma breaker_inv_init: "breaker_inv (breaker_init n r)"
  by (simp add: breaker_inv_def breaker_init_def)

lemma breaker_inv_gate: "breaker_inv b \<Longrightarrow> breaker_inv (snd (is_blocked_locked now b))"
  by (auto simp: breaker_defs split: option.splits)

lemma breaker_inv_failure: "breaker_inv b \<Longrightarrow> breaker_inv (breaker_on_failure now b)"
  by (auto simp: breaker_defs Let_def)

lemma breaker_inv_success: "breaker_inv b \<Longrightarrow> breaker_inv (breaker_on_success b)"
  by (auto simp: breaker_defs)

section \<open>The sliding-window breaker of the Rust engine\<close>

type_synonym failure_times = "rat list"

text \<open>\<open>_prune\<close>: pop failure times from the left while they are older than the window.\<close>

definition ffi_prune :: "rat \<Rightarrow> rat \<Rightarrow> failure_times \<Rightarrow> failure_times" where
  "ffi_prune window now q = dropWhile (\<lambda>t. t < now - window) q"

definition ffi_threshold :: "int \<Rightarrow> int" where
  "ffi_threshold configured = max 1 configured"

definition failures_in_window :: "rat \<Rightarrow> rat \<Rightarrow> failure_times \<Rightarrow> nat \<times> failure_times" where
  "failures_in_window window now q = (let q' = ffi_prune window now q in (length q', q'))"

definition circuit_is_open :: "rat \<Rightarrow> int \<Rightarrow> rat \<Rightarrow> failure_times \<Rightarrow> bool \<times> failure_times" where
  "circuit_is_open window configured now q = (case failures_in_window window now q of
     (n, q') \<Rightarrow> (int n \<ge> ffi_threshold configured, q'))"

definition record_rust_ffi_failure :: "rat \<Rightarrow> rat \<Rightarrow> failure_times \<Rightarrow> nat \<times> failure_times" where
  "record_rust_ffi_failure window now q = (let
     q1 = ffi_prune window now q; q2 = q1 @ [now]; q3 = ffi_prune window now q2
     in (length q3, q3))"

definition record_rust_ffi_success :: "failure_times \<Rightarrow> failure_times" where
  "record_rust_ffi_success q = []"

section \<open>What a breaker promises\<close>

text \<open>
  The contract callers rely on: failures recorded at one instant add up, enough of them block,
  a success unblocks and starts the count again.
\<close>

locale failure_gate =
  fixes blocked :: "rat \<Rightarrow> 's \<Rightarrow> bool"
    and fail :: "rat \<Rightarrow> 's \<Rightarrow> 's"
    and succeed :: "'s \<Rightarrow> 's"
    and count :: "rat \<Rightarrow> 's \<Rightarrow> nat"
    and thr :: "'s \<Rightarrow> nat"
    and inv :: "rat \<Rightarrow> 's \<Rightarrow> bool"
  assumes inv_fail: "inv now s \<Longrightarrow> inv now (fail now s)"
    and inv_succeed: "inv now s \<Longrightarrow> inv now (succeed s)"
    and thr_pos: "inv now s \<Longrightarrow> 0 < thr s"
    and thr_fail: "thr (fail now s) = thr s"
    and count_fail: "inv now s \<Longrightarrow> count now (fail now s) = Suc (count now s)"
    and fail_blocks: "inv now s \<Longrightarrow> thr s \<le> Suc (count now s) \<Longrightarrow> blocked now (fail now s)"
    and succeed_opens: "inv now s \<Longrightarrow> \<not> blocked now (succeed s)"
    and count_succeed: "count now (succeed s) = 0"
begin

lemma burst_facts:
  "inv now s \<Longrightarrow> inv now ((fail now ^^ n) s) \<and> thr ((fail now ^^ n) s) = thr s
     \<and> count now ((fail now ^^ n) s) = count now s + n"
  by (induction n) (auto simp: inv_fail thr_fail count_fail)

text \<open>A burst of as many failures as the threshold says opens the gate, whatever came before.\<close>

lemma burst_blocks:
  assumes "inv now s" and "thr s \<le> n"
  shows "blocked now ((fail now ^^ n) s)"
proof (cases n)
  case 0
  with assms thr_pos show ?thesis by fastforce
next
  case (Suc m)
  have "inv now ((fail now ^^ m) s)" "thr ((fail now ^^ m) s) \<le> Suc (count now ((fail now ^^ m) s))"
    using burst_facts [OF assms(1), of m] assms(2) Suc by auto
  then show ?thesis using Suc fail_blocks by simp
qed

text \<open>After a success the whole threshold has to be reached again.\<close>

lemma recovered_count:
  assumes "inv now s"
  shows "count now ((fail now ^^ n) (succeed s)) = n"
  using burst_facts [OF inv_succeed [OF assms], of n] by (simp add: count_succeed)

end

interpretation br: failure_gate breaker_open breaker_on_failure breaker_on_success
  "\<lambda>_ b. nat (br_failures b)" "\<lambda>b. nat (br_threshold b)" "\<lambda>_. breaker_inv"
  by unfold_locales (auto simp: breaker_inv_failure breaker_inv_success breaker_defs Let_def)

text \<open>
  The deque's invariant: times in order and none in the future, what the monotonic clock gives.
\<close>

definition ffi_inv :: "rat \<Rightarrow> failure_times \<Rightarrow> bool" where
  "ffi_inv now q = (sorted q \<and> (\<forall>t \<in> set q. t \<le> now))"

lemma ffi_prune_filter: "sorted q \<Longrightarrow> ffi_prune w now q = filter (\<lambda>t. now - w \<le> t) q"
proof (induction q)
  case Nil
  then show ?case by (simp add: ffi_prune_def)
next
  case (Cons t q)
  show ?case
  proof (cases "t < now - w")
    case True
    with Cons show ?thesis by (simp add: ffi_prune_def)
  next
    case False
    with Cons.prems have "\<forall>x \<in> set q. now - w \<le> x" by fastforce
    with False show ?thesis by (simp add: ffi_prune_def filter_id_conv)
  qed
qed

lemma ffi_inv_mono: "ffi_inv t q \<Longrightarrow> t \<le> now \<Longrightarrow> ffi_inv now q"
  by (auto simp: ffi_inv_def)

lemma ffi_inv_prune_filter: "ffi_inv now q \<Longrightarrow> ffi_prune w now q = filter (\<lambda>t. now - w \<le> t) q"
  by (simp add: ffi_inv_def ffi_prune_filter)

lemma ffi_inv_prune: "ffi_inv now q \<Longrightarrow> ffi_inv now (ffi_prune w now q)"
  by (auto simp: ffi_inv_def ffi_prune_filter sorted_wrt_filter)

lemma ffi_inv_snoc: "ffi_inv now q \<Longrightarrow> ffi_inv now (q @ [now])"
  by (auto simp: ffi_inv_def sorted_append)

lemma ffi_prune_idem: "ffi_prune w now (ffi_prune w now q) = ffi_prune w now q"
  by (induction q) (auto simp: ffi_prune_def)

lemma ffi_record_queue:
  assumes "0 \<le> w" and "ffi_inv now q"
  shows "record_rust_ffi_failure w now q =
    (Suc (length (ffi_prune w now q)), ffi_prune w now q @ [now])"
proof -
  have "sorted (ffi_prune w now q @ [now])"
    using assms(2) ffi_inv_prune ffi_inv_snoc by (simp add: ffi_inv_def)
  then have "ffi_prune w now (ffi_prune w now q @ [now]) = ffi_prune w now q @ [now]"
    using assms by (auto simp: ffi_prune_filter ffi_inv_def)
  then show ?thesis by (simp add: record_rust_ffi_failure_def Let_def)
qed

text \<open>
  The window and threshold settings are part of the state of the gate, as \<open>(window,
  threshold, queue)\<close>; a non-negative window is what makes a new failure count.
\<close>

type_synonym ffi_gate = "rat \<times> int \<times> failure_times"

definition ffi_gate_inv :: "rat \<Rightarrow> ffi_gate \<Rightarrow> bool" where
  "ffi_gate_inv now g = (case g of (w, n, q) \<Rightarrow> 0 \<le> w \<and> ffi_inv now q)"

definition ffi_blocked :: "rat \<Rightarrow> ffi_gate \<Rightarrow> bool" where
  "ffi_blocked now g = (case g of (w, n, q) \<Rightarrow> fst (circuit_is_open w n now q))"

definition ffi_fail :: "rat \<Rightarrow> ffi_gate \<Rightarrow> ffi_gate" where
  "ffi_fail now g = (case g of (w, n, q) \<Rightarrow> (w, n, snd (record_rust_ffi_failure w now q)))"

definition ffi_succeed :: "ffi_gate \<Rightarrow> ffi_gate" where
  "ffi_succeed g = (case g of (w, n, q) \<Rightarrow> (w, n, record_rust_ffi_success q))"

definition ffi_count :: "rat \<Rightarrow> ffi_gate \<Rightarrow> nat" where
  "ffi_count now g = (case g of (w, n, q) \<Rightarrow> fst (failures_in_window w now q))"

definition ffi_thr :: "ffi_gate \<Rightarrow> nat" where
  "ffi_thr g = (case g of (w, n, q) \<Rightarrow> nat (ffi_threshold n))"

lemmas ffi_defs = ffi_gate_inv_def ffi_blocked_def ffi_fail_def ffi_succeed_def ffi_count_def
  ffi_thr_def circuit_is_open_def failures_in_window_def record_rust_ffi_success_def
  ffi_threshold_def

lemma ffi_count_fail:
  assumes "ffi_gate_inv now g"
  shows "ffi_count now (ffi_fail now g) = Suc (ffi_count now g)"
proof -
  obtain w n q where g: "g = (w, n, q)" by (cases g)
  with assms have inv: "0 \<le> w" "ffi_inv now q" by (auto simp: ffi_gate_inv_def)
  have "sorted (ffi_prune w now q @ [now])"
    using inv(2) ffi_inv_prune ffi_inv_snoc by (simp add: ffi_inv_def)
  then have "ffi_prune w now (ffi_prune w now q @ [now]) = ffi_prune w now q @ [now]"
    using inv by (auto simp: ffi_prune_filter ffi_inv_def)
  then show ?thesis
    by (simp add: g ffi_fail_def ffi_count_def failures_in_window_def Let_def ffi_record_queue [OF inv])
qed

interpretation ffi: failure_gate ffi_blocked ffi_fail ffi_succeed ffi_count ffi_thr ffi_gate_inv
proof unfold_locales
  fix now g
  assume inv: "ffi_gate_inv now g"
  obtain w n q where g: "g = (w, n, q)" by (cases g)
  show "ffi_gate_inv now (ffi_fail now g)"
    using inv by (auto simp: g ffi_gate_inv_def ffi_fail_def ffi_record_queue ffi_inv_prune ffi_inv_snoc)
  show "ffi_gate_inv now (ffi_succeed g)"
    using inv by (auto simp: g ffi_defs ffi_inv_def)
  show "0 < ffi_thr g"
    by (simp add: g ffi_thr_def ffi_threshold_def)
  show "ffi_count now (ffi_fail now g) = Suc (ffi_count now g)"
    using inv by (rule ffi_count_fail)
  show "ffi_blocked now (ffi_fail now g)" if "ffi_thr g \<le> Suc (ffi_count now g)"
    using that ffi_count_fail [OF inv]
    by (auto simp: g ffi_blocked_def ffi_fail_def ffi_count_def ffi_thr_def circuit_is_open_def
        failures_in_window_def Let_def)
  show "\<not> ffi_blocked now (ffi_succeed g)"
    by (simp add: g ffi_defs ffi_prune_def)
next
  fix now g
  show "ffi_thr (ffi_fail now g) = ffi_thr g"
    by (simp add: ffi_thr_def ffi_fail_def split: prod.splits)
  show "ffi_count now (ffi_succeed g) = 0"
    by (simp add: ffi_defs ffi_prune_def split: prod.splits)
qed

section \<open>Histories of the sliding window\<close>

datatype ffi_event = FfiFailure rat | FfiSuccess | FfiCheck rat

fun ffi_event_time :: "ffi_event \<Rightarrow> rat option" where
  "ffi_event_time (FfiFailure t) = Some t"
| "ffi_event_time FfiSuccess = None"
| "ffi_event_time (FfiCheck t) = Some t"

definition event_times :: "ffi_event list \<Rightarrow> rat list" where
  "event_times es = List.map_filter ffi_event_time es"

fun ffi_step :: "rat \<Rightarrow> ffi_event \<Rightarrow> failure_times \<Rightarrow> failure_times" where
  "ffi_step w (FfiFailure t) q = snd (record_rust_ffi_failure w t q)"
| "ffi_step w FfiSuccess q = record_rust_ffi_success q"
| "ffi_step w (FfiCheck t) q = snd (failures_in_window w t q)"

definition ffi_run :: "rat \<Rightarrow> ffi_event list \<Rightarrow> failure_times" where
  "ffi_run w es = fold (ffi_step w) es []"

text \<open>The specification keeps everything: the failures since the last success.\<close>

fun spec_step :: "ffi_event \<Rightarrow> rat list \<Rightarrow> rat list" where
  "spec_step (FfiFailure t) h = h @ [t]"
| "spec_step FfiSuccess h = []"
| "spec_step (FfiCheck t) h = h"

definition failures_since :: "ffi_event list \<Rightarrow> rat list" where
  "failures_since es = fold spec_step es []"

lemma event_times_snoc: "event_times (es @ [e]) =
    event_times es @ (case ffi_event_time e of None \<Rightarrow> [] | Some t \<Rightarrow> [t])"
  by (simp add: event_times_def map_filter_def split: option.splits)

lemma failures_since_snoc [simp]: "failures_since (es @ [e]) = spec_step e (failures_since es)"
  by (simp add: failures_since_def)

lemma ffi_run_snoc [simp]: "ffi_run w (es @ [e]) = ffi_step w e (ffi_run w es)"
  by (simp add: ffi_run_def)

lemma failures_since_subset: "set (failures_since es) \<subseteq> set (event_times es)"
proof (induction es rule: rev_induct)
  case Nil
  then show ?case by (simp add: failures_since_def)
next
  case (snoc e es)
  then show ?case by (cases e) (auto simp: event_times_snoc)
qed

lemma ffi_run_refines:
  assumes "0 \<le> w" and "sorted (event_times es @ [now])"
  shows "ffi_inv now (ffi_run w es) \<and>
    ffi_prune w now (ffi_run w es) = filter (\<lambda>t. now - w \<le> t) (failures_since es)"
  using assms(2)
proof (induction es arbitrary: now rule: rev_induct)
  case Nil
  then show ?case by (simp add: ffi_run_def failures_since_def ffi_inv_def ffi_prune_def)
next
  case (snoc e es)
  show ?case
  proof (cases e)
    case FfiSuccess
    then show ?thesis by (simp add: record_rust_ffi_success_def ffi_inv_def ffi_prune_def)
  next
    case (FfiFailure t)
    with snoc.prems have t: "sorted (event_times es @ [t])" "t \<le> now"
      by (auto simp: event_times_snoc sorted_append)
    note IH = snoc.IH [OF t(1)]
    have q: "ffi_run w (es @ [e]) = ffi_prune w t (ffi_run w es) @ [t]"
      using FfiFailure ffi_record_queue [OF assms(1)] IH by simp
    have inv: "ffi_inv now (ffi_run w (es @ [e]))"
      unfolding q using IH t(2) by (intro ffi_inv_mono [OF _ t(2)] ffi_inv_snoc ffi_inv_prune) simp
    have "ffi_prune w now (ffi_run w (es @ [e])) =
      filter (\<lambda>x. now - w \<le> x) (filter (\<lambda>x. t - w \<le> x) (failures_since es) @ [t])"
      unfolding ffi_inv_prune_filter [OF inv] unfolding q using IH by simp
    also have "\<dots> = filter (\<lambda>x. now - w \<le> x) (failures_since es @ [t])"
      using t(2) by (auto intro!: filter_cong)
    finally show ?thesis using inv FfiFailure by simp
  next
    case (FfiCheck t)
    with snoc.prems have t: "sorted (event_times es @ [t])" "t \<le> now"
      by (auto simp: event_times_snoc sorted_append)
    note IH = snoc.IH [OF t(1)]
    have q: "ffi_run w (es @ [e]) = ffi_prune w t (ffi_run w es)"
      using FfiCheck by (simp add: failures_in_window_def Let_def)
    have inv: "ffi_inv now (ffi_run w (es @ [e]))"
      unfolding q using IH t(2) by (intro ffi_inv_mono [OF _ t(2)] ffi_inv_prune) simp
    have "ffi_prune w now (ffi_run w (es @ [e])) =
      filter (\<lambda>x. now - w \<le> x) (filter (\<lambda>x. t - w \<le> x) (failures_since es))"
      unfolding ffi_inv_prune_filter [OF inv] unfolding q using IH by simp
    also have "\<dots> = filter (\<lambda>x. now - w \<le> x) (failures_since es)"
      using t(2) by (auto intro!: filter_cong)
    finally show ?thesis using inv FfiCheck by simp
  qed
qed

section \<open>Runs of the asynchronous breaker\<close>

text \<open>Sequential failing calls at the given gate and completion times.\<close>

fun failing_calls :: "(rat \<times> rat) list \<Rightarrow> breaker \<Rightarrow> unit call_result list \<times> breaker" where
  "failing_calls [] b = ([], b)"
| "failing_calls ((t0, t1) # ts) b = (case breaker_call t0 t1 None b of
     (r, b1) \<Rightarrow> (case failing_calls ts b1 of (rs, b2) \<Rightarrow> (r # rs, b2)))"

lemma breaker_call_closed_failure:
  assumes "br_blocked_until b = None"
  shows "breaker_call t0 t1 None b = (CallRaised, breaker_on_failure t1 b)"
  using assms by (simp add: breaker_call_def is_blocked_locked_def)

lemma failing_calls_count:
  assumes "br_blocked_until b = None" and "0 \<le> br_failures b" and "ts \<noteq> []"
    and "br_failures b + int (length ts) \<le> br_threshold b"
  shows "failing_calls ts b = (replicate (length ts) CallRaised,
     b\<lparr>br_failures := br_failures b + int (length ts),
       br_blocked_until := (if br_failures b + int (length ts) = br_threshold b
         then Some (snd (last ts) + br_recovery b) else None)\<rparr>)"
  using assms
proof (induction ts arbitrary: b)
  case Nil
  then show ?case by simp
next
  case (Cons p ts)
  obtain t0 t1 where p: "p = (t0, t1)" by (cases p)
  show ?case
  proof (cases "ts = []")
    case True
    with Cons.prems p show ?thesis
      by (auto simp: breaker_call_closed_failure breaker_on_failure_def Let_def)
  next
    case False
    let ?b1 = "b\<lparr>br_failures := br_failures b + 1\<rparr>"
    have b1: "breaker_on_failure t1 b = ?b1"
      using Cons.prems False by (cases ts) (auto simp: breaker_on_failure_def Let_def)
    have "failing_calls ts ?b1 = (replicate (length ts) CallRaised,
       ?b1\<lparr>br_failures := br_failures ?b1 + int (length ts),
         br_blocked_until := (if br_failures ?b1 + int (length ts) = br_threshold ?b1
           then Some (snd (last ts) + br_recovery ?b1) else None)\<rparr>)"
      using Cons.prems False by (intro Cons.IH) auto
    then show ?thesis
      using Cons.prems False p by (simp add: breaker_call_closed_failure b1 algebra_simps)
  qed
qed

text \<open>
  The interleaved breaker: a clock, the breaker and the number of calls that passed the gate
  and have not finished.
\<close>

record br_sys =
  sys_now :: rat
  sys_breaker :: breaker
  sys_inflight :: nat

inductive br_step :: "br_sys \<Rightarrow> br_sys \<Rightarrow> bool" where
  tick: "0 \<le> d \<Longrightarrow> br_step s (s\<lparr>sys_now := sys_now s + d\<rparr>)"
| enter: "is_blocked_locked (sys_now s) (sys_breaker s) = (False, b) \<Longrightarrow>
     br_step s (s\<lparr>sys_breaker := b, sys_inflight := Suc (sys_inflight s)\<rparr>)"
| reject: "is_blocked_locked (sys_now s) (sys_breaker s) = (True, b) \<Longrightarrow>
     br_step s (s\<lparr>sys_breaker := b\<rparr>)"
| raised: "sys_inflight s = Suc n \<Longrightarrow>
     br_step s (s\<lparr>sys_breaker := breaker_on_failure (sys_now s) (sys_breaker s), sys_inflight := n\<rparr>)"
| returned: "sys_inflight s = Suc n \<Longrightarrow>
     br_step s (s\<lparr>sys_breaker := breaker_on_success (sys_breaker s), sys_inflight := n\<rparr>)"

inductive_cases br_stepE: "br_step s t"

inductive br_reachable :: "int \<Rightarrow> rat \<Rightarrow> br_sys \<Rightarrow> bool" for n r where
  start: "br_reachable n r \<lparr>sys_now = t, sys_breaker = breaker_init n r, sys_inflight = 0\<rparr>"
| step: "br_reachable n r s \<Longrightarrow> br_step s t \<Longrightarrow> br_reachable n r t"

text \<open>What every reachable state satisfies: the breaker's invariant, the configuration of the
  constructor, and that a blocking deadline is at most the recovery time away.\<close>

definition br_sys_inv :: "int \<Rightarrow> rat \<Rightarrow> br_sys \<Rightarrow> bool" where
  "br_sys_inv n r s = (breaker_inv (sys_breaker s) \<and> br_threshold (sys_breaker s) = max 1 n \<and>
     br_recovery (sys_breaker s) = max (1/100) r \<and>
     (\<forall>u. br_blocked_until (sys_breaker s) = Some u \<longrightarrow> u \<le> sys_now s + max (1/100) r))"

lemma br_sys_inv_step:
  assumes "br_step s t" and "br_sys_inv n r s"
  shows "br_sys_inv n r t"
  using assms(1)
proof (cases rule: br_step.cases)
  case (tick d)
  then show ?thesis using assms(2) by (force simp: br_sys_inv_def)
next
  case (enter b)
  then show ?thesis using assms(2)
    by (auto simp: br_sys_inv_def breaker_defs split: option.splits if_splits)
next
  case (reject b)
  then show ?thesis using assms(2)
    by (auto simp: br_sys_inv_def breaker_defs split: option.splits if_splits)
next
  case (raised k)
  then show ?thesis using assms(2) by (auto simp: br_sys_inv_def breaker_defs Let_def)
next
  case (returned k)
  then show ?thesis using assms(2) by (auto simp: br_sys_inv_def breaker_defs)
qed

lemma br_reachable_inv: "br_reachable n r s \<Longrightarrow> br_sys_inv n r s"
proof (induction rule: br_reachable.induct)
  case (start t)
  then show ?case by (simp add: br_sys_inv_def breaker_inv_init) (simp add: breaker_init_def)
next
  case (step s t)
  then show ?case by (blast intro: br_sys_inv_step)
qed

section \<open>Properties\<close>

lemma breaker_call_open:
  assumes "br_blocked_until b = Some u" and "t0 < u"
  shows "breaker_call t0 t1 outcome b = (CircuitOpenError, b)"
  using assms by (simp add: breaker_call_def is_blocked_locked_def)

lemma br_sys_enter_many:
  assumes "\<not> fst (is_blocked_locked (sys_now s) (sys_breaker s))"
  shows "\<exists>b. (\<forall>k. br_step\<^sup>*\<^sup>* s (s\<lparr>sys_breaker := b, sys_inflight := sys_inflight s + Suc k\<rparr>))
     \<and> br_failures b = br_failures (sys_breaker s)"
proof -
  obtain b where b: "is_blocked_locked (sys_now s) (sys_breaker s) = (False, b)"
    using assms by (cases "is_blocked_locked (sys_now s) (sys_breaker s)") auto
  have again: "is_blocked_locked now b = (False, b)" for now
    using b by (auto simp: is_blocked_locked_def split: option.splits if_splits)
  have "br_step\<^sup>*\<^sup>* s (s\<lparr>sys_breaker := b, sys_inflight := sys_inflight s + Suc k\<rparr>)" for k
  proof (induction k)
    case 0
    then show ?case using br_step.enter [OF b] by (simp add: r_into_rtranclp)
  next
    case (Suc k)
    let ?t = "s\<lparr>sys_breaker := b, sys_inflight := sys_inflight s + Suc k\<rparr>"
    have "br_step ?t (?t\<lparr>sys_breaker := b, sys_inflight := Suc (sys_inflight ?t)\<rparr>)"
      by (rule br_step.enter) (simp add: again)
    with Suc show ?case by (simp add: rtranclp.rtrancl_into_rtrancl)
  qed
  moreover have "br_failures b = br_failures (sys_breaker s)"
    using b by (auto simp: is_blocked_locked_def split: option.splits if_splits)
  ultimately show ?thesis by blast
qed

lemma br_tripped_reachable:
  "br_reachable 1 30 \<lparr>sys_now = 40, sys_breaker = breaker_on_failure 5 (breaker_init 1 30),
     sys_inflight = 0\<rparr>"
proof -
  let ?s0 = "\<lparr>sys_now = 5, sys_breaker = breaker_init 1 30, sys_inflight = 0\<rparr>"
  let ?s1 = "?s0\<lparr>sys_breaker := breaker_init 1 30, sys_inflight := Suc (sys_inflight ?s0)\<rparr>"
  let ?s2 = "?s1\<lparr>sys_breaker := breaker_on_failure (sys_now ?s1) (sys_breaker ?s1), sys_inflight := 0\<rparr>"
  have r1: "br_reachable 1 30 ?s1"
    by (rule br_reachable.step [OF br_reachable.start br_step.enter])
      (simp add: is_blocked_locked_def breaker_init_def)
  have r2: "br_reachable 1 30 ?s2" by (rule br_reachable.step [OF r1 br_step.raised]) simp
  have "br_reachable 1 30 (?s2\<lparr>sys_now := sys_now ?s2 + 35\<rparr>)"
    by (rule br_reachable.step [OF r2 br_step.tick]) simp
  then show ?thesis by simp
qed

lemma br_tripped_deadline: "br_blocked_until (breaker_on_failure 5 (breaker_init 1 30)) = Some 35"
  by (simp add: breaker_on_failure_def breaker_init_def Let_def)

text \<open>
  A fresh \<open>AsyncCircuitBreaker\<close> trips exactly at \<open>max 1 failure_threshold\<close> consecutive
  failing calls.  Every failing call up to that many runs its factory and re-raises; the
  breaker is still closed after fewer; after the last one every call before
  \<open>max 0.01 recovery_seconds\<close> have passed is refused with \<open>CircuitOpenError\<close>, whatever its
  factory would do, and leaves the breaker as it is.
\<close>

theorem breaker_trips_at_threshold:
  fixes outcome :: "'a option"
  assumes "failing_calls ts (breaker_init n r) = (rs, b)"
    and "ts \<noteq> []" and "int (length ts) \<le> max 1 n"
  shows "rs = replicate (length ts) CallRaised \<and>
    (int (length ts) < max 1 n \<longrightarrow> \<not> breaker_open now b) \<and>
    (int (length ts) = max 1 n \<and> t0 < snd (last ts) + max (1/100) r \<longrightarrow>
      breaker_call t0 t1 outcome b = (CircuitOpenError, b))"
proof -
  have "failing_calls ts (breaker_init n r) = (replicate (length ts) CallRaised,
     (breaker_init n r)\<lparr>br_failures := int (length ts),
       br_blocked_until := (if int (length ts) = max 1 n
         then Some (snd (last ts) + max (1/100) r) else None)\<rparr>)"
    using failing_calls_count [of "breaker_init n r" ts] assms(2,3)
    by (simp add: breaker_init_def)
  with assms(1) have "rs = replicate (length ts) CallRaised"
    and "br_blocked_until b = (if int (length ts) = max 1 n
      then Some (snd (last ts) + max (1/100) r) else None)" by auto
  then show ?thesis
    by (auto simp: breaker_call_open breaker_open_def is_blocked_locked_def)
qed

theorem breaker_trips_at_threshold_witness:
  "breaker_call 31 32 (Some True) (snd (failing_calls [(0, 1), (1, 2)] (breaker_init 2 30)))
     = (CircuitOpenError, snd (failing_calls [(0, 1), (1, 2)] (breaker_init 2 30)))"
proof -
  let ?ts = "[(0, 1), (1, 2)] :: (rat \<times> rat) list"
  obtain rs b where rb: "failing_calls ?ts (breaker_init 2 30) = (rs, b)" by force
  show ?thesis using breaker_trips_at_threshold [OF rb, of 0 31 32 "Some True"] rb by simp
qed

text \<open>
  C28: recovery.  In every state the interleaved breaker can reach with a blocking deadline
  \<open>u\<close>, the deadline is at most the recovery time away; a call from \<open>u\<close> on is admitted; if that
  probe fails the breaker is open again at once, until its completion time plus the recovery
  time, and if it succeeds the breaker is closed with its failure count back at zero.
\<close>

theorem breaker_recovery:
  assumes "br_reachable n r s" and "br_blocked_until (sys_breaker s) = Some u" and "u \<le> t0"
  shows "u \<le> sys_now s + max (1/100) r \<and>
    (\<exists>b. breaker_call t0 t1 (None :: 'a option) (sys_breaker s) = (CallRaised, b) \<and>
      br_blocked_until b = Some (t1 + max (1/100) r)) \<and>
    breaker_call t0 t1 (Some x) (sys_breaker s) =
      (CallReturned x, (sys_breaker s)\<lparr>br_failures := 0, br_blocked_until := None\<rparr>)"
  using br_reachable_inv [OF assms(1)] assms(2,3)
  by (auto simp: br_sys_inv_def breaker_call_def breaker_defs Let_def)

theorem breaker_recovery_witness:
  "let b = breaker_on_failure 5 (breaker_init 1 30) in
     breaker_call 40 41 (Some True) b =
       (CallReturned True, b\<lparr>br_failures := 0, br_blocked_until := None\<rparr>)"
  using breaker_recovery [OF br_tripped_reachable, where u = 35 and ?t0.0 = 40 and ?t1.0 = 41
      and x = True] br_tripped_deadline
  by (auto simp: Let_def)

text \<open>
  The breaker does not limit its half-open state to one probe.  From any state whose
  deadline has passed, any number of calls can pass the gate before the first of them finishes,
  and the failure count still stands at the tripping threshold or above while they are in
  flight.  The module's docstring promises that one probe is allowed.
\<close>

theorem breaker_half_open_admits_many:
  assumes "br_reachable n r s" and "br_blocked_until (sys_breaker s) = Some u"
    and "u \<le> sys_now s"
  shows "\<exists>t. br_step\<^sup>*\<^sup>* s t \<and> sys_inflight t = sys_inflight s + Suc k \<and> sys_now t = sys_now s \<and>
    max 1 n \<le> br_failures (sys_breaker t)"
proof -
  have "\<not> fst (is_blocked_locked (sys_now s) (sys_breaker s))"
    using assms(2,3) by (simp add: is_blocked_locked_def)
  then obtain b where
    "br_step\<^sup>*\<^sup>* s (s\<lparr>sys_breaker := b, sys_inflight := sys_inflight s + Suc k\<rparr>)"
    and "br_failures b = br_failures (sys_breaker s)"
    using br_sys_enter_many by blast
  moreover have "max 1 n \<le> br_failures (sys_breaker s)"
    using br_reachable_inv [OF assms(1)] assms(2) by (auto simp: br_sys_inv_def breaker_inv_def)
  ultimately show ?thesis
    by (intro exI [of _ "s\<lparr>sys_breaker := b, sys_inflight := sys_inflight s + Suc k\<rparr>"]) simp
qed

theorem breaker_half_open_admits_many_witness:
  "\<exists>t. br_step\<^sup>*\<^sup>* \<lparr>sys_now = 40, sys_breaker = breaker_on_failure 5 (breaker_init 1 30),
     sys_inflight = 0\<rparr> t \<and> sys_inflight t = 3 \<and> br_failures (sys_breaker t) \<ge> 1"
  using breaker_half_open_admits_many [OF br_tripped_reachable, of 35 2] br_tripped_deadline
  by (auto simp: numeral_3_eq_3)

text \<open>
  C7: the breaker of the Rust engine refines its specification.  For any history of failures,
  successes and checks whose clock readings do not go back, the circuit is open at a later time
  exactly when the failures recorded since the last success and not older than the window
  reach \<open>max 1 threshold\<close>, and \<open>failures_in_window\<close> returns their number: dropping expired
  times eagerly never loses one that counts.
\<close>

theorem ffi_circuit_refines_history:
  assumes "0 \<le> w" and "sorted (event_times es @ [now])"
  shows "fst (failures_in_window w now (ffi_run w es)) =
      length (filter (\<lambda>t. now - w \<le> t) (failures_since es)) \<and>
    (fst (circuit_is_open w n now (ffi_run w es)) \<longleftrightarrow>
      max 1 n \<le> int (length (filter (\<lambda>t. now - w \<le> t) (failures_since es))))"
  using ffi_run_refines [OF assms]
  by (simp add: circuit_is_open_def failures_in_window_def ffi_threshold_def Let_def)

theorem ffi_circuit_refines_history_witness:
  "fst (circuit_is_open 60 2 100 (ffi_run 60
     [FfiFailure 1, FfiSuccess, FfiFailure 10, FfiCheck 20, FfiFailure 50, FfiFailure 90]))"
  using ffi_circuit_refines_history [of 60
      "[FfiFailure 1, FfiSuccess, FfiFailure 10, FfiCheck 20, FfiFailure 50, FfiFailure 90]" 100 2]
  by (simp add: event_times_def map_filter_def failures_since_def)

text \<open>
  Both breakers keep the contract of \<open>failure_gate\<close>.  As many failures in one instant as
  the threshold says open the breaker whatever it went through before, and after a success
  exactly the failures since then count.
\<close>

theorem breakers_trip_on_burst:
  assumes "breaker_inv b" and "ffi_gate_inv now g"
    and "br_threshold b \<le> int m" and "ffi_thr g \<le> m"
  shows "breaker_open now ((breaker_on_failure now ^^ m) b) \<and>
    br_failures ((breaker_on_failure now ^^ k) (breaker_on_success b)) = int k \<and>
    ffi_blocked now ((ffi_fail now ^^ m) g) \<and>
    ffi_count now ((ffi_fail now ^^ k) (ffi_succeed g)) = k"
proof -
  have "nat (br_failures ((breaker_on_failure now ^^ k) (breaker_on_success b))) = k"
    using br.recovered_count [OF assms(1)] .
  moreover have "0 \<le> br_failures ((breaker_on_failure now ^^ k) (breaker_on_success b))"
    using br.burst_facts [OF breaker_inv_success [OF assms(1)]] by (simp add: breaker_inv_def)
  ultimately show ?thesis
    using br.burst_blocks [OF assms(1)] ffi.burst_blocks [OF assms(2,4)]
      ffi.recovered_count [OF assms(2)] assms(3) by auto
qed

theorem breakers_trip_on_burst_witness:
  "breaker_open 5 ((breaker_on_failure 5 ^^ 3) (breaker_init 2 30)) \<and>
   ffi_blocked 5 ((ffi_fail 5 ^^ 3) (60, 3, [1, 2]))"
proof -
  have "ffi_gate_inv 5 (60, 3, [1, 2])" by (simp add: ffi_gate_inv_def ffi_inv_def)
  moreover have "br_threshold (breaker_init 2 30) \<le> int 3" by (simp add: breaker_init_def)
  moreover have "ffi_thr (60, 3, [1, 2]) \<le> 3" by (simp add: ffi_thr_def ffi_threshold_def)
  ultimately show ?thesis using breakers_trip_on_burst [OF breaker_inv_init] by blast
qed

end
