(* ===== verification/Rate_Limiter.thy ===== *)
theory Rate_Limiter
  imports Py_Json
begin

text \<open>
  \<open>services/shared/rate_limiter.py\<close>: the in-memory token bucket, its cleanup, the decision of
  the Redis window and the middleware that puts a limiter in front of every request.

  A bucket is the pair of its token level and the time of its last use, kept per key;
  \<open>time.monotonic()\<close> is an argument.  \<open>level\<close> is the abstraction the proofs work with: the
  tokens a key would find at a given time, which is all a caller can observe of the dictionary.
\<close>

section \<open>Token bucket\<close>

type_synonym headers = "(string \<times> string) list"

record token_bucket =
  tb_rate :: rat
  tb_burst :: int
  tb_buckets :: "string \<rightharpoonup> rat \<times> rat"

definition token_bucket_init :: "rat \<Rightarrow> int \<Rightarrow> token_bucket" where
  "token_bucket_init rate burst = \<lparr>tb_rate = rate, tb_burst = burst, tb_buckets = Map.empty\<rparr>"

definition refill :: "token_bucket \<Rightarrow> string \<Rightarrow> rat \<Rightarrow> rat" where
  "refill tb key now = (case (case tb_buckets tb key of None \<Rightarrow> (of_int (tb_burst tb), now) | Some b \<Rightarrow> b) of
     (tokens, used) \<Rightarrow> min (of_int (tb_burst tb)) (tokens + (now - used) * tb_rate tb))"

definition limit_headers :: "token_bucket \<Rightarrow> rat \<Rightarrow> rat \<Rightarrow> headers" where
  "limit_headers tb tokens cost =
     [(''X-RateLimit-Limit'', int_str (tb_burst tb)),
      (''X-RateLimit-Remaining'',
        if of_int (trunc_rat tokens) - cost > 0 then float_repr (Fin (of_int (trunc_rat tokens) - cost))
        else ''0'')]"

text \<open>
  \<open>allow\<close>.  The division of the refusal branch comes before the bucket is stored, so with a rate
  of zero the exception leaves the dictionary as it was.
\<close>

definition retry_after :: "rat \<Rightarrow> rat \<Rightarrow> rat \<Rightarrow> int res" where
  "retry_after rate tokens cost =
     (if rate = 0 then Inl ZeroDivisionError else Inr (trunc_rat ((cost - tokens) / rate) + 1))"

definition allow :: "rat \<Rightarrow> string \<Rightarrow> rat \<Rightarrow> token_bucket \<Rightarrow> (bool \<times> headers) res \<times> token_bucket" where
  "allow now key cost tb = (let
     tokens = refill tb key now;
     hs = limit_headers tb tokens cost
     in if tokens \<ge> cost
        then (Inr (True, hs), tb\<lparr>tb_buckets := (tb_buckets tb)(key \<mapsto> (tokens - cost, now))\<rparr>)
        else (case retry_after (tb_rate tb) tokens cost of
            Inl e \<Rightarrow> (Inl e, tb)
          | Inr n \<Rightarrow> (Inr (False, hs @ [(''Retry-After'', int_str n)]),
              tb\<lparr>tb_buckets := (tb_buckets tb)(key \<mapsto> (tokens, now))\<rparr>)))"

definition cleanup :: "rat \<Rightarrow> rat \<Rightarrow> token_bucket \<Rightarrow> token_bucket" where
  "cleanup now max_age tb = tb\<lparr>tb_buckets := (\<lambda>k. case tb_buckets tb k of
       None \<Rightarrow> None
     | Some (tokens, t) \<Rightarrow> if now - t > max_age then None else Some (tokens, t))\<rparr>"

section \<open>Redis window and middleware\<close>

text \<open>
  \<open>RedisTokenBucket.allow\<close>, from the \<open>zcard\<close> the pipeline returned: the number of members left
  in the window before this request's own was added.
\<close>

definition redis_allow :: "int \<Rightarrow> int \<Rightarrow> bool \<times> headers" where
  "redis_allow rpm count = (let
     hs = [(''X-RateLimit-Limit'', int_str rpm),
           (''X-RateLimit-Remaining'', int_str (max 0 (rpm - count - 1)))]
     in if count \<ge> rpm then (False, hs @ [(''Retry-After'', ''1'')]) else (True, hs))"

definition skip_paths :: "string list" where
  "skip_paths = [''/v1/health'', ''/v1/health/deep'', ''/health/deep'', ''/metrics'']"

record http_request =
  rq_path :: string
  rq_api_key :: "string option"
  rq_client :: "string option"

definition client_key :: "http_request \<Rightarrow> string" where
  "client_key rq = (case rq_client rq of
       None \<Rightarrow> ''unknown''
     | Some host \<Rightarrow> (case rq_api_key rq of
           None \<Rightarrow> host
         | Some k \<Rightarrow> if k = '''' then host else k))"

datatype mw_result = Forwarded headers | TooManyRequests headers | MwError pyerr

text \<open>\<open>dispatch\<close> with the in-memory limiter: what happens to the request and the headers that
  are added to the downstream response or sent with the 429.\<close>

definition dispatch :: "rat \<Rightarrow> http_request \<Rightarrow> token_bucket \<Rightarrow> mw_result \<times> token_bucket" where
  "dispatch now rq tb = (if rq_path rq \<in> set skip_paths then (Forwarded [], tb)
     else (case allow now (client_key rq) 1 tb of
         (Inl e, tb') \<Rightarrow> (MwError e, tb')
       | (Inr (ok, hs), tb') \<Rightarrow> (if ok then Forwarded hs else TooManyRequests hs, tb')))"

datatype limiter = InMemory token_bucket | Redis int int

definition setup_rate_limiter :: "int \<Rightarrow> int \<Rightarrow> string \<Rightarrow> limiter" where
  "setup_rate_limiter rpm burst redis_url = (if redis_url \<noteq> '''' then Redis rpm burst
     else InMemory (token_bucket_init (of_int rpm / 60) burst))"

section \<open>Token levels\<close>

text \<open>Sane configuration and buckets: levels between zero and the burst, no use in the future.\<close>

definition tb_inv :: "rat \<Rightarrow> token_bucket \<Rightarrow> bool" where
  "tb_inv now tb = (0 < tb_rate tb \<and> 0 \<le> tb_burst tb \<and>
     (\<forall>k tokens t. tb_buckets tb k = Some (tokens, t) \<longrightarrow>
        0 \<le> tokens \<and> tokens \<le> of_int (tb_burst tb) \<and> t \<le> now))"

lemma tb_inv_rate [dest]: "tb_inv now tb \<Longrightarrow> 0 < tb_rate tb \<and> 0 \<le> tb_burst tb"
  by (simp add: tb_inv_def)

lemma tb_inv_bucket:
  "tb_inv now tb \<Longrightarrow> tb_buckets tb k = Some (tokens, t) \<Longrightarrow>
     0 \<le> tokens \<and> tokens \<le> of_int (tb_burst tb) \<and> t \<le> now"
  by (simp add: tb_inv_def)

lemma tb_inv_mono: "tb_inv t tb \<Longrightarrow> t \<le> now \<Longrightarrow> tb_inv now tb"
  unfolding tb_inv_def by (meson order_trans)

lemma refill_bounds:
  assumes "tb_inv t tb" and "t \<le> now"
  shows "0 \<le> refill tb key now \<and> refill tb key now \<le> of_int (tb_burst tb)"
proof (cases "tb_buckets tb key")
  case None
  then show ?thesis using assms by (simp add: refill_def tb_inv_def)
next
  case (Some b)
  obtain tokens used where b: "b = (tokens, used)" by (cases b)
  with Some assms have "0 \<le> tokens" "used \<le> now" "0 < tb_rate tb" "0 \<le> tb_burst tb"
    using tb_inv_bucket [OF tb_inv_mono [OF assms], of key tokens used] by auto
  then show ?thesis using Some b by (simp add: refill_def)
qed

definition admitted :: "(bool \<times> headers) res \<Rightarrow> bool" where
  "admitted r = (case r of Inr (True, _) \<Rightarrow> True | _ \<Rightarrow> False)"

text \<open>With a rate other than zero \<open>allow\<close> always answers, and its whole effect is on the level
  of its own key.\<close>

lemma allow_outcome:
  assumes "tb_rate tb \<noteq> 0" and "allow now key cost tb = (r, tb')"
  shows "admitted r \<longleftrightarrow> cost \<le> refill tb key now"
    and "tb' = tb\<lparr>tb_buckets := (tb_buckets tb)(key \<mapsto>
      (refill tb key now - (if admitted r then cost else 0), now))\<rparr>"
    and "\<exists>ok hs. r = Inr (ok, hs)"
  using assms by (auto simp: allow_def Let_def retry_after_def admitted_def split: if_splits)

lemma allow_inv:
  assumes "tb_inv t tb" and "t \<le> now" and "0 \<le> cost" and "allow now key cost tb = (r, tb')"
  shows "tb_inv now tb'"
proof -
  have rate: "tb_rate tb \<noteq> 0" using assms(1) by (simp add: tb_inv_def)
  note out = allow_outcome [OF rate assms(4)]
  show ?thesis
    using refill_bounds [OF assms(1,2), of key] tb_inv_mono [OF assms(1,2)] assms(3) out(1)
    by (auto simp: out(2) tb_inv_def)
qed

lemma refill_other:
  "k \<noteq> key \<Longrightarrow> refill (tb\<lparr>tb_buckets := (tb_buckets tb)(key \<mapsto> v)\<rparr>) k now = refill tb k now"
  by (simp add: refill_def split: option.splits)

lemma refill_same: "refill (tb\<lparr>tb_buckets := (tb_buckets tb)(key \<mapsto> (l, t))\<rparr>) key now =
    min (of_int (tb_burst tb)) (l + (now - t) * tb_rate tb)"
  by (simp add: refill_def)

lemma refill_grows:
  assumes "tb_inv t0 tb" and "t0 \<le> t" and "t \<le> now"
  shows "refill tb k now \<le> refill tb k t + tb_rate tb * (now - t)"
proof (cases "tb_buckets tb k")
  case None
  then show ?thesis using assms by (simp add: refill_def tb_inv_def)
next
  case (Some b)
  have "0 \<le> tb_rate tb * (now - t)" using assms by (simp add: tb_inv_def)
  moreover have "fst b + (now - snd b) * tb_rate tb =
      fst b + (t - snd b) * tb_rate tb + tb_rate tb * (now - t)" by (simp add: algebra_simps)
  ultimately show ?thesis using Some by (auto simp: refill_def split: prod.splits)
qed

lemma refill_cleanup:
  assumes "tb_inv now tb" and "of_int (tb_burst tb) \<le> tb_rate tb * max_age" and "now \<le> t"
  shows "refill (cleanup now max_age tb) k t = refill tb k t"
proof (cases "tb_buckets tb k")
  case None
  then show ?thesis by (simp add: refill_def cleanup_def)
next
  case (Some b)
  obtain tokens used where b: "b = (tokens, used)" by (cases b)
  show ?thesis
  proof (cases "now - used > max_age")
    case False
    then show ?thesis using Some b by (simp add: refill_def cleanup_def)
  next
    case True
    have "0 < tb_rate tb" "0 \<le> tokens"
      using assms(1) tb_inv_bucket [OF assms(1), of k tokens used] Some b by auto
    then have "tb_rate tb * max_age \<le> (t - used) * tb_rate tb"
      using True assms(3) by (simp add: mult.commute)
    with assms(2) \<open>0 \<le> tokens\<close> True Some b show ?thesis
      by (simp add: refill_def cleanup_def)
  qed
qed

lemma cleanup_fields [simp]:
  "tb_rate (cleanup now age tb) = tb_rate tb" "tb_burst (cleanup now age tb) = tb_burst tb"
  by (simp_all add: cleanup_def)

lemma cleanup_inv: "tb_inv now tb \<Longrightarrow> tb_inv now (cleanup now age tb)"
  by (simp add: tb_inv_def cleanup_def split: option.split)

section \<open>Runs\<close>

datatype tb_event = TbRequest rat string rat | TbCleanup rat rat

fun tb_time :: "tb_event \<Rightarrow> rat" where
  "tb_time (TbRequest t _ _) = t"
| "tb_time (TbCleanup t _) = t"

fun tb_step :: "tb_event \<Rightarrow> token_bucket \<Rightarrow> (string \<times> rat \<times> (bool \<times> headers) res) list \<times> token_bucket" where
  "tb_step (TbRequest t key cost) tb = (case allow t key cost tb of (r, tb') \<Rightarrow> ([(key, cost, r)], tb'))"
| "tb_step (TbCleanup t age) tb = ([], cleanup t age tb)"

fun tb_run :: "tb_event list \<Rightarrow> token_bucket \<Rightarrow> (string \<times> rat \<times> (bool \<times> headers) res) list \<times> token_bucket" where
  "tb_run [] tb = ([], tb)"
| "tb_run (e # es) tb = (case tb_step e tb of (o1, tb1) \<Rightarrow>
     (case tb_run es tb1 of (o2, tb2) \<Rightarrow> (o1 @ o2, tb2)))"

fun spent :: "string \<Rightarrow> (string \<times> rat \<times> (bool \<times> headers) res) list \<Rightarrow> rat" where
  "spent k [] = 0"
| "spent k ((key, cost, r) # os) = (if key = k \<and> admitted r then cost else 0) + spent k os"

text \<open>Costs are not negative, and buckets are dropped only when they must be full again.\<close>

fun tb_event_ok :: "token_bucket \<Rightarrow> tb_event \<Rightarrow> bool" where
  "tb_event_ok tb (TbRequest _ _ cost) = (0 \<le> cost)"
| "tb_event_ok tb (TbCleanup _ age) = (of_int (tb_burst tb) \<le> tb_rate tb * age)"

lemma tb_event_ok_cong:
  "tb_burst tb' = tb_burst tb \<Longrightarrow> tb_rate tb' = tb_rate tb \<Longrightarrow> tb_event_ok tb' e = tb_event_ok tb e"
  by (cases e) auto

lemma spent_append [simp]: "spent k (xs @ ys) = spent k xs + spent k ys"
  by (induction xs) auto

lemma tb_step_facts:
  assumes "tb_inv t tb" and "t \<le> tb_time e" and "tb_event_ok tb e" and "tb_step e tb = (o1, tb1)"
  shows "tb_inv (tb_time e) tb1" and "tb_rate tb1 = tb_rate tb" and "tb_burst tb1 = tb_burst tb"
    and "spent k o1 + refill tb1 k (tb_time e) = refill tb k (tb_time e)"
proof -
  have rate: "tb_rate tb \<noteq> 0" using assms(1) by (simp add: tb_inv_def)
  have "tb_inv (tb_time e) tb1 \<and> tb_rate tb1 = tb_rate tb \<and> tb_burst tb1 = tb_burst tb \<and>
    spent k o1 + refill tb1 k (tb_time e) = refill tb k (tb_time e)"
  proof (cases e)
    case (TbCleanup now age)
    then show ?thesis
      using assms(2-4) tb_inv_mono [OF assms(1), of now] refill_cleanup [of now tb age now k]
      by (auto simp: cleanup_inv)
  next
    case (TbRequest now key cost)
    then obtain r where r: "allow now key cost tb = (r, tb1)" and o1: "o1 = [(key, cost, r)]"
      using assms(4) by (cases "allow now key cost tb") auto
    note out = allow_outcome [OF rate r]
    have "tb_inv now tb1" using allow_inv [OF assms(1) _ _ r] assms(2,3) TbRequest by simp
    moreover have "spent k o1 + refill tb1 k now = refill tb k now"
      using refill_bounds [OF assms(1), of now key] assms(2,3) TbRequest
      by (cases "k = key") (auto simp: o1 out(2) refill_same refill_other)
    ultimately show ?thesis using TbRequest by (simp add: out(2))
  qed
  then show "tb_inv (tb_time e) tb1" "tb_rate tb1 = tb_rate tb" "tb_burst tb1 = tb_burst tb"
    "spent k o1 + refill tb1 k (tb_time e) = refill tb k (tb_time e)" by auto
qed

lemma tb_run_spent:
  assumes "tb_inv t tb" and "sorted (t # map tb_time es)" and "\<forall>e \<in> set es. tb_event_ok tb e"
    and "tb_run es tb = (os, tb')" and "last (t # map tb_time es) = t'"
  shows "0 \<le> refill tb' k t' \<and> spent k os + refill tb' k t' \<le> refill tb k t + tb_rate tb * (t' - t)"
  using assms
proof (induction es arbitrary: t tb os)
  case Nil
  then show ?case using refill_bounds by simp
next
  case (Cons e es)
  obtain o1 tb1 where st: "tb_step e tb = (o1, tb1)" by fastforce
  obtain o2 where run: "tb_run es tb1 = (o2, tb')" and os: "os = o1 @ o2"
    using Cons.prems(4) st by (auto split: prod.splits)
  have te: "t \<le> tb_time e" and ok: "tb_event_ok tb e" using Cons.prems(2,3) by auto
  note f = tb_step_facts [OF Cons.prems(1) te ok st]
  have "\<forall>e \<in> set es. tb_event_ok tb1 e"
    using Cons.prems(3) tb_event_ok_cong [OF f(3,2)] by simp
  moreover have "sorted (tb_time e # map tb_time es)" using Cons.prems(2) by simp
  moreover have "last (tb_time e # map tb_time es) = t'" using Cons.prems(5) by simp
  ultimately have "0 \<le> refill tb' k t' \<and>
      spent k o2 + refill tb' k t' \<le> refill tb1 k (tb_time e) + tb_rate tb1 * (t' - tb_time e)"
    using Cons.IH [OF f(1) _ _ run] by blast
  with f(2) f(4) [of k] refill_grows [OF Cons.prems(1) order_refl te, of k] show ?case
    by (simp add: os right_diff_distrib)
qed

section \<open>What one key can observe\<close>

definition agree :: "string \<Rightarrow> rat \<Rightarrow> token_bucket \<Rightarrow> token_bucket \<Rightarrow> bool" where
  "agree k now tb tb' = (tb_rate tb' = tb_rate tb \<and> tb_burst tb' = tb_burst tb \<and>
     (\<forall>t \<ge> now. refill tb' k t = refill tb k t))"

fun request_of :: "string \<Rightarrow> tb_event \<Rightarrow> bool" where
  "request_of k (TbRequest _ key _) = (key = k)"
| "request_of k (TbCleanup _ _) = False"

lemma agree_mono: "agree k t tb tb' \<Longrightarrow> t \<le> now \<Longrightarrow> agree k now tb tb'"
  by (auto simp: agree_def)

lemma agree_allow:
  assumes "agree k now tb tb'" and "tb_rate tb \<noteq> 0"
  shows "fst (allow now k cost tb') = fst (allow now k cost tb) \<and>
    agree k now (snd (allow now k cost tb)) (snd (allow now k cost tb'))"
proof -
  have "refill tb' k now = refill tb k now" "tb_rate tb' = tb_rate tb" "tb_burst tb' = tb_burst tb"
    using assms(1) by (auto simp: agree_def)
  then show ?thesis using assms(2)
    by (simp add: allow_def Let_def retry_after_def limit_headers_def agree_def refill_same)
qed

lemma agree_other:
  assumes "tb_inv t tb" and "t \<le> tb_time e" and "tb_event_ok tb e" and "\<not> request_of k e"
    and "agree k t tb tb'"
  shows "agree k (tb_time e) (snd (tb_step e tb)) tb'"
proof (cases e)
  case (TbCleanup now age)
  then have "refill (cleanup now age tb) k s = refill tb k s" if "now \<le> s" for s
    using assms(2,3) tb_inv_mono [OF assms(1)] that by (intro refill_cleanup) auto
  then show ?thesis using TbCleanup assms(2,5) by (auto simp: agree_def)
next
  case (TbRequest now key cost)
  obtain r tb1 where r: "allow now key cost tb = (r, tb1)" by fastforce
  have "tb_rate tb \<noteq> 0" using assms(1) by auto
  then show ?thesis
    using TbRequest assms(2,4,5) r allow_outcome(2) [OF _ r] by (auto simp: agree_def refill_other)
qed

lemma tb_run_agree:
  assumes "tb_inv t tb" and "sorted (t # map tb_time es)" and "\<forall>e \<in> set es. tb_event_ok tb e"
    and "agree k t tb tb'"
  shows "filter (\<lambda>x. fst x = k) (fst (tb_run es tb)) = fst (tb_run (filter (request_of k) es) tb')"
  using assms
proof (induction es arbitrary: t tb tb')
  case Nil
  then show ?case by simp
next
  case (Cons e es)
  obtain o1 tb1 where st: "tb_step e tb = (o1, tb1)" by fastforce
  have te: "t \<le> tb_time e" and ok: "tb_event_ok tb e" using Cons.prems(2,3) by auto
  note f = tb_step_facts [OF Cons.prems(1) te ok st]
  have oks: "\<forall>e \<in> set es. tb_event_ok tb1 e" using Cons.prems(3) tb_event_ok_cong [OF f(3,2)] by simp
  have sorted: "sorted (tb_time e # map tb_time es)" using Cons.prems(2) by simp
  note IH = Cons.IH [OF f(1) sorted oks]
  show ?case
  proof (cases "request_of k e")
    case False
    then have "filter (\<lambda>x. fst x = k) o1 = []" using st by (cases e) (auto split: prod.splits)
    with False st IH agree_other [OF Cons.prems(1) te ok False Cons.prems(4)] show ?thesis
      by (simp add: case_prod_beta)
  next
    case True
    then obtain cost where e: "e = TbRequest (tb_time e) k cost" by (cases e) auto
    have "tb_rate tb \<noteq> 0" using Cons.prems(1) by auto
    note a = agree_allow [OF agree_mono [OF Cons.prems(4) te] this, of cost]
    obtain r where r: "allow (tb_time e) k cost tb = (r, tb1)" and o1: "o1 = [(k, cost, r)]"
      using st by (subst (asm) e) (auto split: prod.splits)
    obtain tb1' where r': "allow (tb_time e) k cost tb' = (r, tb1')" "agree k (tb_time e) tb1 tb1'"
      using a r by (cases "allow (tb_time e) k cost tb'") auto
    have st': "tb_step e tb' = (o1, tb1')" by (subst e) (simp add: r' o1)
    with True st IH [OF r'(2)] show ?thesis by (simp add: case_prod_beta o1)
  qed
qed

section \<open>Properties\<close>



text \<open>
  Keys are isolated and \<open>cleanup\<close> cannot be observed.  What a key is answered, headers
  included, in a run shared with other keys and with cleanups is what it is answered when its
  requests run alone, provided a bucket is dropped only after the time that fills it up again
  (\<open>burst \<le> rate * max_age\<close>).
\<close>

theorem token_bucket_isolation:
  assumes "tb_inv t tb" and "sorted (t # map tb_time es)" and "\<forall>e \<in> set es. tb_event_ok tb e"
  shows "filter (\<lambda>x. fst x = k) (fst (tb_run es tb)) = fst (tb_run (filter (request_of k) es) tb)"
  using assms by (intro tb_run_agree) (auto simp: agree_def)

theorem token_bucket_isolation_witness:
  "filter (\<lambda>x. fst x = ''a'') (fst (tb_run [TbRequest 0 ''a'' 1, TbRequest 0 ''b'' 1,
       TbCleanup 9 5, TbRequest 9 ''a'' 1] (token_bucket_init 1 1))) =
   fst (tb_run [TbRequest 0 ''a'' 1, TbRequest 9 ''a'' 1] (token_bucket_init 1 1))"
proof -
  let ?tb = "token_bucket_init 1 1"
  have "tb_inv 0 ?tb" by (simp add: tb_inv_def token_bucket_init_def)
  then show ?thesis
    using token_bucket_isolation [of 0 ?tb "[TbRequest 0 ''a'' 1, TbRequest 0 ''b'' 1,
       TbCleanup 9 5, TbRequest 9 ''a'' 1]" "''a''"]
    by (simp add: token_bucket_init_def del: tb_run.simps)
qed

text \<open>
  \<open>Retry-After\<close> is honest.  A request whose cost fits in the burst and that is refused gets
  a \<open>Retry-After\<close> of a positive number \<open>n\<close> of seconds, and the same request \<open>n\<close> or more seconds
  later is admitted if the key made no other in between.
\<close>

theorem retry_after_sufficient:
  assumes "tb_inv t tb" and "t \<le> now" and "cost \<le> of_int (tb_burst tb)"
    and "allow now key cost tb = (r, tb')" and "\<not> admitted r"
  shows "\<exists>n hs. r = Inr (False, hs @ [(''Retry-After'', int_str n)]) \<and> 1 \<le> n \<and>
    (\<forall>later. now + of_int n \<le> later \<longrightarrow> admitted (fst (allow later key cost tb')))"
proof -
  let ?l = "refill tb key now" and ?n = "trunc_rat ((cost - refill tb key now) / tb_rate tb) + 1"
  have rate: "0 < tb_rate tb" using assms(1) by auto
  then have out: "?l < cost" "tb' = tb\<lparr>tb_buckets := (tb_buckets tb)(key \<mapsto> (?l, now))\<rparr>"
    using allow_outcome [OF _ assms(4)] assms(5) by auto
  have q: "0 < (cost - ?l) / tb_rate tb" using out(1) rate by simp
  then have n: "1 \<le> ?n" "(cost - ?l) / tb_rate tb \<le> of_int ?n"
    by (simp_all add: trunc_rat_def) (linarith | simp)+
  have "admitted (fst (allow later key cost tb'))" if "now + of_int ?n \<le> later" for later
  proof -
    have "(cost - ?l) / tb_rate tb \<le> later - now" using n(2) that by linarith
    then have "cost \<le> ?l + (later - now) * tb_rate tb" using rate by (simp add: field_simps)
    then have "cost \<le> refill tb' key later" using assms(3) by (simp add: out(2) refill_same)
    moreover obtain r2 tb2 where "allow later key cost tb' = (r2, tb2)" by fastforce
    ultimately show ?thesis using allow_outcome(1) [of tb' later key cost] rate by (simp add: out(2))
  qed
  moreover have "r = Inr (False, limit_headers tb ?l cost @ [(''Retry-After'', int_str ?n)])"
    using assms(4) out(1) rate by (simp add: allow_def Let_def retry_after_def)
  ultimately show ?thesis using n(1) by blast
qed

theorem retry_after_sufficient_witness:
  "let tb = snd (allow 0 ''a'' 1 (token_bucket_init (1/3) 1)) in
     \<not> admitted (fst (allow 1 ''a'' 1 tb)) \<and>
     (\<exists>n hs. fst (allow 1 ''a'' 1 tb) = Inr (False, hs @ [(''Retry-After'', int_str n)]) \<and> 1 \<le> n)"
proof -
  define tb where "tb = snd (allow 0 ''a'' 1 (token_bucket_init (1/3) 1))"
  have tb: "tb = \<lparr>tb_rate = 1/3, tb_burst = 1, tb_buckets = [''a'' \<mapsto> (0, 0)]\<rparr>"
    by (simp add: tb_def allow_def refill_def token_bucket_init_def Let_def)
  have "tb_inv 0 tb" by (simp add: tb tb_inv_def)
  moreover obtain r tb' where r: "allow 1 ''a'' 1 tb = (r, tb')" by fastforce
  moreover have "\<not> admitted r"
    using r allow_outcome(1) [OF _ r] by (simp add: tb refill_def)
  ultimately show ?thesis
    unfolding tb_def [symmetric] using retry_after_sufficient [of 0 tb 1 1 "''a''" r tb']
    by (auto simp: tb)
qed

text \<open>
  A limiter set up with \<open>rpm = 0\<close> does not answer 429.  A client that has used up its burst
  gets an unhandled \<open>ZeroDivisionError\<close>, at every later request, and the buckets stay as they
  are.
\<close>

theorem zero_rate_limiter_raises:
  assumes "setup_rate_limiter 0 burst '''' = InMemory tb0" and "tb_rate tb = tb_rate tb0"
    and "tb_buckets tb (client_key rq) = Some (tokens, used)" and "tokens < 1" and "1 \<le> tb_burst tb"
    and "rq_path rq \<notin> set skip_paths"
  shows "dispatch now rq tb = (MwError ZeroDivisionError, tb)"
  using assms by (auto simp: setup_rate_limiter_def token_bucket_init_def dispatch_def allow_def
      refill_def retry_after_def Let_def)

theorem zero_rate_limiter_raises_witness:
  "dispatch 7 \<lparr>rq_path = ''/v1/decisions'', rq_api_key = Some ''k'', rq_client = Some ''h''\<rparr>
     (snd (allow 5 ''k'' 1 (token_bucket_init 0 1))) =
   (MwError ZeroDivisionError, snd (allow 5 ''k'' 1 (token_bucket_init 0 1)))"
  by (rule zero_rate_limiter_raises [where burst = 1 and ?tb0.0 = "token_bucket_init 0 1" and tokens = 0
        and used = 5])
    (simp_all add: setup_rate_limiter_def token_bucket_init_def allow_def refill_def Let_def
      client_key_def skip_paths_def)

end
