(* ===== verification/Eval_Runtime.thy ===== *)
theory Eval_Runtime
  imports Py_Json
begin

text \<open>
  What an evaluation runs inside (package \<open>decision_api\<close>):

  \<^item> \<open>eval_load_guard.py\<close>: the cap on concurrent evaluations and the context manager that
    takes and gives back a slot, as a step relation over the requests in flight;
  \<^item> \<open>eval_steps.py\<close>: \<open>run_evaluation_step\<close>, bounded attempts with a fallback or a rejection;
  \<^item> \<open>eval_dag.py\<close>: the topological sort that validates the step graph at import, with the
    runtime gates of the heavy steps.
\<close>

section \<open>Load guard\<close>

record guard =
  g_max :: int
  g_active :: int

definition guard_init :: "int \<Rightarrow> guard" where
  "guard_init max_concurrent = \<lparr>g_max = max 1 max_concurrent, g_active = 0\<rparr>"

text \<open>The first component is \<open>load_shed\<close>, the second \<open>acquired_slot\<close>.\<close>

definition try_enter :: "guard \<Rightarrow> (bool \<times> bool) \<times> guard" where
  "try_enter g = (if g_active g \<ge> g_max g then ((True, False), g)
     else ((False, True), g\<lparr>g_active := g_active g + 1\<rparr>))"

definition leave :: "guard \<Rightarrow> guard" where
  "leave g = g\<lparr>g_active := max 0 (g_active g - 1)\<rparr>"

text \<open>
  \<open>acquire_eval_capacity\<close>: entering the context gives the request its \<open>load_shed\<close> flag and
  remembers whether a slot was taken; leaving it runs the \<open>finally\<close> block, whatever the body
  did.  A request in flight is the pair \<open>(load_shed, acquired)\<close>; an application without a guard
  has \<open>None\<close>.
\<close>

definition acquire_enter :: "guard option \<Rightarrow> (bool \<times> bool) \<times> guard option" where
  "acquire_enter app = (case app of None \<Rightarrow> ((False, False), None)
     | Some g \<Rightarrow> (case try_enter g of (r, g') \<Rightarrow> (r, Some g')))"

definition acquire_exit :: "bool \<times> bool \<Rightarrow> guard option \<Rightarrow> guard option" where
  "acquire_exit ctx app = (case app of None \<Rightarrow> None
     | Some g \<Rightarrow> Some (if snd ctx then leave g else g))"

inductive guard_step :: "guard option \<times> (bool \<times> bool) list \<Rightarrow> guard option \<times> (bool \<times> bool) list \<Rightarrow> bool" where
  enter: "acquire_enter app = (ctx, app') \<Longrightarrow> guard_step (app, cs) (app', ctx # cs)"
| exit: "guard_step (app, xs @ ctx # ys) (acquire_exit ctx app, xs @ ys)"

inductive_cases guard_stepE: "guard_step s t"

text \<open>The requests that hold a slot, and the invariant of the guarded application.\<close>

definition holders :: "(bool \<times> bool) list \<Rightarrow> int" where
  "holders cs = int (length (filter snd cs))"

definition guard_inv :: "int \<Rightarrow> guard option \<times> (bool \<times> bool) list \<Rightarrow> bool" where
  "guard_inv n s = (case s of (app, cs) \<Rightarrow>
     (\<forall>ctx \<in> set cs. fst ctx \<longleftrightarrow> \<not> snd ctx) \<and>
     (\<exists>g. app = Some g \<and> g_max g = max 1 n \<and> g_active g = holders cs \<and> holders cs \<le> max 1 n))"

lemma holders_simps [simp]:
  "holders [] = 0" "holders (c # cs) = (if snd c then 1 else 0) + holders cs"
  "holders (xs @ ys) = holders xs + holders ys" "0 \<le> holders cs"
  by (simp_all add: holders_def)

lemma guard_inv_step: "guard_step s t \<Longrightarrow> guard_inv n s \<Longrightarrow> guard_inv n t"
proof (induction rule: guard_step.induct)
  case (enter app ctx app' cs)
  then show ?case
    by (auto simp: guard_inv_def acquire_enter_def try_enter_def split: if_splits)
next
  case (exit app xs ctx ys)
  then have "0 \<le> holders xs" "0 \<le> holders ys" by simp_all
  with exit show ?case by (auto simp: guard_inv_def acquire_exit_def leave_def)
qed

lemma guard_inv_steps:
  assumes "guard_step\<^sup>*\<^sup>* (Some (guard_init n), []) s"
  shows "guard_inv n s"
  using assms
proof (induction rule: rtranclp_induct)
  case base
  show ?case by (simp add: guard_inv_def guard_init_def)
next
  case (step s t)
  then show ?case by (blast intro: guard_inv_step)
qed

section \<open>Bounded evaluation steps\<close>

text \<open>
  How one awaited attempt ends.  \<open>Aborted\<close> is an exception that is no \<open>Exception\<close>
  (cancellation, interpreter exit): no handler of the loop catches it.  The strings are the
  names of the exception types.
\<close>

datatype 'a attempt = Returned 'a | TimedOut | HttpFailed string | Failed string | Aborted

datatype 'a step_result = StepValue 'a dict | StepRuntimeError string | StepAborted

datatype on_failure = SKIP | REJECT

definition metric_safe :: "char \<Rightarrow> bool" where
  "metric_safe c = (let n = (of_char c :: nat) in
     (48 \<le> n \<and> n \<le> 57) \<or> (65 \<le> n \<and> n \<le> 90) \<or> (97 \<le> n \<and> n \<le> 122) \<or> n = 95)"

text \<open>\<open>re.sub\<close> of each maximal run of other characters by one underscore.\<close>

fun collapse_unsafe :: "string \<Rightarrow> string" where
  "collapse_unsafe [] = []"
| "collapse_unsafe [c] = (if metric_safe c then [c] else ''_'')"
| "collapse_unsafe (c # d # s) = (if metric_safe c then c # collapse_unsafe (d # s)
     else if metric_safe d then CHR ''_'' # collapse_unsafe (d # s)
     else collapse_unsafe (d # s))"

definition strip_underscores :: "string \<Rightarrow> string" where
  "strip_underscores s = rev (dropWhile ((=) CHR ''_'') (rev (dropWhile ((=) CHR ''_'') s)))"

definition step_metric_suffix :: "string \<Rightarrow> string" where
  "step_metric_suffix step_id = (let safe = lower (strip_underscores (collapse_unsafe (strip step_id)))
     in if safe = [] then ''unknown'' else safe)"

definition step_metrics :: "string \<Rightarrow> string \<Rightarrow> string list" where
  "step_metrics name step_id = [name, name @ ''_step_'' @ step_metric_suffix step_id]"

definition attempt_error :: "'a attempt \<Rightarrow> (string \<times> string) option" where
  "attempt_error a = (case a of
       TimedOut \<Rightarrow> Some (''timeout'', ''tarka_eval_step_timeout_total'')
     | HttpFailed e \<Rightarrow> Some (''http_error:'' @ e, ''tarka_eval_step_http_error_total'')
     | Failed e \<Rightarrow> Some (''error:'' @ e, ''tarka_eval_step_error_total'')
     | _ \<Rightarrow> None)"

definition attempts_allowed :: "int \<Rightarrow> nat" where
  "attempts_allowed max_attempts = nat (max 1 (min max_attempts 5))"

text \<open>
  The loop from attempt number \<open>i\<close> on, \<open>left\<close> attempts remaining.  \<open>run i\<close> is how the
  \<open>i\<close>-th attempt ends and \<open>dur i\<close> the rounded duration when it has ended.  The result comes
  with the metrics that were incremented, in order.
\<close>

fun step_loop :: "string \<Rightarrow> (nat \<Rightarrow> 'a attempt) \<Rightarrow> (nat \<Rightarrow> rat) \<Rightarrow> on_failure \<Rightarrow> 'a \<Rightarrow> nat \<Rightarrow> nat \<Rightarrow>
    string option \<Rightarrow> 'a step_result \<times> string list" where
  "step_loop step_id run dur onf fallback i 0 last_err =
     (let reason = (case last_err of None \<Rightarrow> ''unknown'' | Some e \<Rightarrow> e);
          ms = step_metrics ''tarka_eval_step_skipped_total'' step_id
      in case onf of
        REJECT \<Rightarrow> (StepRuntimeError (''evaluation step '' @ step_id @ '' failed: '' @
           (case last_err of None \<Rightarrow> ''None'' | Some e \<Rightarrow> e)), ms)
      | SKIP \<Rightarrow> (StepValue fallback [(''step'', PStr step_id), (''attempts'', PInt (int i)),
           (''status'', PStr ''skipped''), (''reason'', PStr reason),
           (''duration_ms'', PFloat (Fin (dur i)))], ms))"
| "step_loop step_id run dur onf fallback i (Suc left) last_err = (case run i of
       Returned v \<Rightarrow> (StepValue v [(''step'', PStr step_id), (''attempts'', PInt (int i + 1)),
           (''status'', PStr ''ok''), (''duration_ms'', PFloat (Fin (dur (Suc i))))],
         step_metrics ''tarka_eval_step_ok_total'' step_id)
     | Aborted \<Rightarrow> (StepAborted, [])
     | a \<Rightarrow> (case attempt_error a of
           None \<Rightarrow> (StepAborted, [])
         | Some (err, metric) \<Rightarrow>
             (case step_loop step_id run dur onf fallback (Suc i) left (Some err) of
               (r, ms) \<Rightarrow> (r, step_metrics metric step_id @ ms))))"

definition run_evaluation_step :: "string \<Rightarrow> (nat \<Rightarrow> 'a attempt) \<Rightarrow> (nat \<Rightarrow> rat) \<Rightarrow> int \<Rightarrow> on_failure \<Rightarrow>
    'a \<Rightarrow> 'a step_result \<times> string list" where
  "run_evaluation_step step_id run dur max_attempts onf fallback =
     step_loop step_id run dur onf fallback 0 (attempts_allowed max_attempts) None"

text \<open>The specification: the outcome of the first attempt that is not a caught failure decides.\<close>

definition caught :: "'a attempt \<Rightarrow> bool" where
  "caught a = (attempt_error a \<noteq> None)"

lemma caught_simps [simp]: "caught TimedOut" "caught (HttpFailed e)" "caught (Failed e)"
  "\<not> caught (Returned v)" "\<not> caught Aborted"
  by (simp_all add: caught_def attempt_error_def)

definition step_spec :: "string \<Rightarrow> (nat \<Rightarrow> 'a attempt) \<Rightarrow> (nat \<Rightarrow> rat) \<Rightarrow> on_failure \<Rightarrow> 'a \<Rightarrow> nat \<Rightarrow> nat \<Rightarrow>
    string \<Rightarrow> 'a step_result" where
  "step_spec step_id run dur onf fallback i n err = (case List.find (\<lambda>j. \<not> caught (run j)) [i..<n] of
       Some j \<Rightarrow> (case run j of
           Returned v \<Rightarrow> StepValue v [(''step'', PStr step_id), (''attempts'', PInt (int j + 1)),
             (''status'', PStr ''ok''), (''duration_ms'', PFloat (Fin (dur (Suc j))))]
         | _ \<Rightarrow> StepAborted)
     | None \<Rightarrow> (case onf of
           SKIP \<Rightarrow> StepValue fallback [(''step'', PStr step_id), (''attempts'', PInt (int n)),
             (''status'', PStr ''skipped''), (''reason'', PStr err),
             (''duration_ms'', PFloat (Fin (dur n)))]
         | REJECT \<Rightarrow> StepRuntimeError (''evaluation step '' @ step_id @ '' failed: '' @ err)))"

definition last_error :: "(nat \<Rightarrow> 'a attempt) \<Rightarrow> nat \<Rightarrow> string" where
  "last_error run n = (case attempt_error (run (n - 1)) of Some (e, _) \<Rightarrow> e | None \<Rightarrow> [])"

lemma step_loop_spec:
  assumes "i + left = n" and "0 < n"
    and "i > 0 \<Longrightarrow> last_err = Some (last_error run i)" and "i = 0 \<Longrightarrow> 0 < left"
  shows "fst (step_loop step_id run dur onf fallback i left last_err) =
    step_spec step_id run dur onf fallback i n (last_error run n)"
  using assms
proof (induction left arbitrary: i last_err)
  case 0
  then show ?case by (cases onf) (auto simp: step_spec_def Let_def)
next
  case (Suc left)
  have range: "[i..<n] = i # [Suc i..<n]" using Suc.prems by (simp add: upt_conv_Cons)
  show ?case
  proof (cases "caught (run i)")
    case False
    then show ?thesis by (cases "run i") (auto simp: step_spec_def range)
  next
    case True
    then obtain err metric where err: "attempt_error (run i) = Some (err, metric)"
      by (auto simp: caught_def)
    then have "fst (step_loop step_id run dur onf fallback (Suc i) left (Some err)) =
        step_spec step_id run dur onf fallback (Suc i) n (last_error run n)"
      using Suc.prems by (intro Suc.IH) (auto simp: last_error_def)
    moreover have "step_spec step_id run dur onf fallback i n e =
        step_spec step_id run dur onf fallback (Suc i) n e" for e
      using True by (simp add: step_spec_def range)
    ultimately show ?thesis using True err
      by (cases "run i") (auto split: prod.splits)
  qed
qed

section \<open>The step graph\<close>

type_synonym step_graph = "(string \<times> string list) list"

definition step_dependencies :: step_graph where
  "step_dependencies =
     [(''counter_snapshot'', [''feature_snapshot'']),
      (''location_eval'', [''feature_snapshot'']),
      (''opa'', [''feature_snapshot'']),
      (''ml_score'', [''feature_snapshot'']),
      (''calibration_adjustment'', [''opa'', ''ml_score''])]"

definition all_step_ids :: "step_graph \<Rightarrow> string list" where
  "all_step_ids g = remdups (concat (map (\<lambda>(child, deps). child # deps) g))"

definition deps_of :: "step_graph \<Rightarrow> string \<Rightarrow> string list" where
  "deps_of g v = (case map_of g v of None \<Rightarrow> [] | Some ds \<Rightarrow> ds)"

definition in_degree_init :: "step_graph \<Rightarrow> string \<Rightarrow> int" where
  "in_degree_init g v = int (length (deps_of g v))"

text \<open>\<open>adj[u]\<close>: one entry per occurrence of \<open>u\<close> among the dependencies of a child.\<close>

definition adj :: "step_graph \<Rightarrow> string \<Rightarrow> string list" where
  "adj g u = concat (map (\<lambda>(child, deps). map (\<lambda>_. child) (filter ((=) u) deps)) g)"

text \<open>The body of the \<open>for v in sorted(adj[u])\<close> loop, and the \<open>while q\<close> loop.\<close>

fun relax :: "string list \<Rightarrow> (string \<Rightarrow> int) \<Rightarrow> string list \<Rightarrow> (string \<Rightarrow> int) \<times> string list" where
  "relax [] deg q = (deg, q)"
| "relax (v # vs) deg q = (let deg' = deg(v := deg v - 1)
     in relax vs deg' (if deg' v = 0 then q @ [v] else q))"

fun kahn :: "nat \<Rightarrow> step_graph \<Rightarrow> (string \<Rightarrow> int) \<Rightarrow> string list \<Rightarrow> string list \<Rightarrow> string list option" where
  "kahn fuel g deg [] order = Some order"
| "kahn 0 g deg (u # q) order = None"
| "kahn (Suc fuel) g deg (u # q) order =
     (case relax (sort (adj g u)) deg q of (deg', q') \<Rightarrow> kahn fuel g deg' q' (order @ [u]))"

text \<open>\<open>validate_evaluation_dag\<close>: \<open>None\<close> would be a loop that does not end within one round per
  node; \<open>Inl\<close> is the \<open>ValueError\<close> for a cycle.\<close>

definition validate_evaluation_dag :: "step_graph \<Rightarrow> string list res option" where
  "validate_evaluation_dag g = (let nodes = all_step_ids g in
     case kahn (length nodes) g (in_degree_init g)
         (sort (filter (\<lambda>n. in_degree_init g n = 0) nodes)) [] of
       None \<Rightarrow> None
     | Some order \<Rightarrow> Some (if length order \<noteq> length nodes then Inl ValueError else Inr order))"

section \<open>Runtime gates\<close>

definition trace_ok :: "dict \<Rightarrow> bool" where
  "trace_ok trace = py_eq (dget trace ''status'') (PStr ''ok'')"

definition include_graph :: "bool \<Rightarrow> bool" where
  "include_graph load_shed = (\<not> load_shed)"

definition include_ml :: "bool \<Rightarrow> dict \<Rightarrow> bool" where
  "include_ml load_shed feature_snapshot_trace =
     (if load_shed then False else trace_ok feature_snapshot_trace)"

definition include_calibration :: "bool \<Rightarrow> dict \<Rightarrow> dict \<Rightarrow> bool" where
  "include_calibration load_shed opa_trace ml_trace =
     (if load_shed then False else trace_ok opa_trace \<and> trace_ok ml_trace)"

definition ml_skip_reason :: "bool \<Rightarrow> dict \<Rightarrow> string" where
  "ml_skip_reason load_shed feature_snapshot_trace =
     (if load_shed then ''load_shedding''
      else if \<not> trace_ok feature_snapshot_trace then ''skipped_due_to_dependency_failure''
      else ''unknown'')"

section \<open>The topological sort is correct\<close>

text \<open>\<open>u\<close> must come before \<open>v\<close>.\<close>

definition before :: "step_graph \<Rightarrow> (string \<times> string) set" where
  "before g = {(u, v). u \<in> set (deps_of g v)}"

definition topological :: "step_graph \<Rightarrow> string list \<Rightarrow> bool" where
  "topological g order = (distinct order \<and>
     (\<forall>i < length order. set (deps_of g (order ! i)) \<subseteq> set (take i order)))"

lemma set_all_step_ids:
  "set (all_step_ids g) = fst ` set g \<union> (\<Union>(c, ds) \<in> set g. set ds)"
  by (force simp: all_step_ids_def)

lemma distinct_all_step_ids [simp]: "distinct (all_step_ids g)"
  by (simp add: all_step_ids_def)

lemma deps_of_nodes:
  assumes "u \<in> set (deps_of g v)"
  shows "u \<in> set (all_step_ids g)"
proof -
  obtain ds where "map_of g v = Some ds" "u \<in> set ds"
    using assms by (cases "map_of g v") (auto simp: deps_of_def)
  then have "(v, ds) \<in> set g" "u \<in> set ds" by (auto dest: map_of_SomeD)
  then show ?thesis unfolding set_all_step_ids by blast
qed

lemma deps_of_node: "deps_of g v \<noteq> [] \<Longrightarrow> v \<in> set (all_step_ids g)"
  by (force simp: deps_of_def set_all_step_ids split: option.splits dest: map_of_SomeD)

lemma count_adj:
  assumes "distinct (map fst g)"
  shows "count_list (adj g u) v = length (filter ((=) u) (deps_of g v))"
  using assms
proof (induction g)
  case Nil
  then show ?case by (simp add: adj_def deps_of_def)
next
  case (Cons p g)
  obtain c ds where p: "p = (c, ds)" by (cases p)
  have adj: "adj ((c, ds) # g) u = map (\<lambda>_. c) (filter ((=) u) ds) @ adj g u" by (simp add: adj_def)
  have const: "count_list (map (\<lambda>_. c) xs) w = (if w = c then length xs else 0)"
    for xs :: "string list" and w
    by (induction xs) auto
  show ?case
  proof (cases "v = c")
    case True
    then have "map_of g v = None" using Cons.prems p by (auto simp: map_of_eq_None_iff)
    then show ?thesis using True Cons p by (simp add: adj const deps_of_def)
  next
    case False
    then show ?thesis using Cons p by (simp add: adj const deps_of_def)
  qed
qed

lemma relax_result:
  assumes "\<forall>v \<in> set vs. int (count_list vs v) \<le> deg v" and "relax vs deg q = (deg', q')"
  shows "deg' = (\<lambda>v. deg v - int (count_list vs v)) \<and>
    (\<exists>new. q' = q @ new \<and> distinct new \<and>
      set new = {v \<in> set vs. deg v = int (count_list vs v)})"
  using assms
proof (induction vs arbitrary: deg q)
  case Nil
  then show ?case by auto
next
  case (Cons v vs)
  let ?deg = "deg(v := deg v - 1)"
  let ?q = "if ?deg v = 0 then q @ [v] else q"
  have run: "relax vs ?deg ?q = (deg', q')" using Cons.prems(2) by (simp add: Let_def)
  have le: "int (count_list vs x) \<le> ?deg x" if "x \<in> set vs" for x
    using Cons.prems(1) that by (cases "x = v") fastforce+
  from Cons.IH [OF _ run] le obtain new where
    deg': "deg' = (\<lambda>x. ?deg x - int (count_list vs x))" and
    new: "q' = ?q @ new" "distinct new" "set new = {x \<in> set vs. ?deg x = int (count_list vs x)}"
    by auto
  have v: "v \<notin> set new" if "deg v = 1"
  proof -
    have "v \<notin> set vs" using Cons.prems(1) that by (auto simp: count_list_0_iff)
    then show ?thesis using new(3) by simp
  qed
  have notin: "count_list vs x = 0 \<longleftrightarrow> x \<notin> set vs" for x by (simp add: count_list_0_iff)
  show ?case
  proof (cases "deg v = 1")
    case True
    then have "v \<notin> set vs" using Cons.prems(1) by (auto simp: count_list_0_iff)
    then show ?thesis using True deg' new v notin
      by (intro conjI exI [of _ "v # new"]) (auto simp: fun_eq_iff)
  next
    case False
    then show ?thesis using deg' new notin
      by (intro conjI exI [of _ new]) (auto simp: fun_eq_iff)
  qed
qed

text \<open>The invariant of the \<open>while\<close> loop.\<close>

definition kahn_inv :: "step_graph \<Rightarrow> (string \<Rightarrow> int) \<Rightarrow> string list \<Rightarrow> string list \<Rightarrow> bool" where
  "kahn_inv g deg q order = (distinct (order @ q) \<and> set (order @ q) \<subseteq> set (all_step_ids g) \<and>
     (\<forall>v. deg v = int (length (filter (\<lambda>d. d \<notin> set order) (deps_of g v)))) \<and>
     (\<forall>v \<in> set (all_step_ids g). v \<in> set (order @ q) \<longleftrightarrow> deg v = 0) \<and>
     topological g order)"

lemma length_filter_split:
  "P u \<Longrightarrow> length (filter P xs) = length (filter ((=) u) xs) + length (filter (\<lambda>x. P x \<and> x \<noteq> u) xs)"
  by (induction xs) auto

lemma count_list_sort: "count_list (sort xs) v = count_list xs v"
proof -
  have "count_list ys v = length (filter ((=) v) ys)" for ys
    by (induction ys) auto
  then show ?thesis by (simp add: filter_sort)
qed

lemma topological_snoc:
  assumes "topological g order" and "u \<notin> set order" and "set (deps_of g u) \<subseteq> set order"
  shows "topological g (order @ [u])"
  using assms by (auto simp: topological_def nth_append less_Suc_eq)

lemma kahn_inv_step:
  assumes inv: "kahn_inv g deg (u # q) order" and g: "distinct (map fst g)"
    and relax: "relax (sort (adj g u)) deg q = (deg', q')"
  shows "kahn_inv g deg' q' (order @ [u])"
proof -
  let ?c = "\<lambda>v. length (filter ((=) u) (deps_of g v))"
  let ?rest = "\<lambda>v. length (filter (\<lambda>d. d \<notin> set (order @ [u])) (deps_of g v))"
  have u: "u \<notin> set order" "u \<in> set (all_step_ids g)" "deg u = 0"
    using inv by (auto simp: kahn_inv_def)
  have cnt: "count_list (sort (adj g u)) v = ?c v" for v
    using count_adj [OF g, of u v] by (simp add: count_list_sort)
  have deg: "deg v = int (?c v) + int (?rest v)" for v
    using inv length_filter_split [of "\<lambda>d. d \<notin> set order" u "deps_of g v"] u(1)
    by (simp add: kahn_inv_def conj_commute)
  obtain new where deg': "deg' = (\<lambda>v. deg v - int (?c v))" and q': "q' = q @ new"
    and new: "distinct new" "set new = {v \<in> set (adj g u). deg v = int (?c v)}"
    using relax_result [OF _ relax] deg cnt by auto
  have mem: "v \<in> set (adj g u) \<longleftrightarrow> 0 < ?c v" for v
    using count_adj [OF g, of u v] by (metis count_list_0_iff neq0_conv)
  have fresh: "v \<notin> set (order @ u # q)" "v \<in> set (all_step_ids g)" if "v \<in> set new" for v
  proof -
    have "0 < ?c v" using that new(2) mem by simp
    then have "deps_of g v \<noteq> []" and "deg v \<noteq> 0" using deg [of v] by (fastforce, linarith)
    then show "v \<in> set (all_step_ids g)" using deps_of_node by blast
    then show "v \<notin> set (order @ u # q)" using inv \<open>deg v \<noteq> 0\<close> by (auto simp: kahn_inv_def)
  qed
  have "v \<in> set (order @ [u] @ q') \<longleftrightarrow> deg' v = 0" if "v \<in> set (all_step_ids g)" for v
  proof (cases "0 < ?c v")
    case True
    then have "deg v \<noteq> 0" using deg [of v] by linarith
    then have "v \<notin> set (order @ u # q)" using inv that by (auto simp: kahn_inv_def)
    then show ?thesis using True mem [of v] by (auto simp: q' deg' new(2))
  next
    case False
    then have "v \<in> set (order @ u # q) \<longleftrightarrow> deg' v = 0" using inv that by (auto simp: kahn_inv_def deg')
    then show ?thesis using False mem [of v] by (auto simp: q' new(2))
  qed
  moreover have "set (deps_of g u) \<subseteq> set order"
    using inv u(3) by (auto simp: kahn_inv_def filter_empty_conv)
  then have "topological g (order @ [u])"
    using inv u(1) topological_snoc by (simp add: kahn_inv_def)
  moreover have "distinct (order @ u # q)" "set (order @ u # q) \<subseteq> set (all_step_ids g)"
    using inv by (simp_all add: kahn_inv_def)
  then have "distinct ((order @ [u]) @ q')" "set ((order @ [u]) @ q') \<subseteq> set (all_step_ids g)"
    using new(1) fresh by (auto simp: q')
  moreover have "deg' v = int (?rest v)" for v using deg [of v] by (simp add: deg')
  ultimately show ?thesis unfolding kahn_inv_def by simp
qed

lemma kahn_correct:
  assumes "kahn_inv g deg q order" and "distinct (map fst g)"
    and "length (all_step_ids g) \<le> fuel + length order"
  shows "\<exists>order' deg'. kahn fuel g deg q order = Some order' \<and> kahn_inv g deg' [] order'"
  using assms
proof (induction fuel g deg q order rule: kahn.induct)
  case (1 fuel g deg order)
  then show ?case by auto
next
  case (2 g deg u q order)
  then have "card (set (order @ u # q)) \<le> card (set (all_step_ids g))"
    by (intro card_mono) (auto simp: kahn_inv_def)
  moreover have "card (set (order @ u # q)) = length (order @ u # q)"
    using 2 by (intro distinct_card) (simp add: kahn_inv_def)
  ultimately show ?case using 2 by (simp add: distinct_card)
next
  case (3 fuel g deg u q order)
  obtain deg' q' where r: "relax (sort (adj g u)) deg q = (deg', q')" by fastforce
  show ?case using 3 r kahn_inv_step [OF 3(2,3) r] by simp
qed

lemma kahn_inv_init:
  "kahn_inv g (in_degree_init g) (sort (filter (\<lambda>n. in_degree_init g n = 0) (all_step_ids g))) []"
  by (auto simp: kahn_inv_def in_degree_init_def topological_def)

text \<open>A topological order of all nodes is what a graph without cycles has.\<close>

lemma topological_acyclic:
  assumes "topological g order" and "set order = set (all_step_ids g)"
  shows "acyclic (before g)"
proof -
  define pos where "pos v = (LEAST i. i < length order \<and> order ! i = v)" for v
  have "pos u < pos v" if "(u, v) \<in> before g" for u v
  proof -
    have uv: "u \<in> set (deps_of g v)" using that by (simp add: before_def)
    then have "deps_of g v \<noteq> []" by auto
    then have "v \<in> set order" using assms(2) deps_of_node by simp
    then have v: "pos v < length order \<and> order ! pos v = v"
      unfolding pos_def in_set_conv_nth by (rule LeastI_ex)
    then have "set (deps_of g v) \<subseteq> set (take (pos v) order)"
      using assms(1) unfolding topological_def by metis
    then have "u \<in> set (take (pos v) order)" using uv by auto
    then obtain i where "i < pos v" "i < length order" "order ! i = u" by (auto simp: in_set_conv_nth)
    moreover have "pos u \<le> i" unfolding pos_def by (rule Least_le) (use calculation in simp)
    ultimately show ?thesis by simp
  qed
  then have "before g \<subseteq> measure pos" by auto
  then show ?thesis by (meson acyclic_subset wf_acyclic wf_measure)
qed

lemma before_finite: "finite (before g)"
proof -
  have "before g \<subseteq> set (all_step_ids g) \<times> set (all_step_ids g)"
    by (auto simp: before_def intro: deps_of_nodes deps_of_node)
  then show ?thesis using finite_subset by blast
qed

lemma kahn_inv_complete:
  assumes "kahn_inv g deg [] order" and "acyclic (before g)"
  shows "set order = set (all_step_ids g)"
proof (rule ccontr)
  let ?R = "set (all_step_ids g) - set order"
  assume "set order \<noteq> set (all_step_ids g)"
  then obtain x where x: "x \<in> ?R" using assms(1) by (auto simp: kahn_inv_def)
  have "wf (before g)" using before_finite assms(2) by (rule finite_acyclic_wf)
  then have "\<exists>v \<in> ?R. \<forall>u. (u, v) \<in> before g \<longrightarrow> u \<notin> ?R"
    using x unfolding wf_eq_minimal by (elim allE [where x = ?R] allE [where x = x] impE)
  then obtain v where v: "v \<in> ?R" "\<forall>u. (u, v) \<in> before g \<longrightarrow> u \<notin> ?R" by (elim bexE)
  have "deg v \<noteq> 0" "deg v = int (length (filter (\<lambda>d. d \<notin> set order) (deps_of g v)))"
    using assms(1) v(1) unfolding kahn_inv_def by auto
  then have "filter (\<lambda>d. d \<notin> set order) (deps_of g v) \<noteq> []" by auto
  then obtain u where u: "u \<in> set (deps_of g v)" "u \<notin> set order" by (auto simp: filter_empty_conv)
  then have "(u, v) \<in> before g" by (simp add: before_def)
  from v(2) [rule_format, OF this] show False using u deps_of_nodes [OF u(1)] by simp
qed

section \<open>Properties\<close>

text \<open>
  Concurrent evaluations are capped.  However requests enter and leave
  \<open>acquire_eval_capacity\<close>, the guard's counter is the number of requests that hold a slot and
  never exceeds \<open>max 1 max_concurrent\<close>; a request sheds load exactly when it holds none; and
  the next request is shed exactly when all slots are taken.
\<close>

theorem eval_load_guard_capacity:
  assumes "guard_step\<^sup>*\<^sup>* (Some (guard_init n), []) (app, cs)"
  shows "\<exists>g. app = Some g \<and> g_active g = holders cs \<and> holders cs \<le> max 1 n \<and>
    (\<forall>ctx \<in> set cs. fst ctx \<longleftrightarrow> \<not> snd ctx) \<and>
    (fst (fst (acquire_enter app)) \<longleftrightarrow> holders cs = max 1 n)"
  using guard_inv_steps [OF assms]
  by (auto simp: guard_inv_def acquire_enter_def try_enter_def)

theorem eval_load_guard_capacity_witness:
  "fst (fst (acquire_enter (snd (acquire_enter (Some (guard_init 1))))))"
proof -
  have "guard_step\<^sup>*\<^sup>* (Some (guard_init 1), []) (Some \<lparr>g_max = 1, g_active = 1\<rparr>, [(False, True)])"
    by (rule r_into_rtranclp, rule guard_step.enter)
      (simp add: acquire_enter_def try_enter_def guard_init_def)
  from eval_load_guard_capacity [OF this] show ?thesis
    by (simp add: acquire_enter_def try_enter_def guard_init_def)
qed

text \<open>
  A bounded step returns the first attempt that works.  With
  \<open>n = max 1 (min max_attempts 5)\<close>, \<open>run_evaluation_step\<close> makes attempts until one returns, is
  aborted, or \<open>n\<close> have failed: the value comes with status \<open>ok\<close> and the number of attempts
  made; after \<open>n\<close> failures \<open>SKIP\<close> gives the fallback with status \<open>skipped\<close> and the error of the
  last attempt as reason, and \<open>REJECT\<close> raises with that error.
\<close>

theorem run_evaluation_step_spec:
  "fst (run_evaluation_step step_id run dur max_attempts onf fallback) =
     step_spec step_id run dur onf fallback 0 (attempts_allowed max_attempts)
       (last_error run (attempts_allowed max_attempts))"
  unfolding run_evaluation_step_def
  by (rule step_loop_spec) (simp_all add: attempts_allowed_def)

text \<open>
  C4: the topological sort is correct and ends.  For a graph given as a dictionary the
  validation always returns: a list that contains every node once, each after its
  dependencies, when the dependencies have no cycle, and the \<open>ValueError\<close> exactly when they
  have one.
\<close>

theorem validate_evaluation_dag_correct:
  assumes "distinct (map fst g)"
  shows "(if acyclic (before g)
     then \<exists>order. validate_evaluation_dag g = Some (Inr order) \<and>
       set order = set (all_step_ids g) \<and> topological g order
     else validate_evaluation_dag g = Some (Inl ValueError))"
proof -
  obtain order deg where k: "kahn (length (all_step_ids g)) g (in_degree_init g)
      (sort (filter (\<lambda>n. in_degree_init g n = 0) (all_step_ids g))) [] = Some order"
    and inv: "kahn_inv g deg [] order"
    using kahn_correct [OF kahn_inv_init assms, of "length (all_step_ids g)"] by auto
  have top: "topological g order" and sub: "set order \<subseteq> set (all_step_ids g)" and "distinct order"
    using inv by (auto simp: kahn_inv_def)
  then have len: "length order = length (all_step_ids g) \<longleftrightarrow> set order = set (all_step_ids g)"
    using card_subset_eq [OF _ sub] distinct_card [of order] distinct_card [of "all_step_ids g"] by auto
  show ?thesis
  proof (cases "acyclic (before g)")
    case True
    then show ?thesis using kahn_inv_complete [OF inv] k top len
      by (simp add: validate_evaluation_dag_def)
  next
    case False
    then show ?thesis using topological_acyclic [OF top] k len
      by (auto simp: validate_evaluation_dag_def)
  qed
qed

theorem validate_evaluation_dag_correct_witness:
  "validate_evaluation_dag [(''a'', [''b'']), (''b'', [''a''])] = Some (Inl ValueError)"
proof -
  let ?g = "[(''a'', [''b'']), (''b'', [''a''])] :: step_graph"
  have "(''a'', ''b'') \<in> before ?g" "(''b'', ''a'') \<in> before ?g"
    by (simp_all add: before_def deps_of_def)
  then have "(''a'', ''a'') \<in> (before ?g)\<^sup>+" by (meson trancl.simps)
  then have "\<not> acyclic (before ?g)" by (auto simp: acyclic_def)
  then show ?thesis using validate_evaluation_dag_correct [of ?g] by simp
qed

end
