(* ===== verification/Graph_Contract.thy ===== *)
theory Graph_Contract
  imports Py_Json
begin

text \<open>
  \<open>services/shared/graph_contract.py\<close>: the tenant registry of vertex types, edge types and
  roles, the answers evaluation derives from a neighbourhood, and \<open>MemoryGraph\<close>, the in-process
  store with the identity and refusal rules of the graph contract.

  Nodes and edges are the dictionaries the code passes around.  A Python set is a list without
  duplicates in insertion order; where the code iterates over a set, the lemmas show that the
  result does not depend on that order.
\<close>

section \<open>Tokens and the tenant registry\<close>

datatype graph_err = UnsignedGraphToken string string string | GraphValueError string

definition user_vtype :: string where "user_vtype = ''user''"

definition bridge_vtypes :: "string list" where
  "bridge_vtypes = [''device'', ''ip'', ''phone'', ''payment'', ''place'', ''promo'', ''order'']"

definition core_vtypes :: "string list" where
  "core_vtypes = user_vtype # bridge_vtypes"

definition core_etypes :: "string list" where
  "core_etypes = [''USED'', ''SEEN_AT'', ''PARTY_WITH'', ''OWNS'', ''REFERRED'', ''KYC_VERIFIED_BY'',
     ''USED_DEVICE'', ''USED_SESSION'', ''USED_IP'', ''MADE_PAYMENT'', ''PERFORMED_LOGIN'']"

definition legacy_vtypes :: "string list" where
  "legacy_vtypes = [''Person'', ''Account'', ''Device'', ''Payment'', ''Document'', ''Decision'',
     ''Custom'', ''User'', ''Login'', ''Session'', ''Ip'', ''LicensePlate'']"

definition is_alpha :: "char \<Rightarrow> bool" where
  "is_alpha c = (let n = (of_char c :: nat) in (65 \<le> n \<and> n \<le> 90) \<or> (97 \<le> n \<and> n \<le> 122))"

text \<open>The patterns \<open>_SAFE\<close> and \<open>_ROLE_SAFE\<close>, matched against the whole token.\<close>

definition safe_token :: "string \<Rightarrow> bool" where
  "safe_token s = (case s of [] \<Rightarrow> False
     | c # cs \<Rightarrow> is_alpha c \<and> length cs \<le> 63 \<and>
         list_all (\<lambda>d. is_alpha d \<or> is_digit d \<or> d = CHR ''_'') cs)"

definition role_safe :: "string \<Rightarrow> bool" where
  "role_safe s = (case s of [] \<Rightarrow> False
     | c # cs \<Rightarrow> is_alpha c \<and> length cs \<le> 63 \<and>
         list_all (\<lambda>d. is_alpha d \<or> is_digit d \<or> d = CHR ''_'' \<or> d = CHR ''-'') cs)"

record registry =
  reg_vtypes :: "string \<Rightarrow> string list"
  reg_etypes :: "string \<Rightarrow> string list"
  reg_roles :: "string \<Rightarrow> string list"

definition empty_registry :: registry where
  "empty_registry = \<lparr>reg_vtypes = \<lambda>_. [], reg_etypes = \<lambda>_. [], reg_roles = \<lambda>_. []\<rparr>"

definition reset_tenant_registry :: "string option \<Rightarrow> registry \<Rightarrow> registry" where
  "reset_tenant_registry tenant reg = (case tenant of None \<Rightarrow> empty_registry
     | Some t \<Rightarrow> \<lparr>reg_vtypes = (reg_vtypes reg)(t := []), reg_etypes = (reg_etypes reg)(t := []),
         reg_roles = (reg_roles reg)(t := [])\<rparr>)"

definition norm_vtype :: "string \<Rightarrow> string" where
  "norm_vtype raw = strip raw"

definition norm_etype :: "string \<Rightarrow> string" where
  "norm_etype raw = replace_char CHR ''-'' CHR ''_'' (replace_char CHR '' '' CHR ''_'' (upper (strip raw)))"

definition norm_role :: "string \<Rightarrow> string" where
  "norm_role raw = lower (strip raw)"

text \<open>
  The three \<open>register_\<close> functions share one loop: tokens go into the tenant's bag one by one, so
  those before a refused token stay registered.
\<close>

fun register_tokens :: "string \<Rightarrow> (string \<Rightarrow> string) \<Rightarrow> (string \<Rightarrow> bool) \<Rightarrow> string \<Rightarrow> string list \<Rightarrow>
    string list \<Rightarrow> graph_err option \<times> string list" where
  "register_tokens kind nrm ok tenant [] bag = (None, bag)"
| "register_tokens kind nrm ok tenant (raw # raws) bag =
     (if ok (nrm raw) then register_tokens kind nrm ok tenant raws (List.insert (nrm raw) bag)
      else (Some (UnsignedGraphToken kind raw tenant), bag))"

definition register_vtypes :: "string \<Rightarrow> string list \<Rightarrow> registry \<Rightarrow> graph_err option \<times> registry" where
  "register_vtypes t raws reg = (case register_tokens ''vtype'' norm_vtype safe_token t raws (reg_vtypes reg t) of
     (e, bag) \<Rightarrow> (e, reg\<lparr>reg_vtypes := (reg_vtypes reg)(t := bag)\<rparr>))"

definition register_etypes :: "string \<Rightarrow> string list \<Rightarrow> registry \<Rightarrow> graph_err option \<times> registry" where
  "register_etypes t raws reg = (case register_tokens ''etype'' norm_etype safe_token t raws (reg_etypes reg t) of
     (e, bag) \<Rightarrow> (e, reg\<lparr>reg_etypes := (reg_etypes reg)(t := bag)\<rparr>))"

definition register_roles :: "string \<Rightarrow> string list \<Rightarrow> registry \<Rightarrow> graph_err option \<times> registry" where
  "register_roles t raws reg = (case register_tokens ''role'' norm_role role_safe t raws (reg_roles reg t) of
     (e, bag) \<Rightarrow> (e, reg\<lparr>reg_roles := (reg_roles reg)(t := bag)\<rparr>))"

definition registered_vtypes :: "registry \<Rightarrow> string \<Rightarrow> string list" where
  "registered_vtypes reg t = core_vtypes @ legacy_vtypes @ reg_vtypes reg t"

definition registered_etypes :: "registry \<Rightarrow> string \<Rightarrow> string list" where
  "registered_etypes reg t = core_etypes @ reg_etypes reg t"

definition registered_roles :: "registry \<Rightarrow> string \<Rightarrow> string list" where
  "registered_roles reg t = reg_roles reg t"

definition require_vtype :: "registry \<Rightarrow> string \<Rightarrow> string \<Rightarrow> graph_err + string" where
  "require_vtype reg t vtype = (let token = norm_vtype vtype in
     if token = [] \<or> \<not> safe_token token \<or> token \<notin> set (registered_vtypes reg t)
     then Inl (UnsignedGraphToken ''vtype'' vtype t) else Inr token)"

definition require_etype :: "registry \<Rightarrow> string \<Rightarrow> string \<Rightarrow> graph_err + string" where
  "require_etype reg t etype = (let token = norm_etype etype in
     if token = [] \<or> \<not> safe_token token \<or> token \<notin> set (registered_etypes reg t)
     then Inl (UnsignedGraphToken ''etype'' etype t) else Inr token)"

text \<open>A tenant without registered roles accepts every well-formed role.\<close>

definition require_role :: "registry \<Rightarrow> string \<Rightarrow> string \<Rightarrow> graph_err + string" where
  "require_role reg t role = (let token = norm_role role; locked = registered_roles reg t in
     if token = [] \<or> \<not> role_safe token then Inl (UnsignedGraphToken ''role'' role t)
     else if locked \<noteq> [] \<and> token \<notin> set locked then Inl (UnsignedGraphToken ''role'' role t)
     else Inr token)"

type_synonym vertex_key = "string \<times> string \<times> string"

definition janus_graph_id :: "string \<Rightarrow> string \<Rightarrow> string \<Rightarrow> string" where
  "janus_graph_id t vtype eid = ''jvg:'' @ t @ '':'' @ vtype @ '':'' @ eid"

section \<open>Roles\<close>

fun merge_into :: "string list \<Rightarrow> string list \<Rightarrow> string list" where
  "merge_into [] out = out"
| "merge_into (raw # raws) out = (let token = norm_role raw in
     if token = [] \<or> token \<in> set out then merge_into raws out else merge_into raws (out @ [token]))"

definition merge_roles :: "string list \<Rightarrow> string list \<Rightarrow> string list" where
  "merge_roles existing incoming = merge_into (existing @ incoming) []"

definition roles_from_properties :: "pyval \<Rightarrow> string list" where
  "roles_from_properties properties = (let
     props = (case properties of PDict d \<Rightarrow> d | _ \<Rightarrow> []);
     listed = (case dget props ''roles'' of
         PList xs \<Rightarrow> map py_str xs
       | PStr s \<Rightarrow> if strip s \<noteq> [] then [s] else []
       | _ \<Rightarrow> []);
     one = (case dget props ''role'' of PStr s \<Rightarrow> if strip s \<noteq> [] then [s] else [] | _ \<Rightarrow> [])
     in merge_roles [] (listed @ one))"

section \<open>Nodes and edges\<close>

definition labels_of :: "dict \<Rightarrow> string list" where
  "labels_of node = (case py_or (py_or (dget node ''labels'') (dget node ''label'')) (dget node ''vtype'') of
       PList xs \<Rightarrow> filter (\<lambda>s. strip s \<noteq> []) (map py_str xs)
     | raw \<Rightarrow> if truthy raw then [py_str raw] else [])"

definition node_id :: "dict \<Rightarrow> string" where
  "node_id node = strip (str_or_empty (py_or (py_or (dget node ''id'') (dget node ''external_id''))
     (dget node ''entity_id'')))"

definition is_user_node :: "dict \<Rightarrow> bool" where
  "is_user_node node = list_ex (\<lambda>l. l \<in> set [user_vtype, ''User'', ''Person'', ''Account'']) (labels_of node)"

definition bridge_labels :: "string list" where
  "bridge_labels = bridge_vtypes @
     [''session'', ''document'', ''licenseplate'', ''email'', ''card'', ''address'', ''list'']"

definition is_bridge_node :: "dict \<Rightarrow> bool" where
  "is_bridge_node node = list_ex (\<lambda>l. lower l \<in> set bridge_labels) (labels_of node)"

text \<open>The first truthy of several fields, as a stripped string.\<close>

definition first_field :: "dict \<Rightarrow> string list \<Rightarrow> string" where
  "first_field d ks = strip (str_or_empty (foldr (\<lambda>k v. py_or (dget d k) v) ks (PStr [])))"

record named_edge =
  ne_from :: string
  ne_to :: string
  ne_type :: string

text \<open>The edge normalisation both answer functions apply; \<open>None\<close> for an edge that is skipped.\<close>

definition name_edge :: "dict \<Rightarrow> named_edge option" where
  "name_edge e = (let
     et = first_field e [''type'', ''rel'', ''etype'', ''relationship''];
     src = first_field e [''from_id'', ''src'', ''from'', ''from_external_id''];
     dst = first_field e [''to_id'', ''dst'', ''to'', ''to_external_id'']
     in if et = [] \<or> src = [] \<or> dst = [] then None
        else Some \<lparr>ne_from = src, ne_to = dst, ne_type = et\<rparr>)"

definition named_edges_of :: "pyval list \<Rightarrow> named_edge list" where
  "named_edges_of edges = List.map_filter (\<lambda>e. Option.bind (dict_of e) name_edge) edges"

record graph_answers =
  ga_roles :: "string list"
  ga_multi :: "string list"
  ga_edges :: "named_edge list"

definition by_id :: "dict list \<Rightarrow> string \<Rightarrow> dict option" where
  "by_id nodes i = map_of (rev (map (\<lambda>n. (node_id n, n)) (filter (\<lambda>n. node_id n \<noteq> []) nodes))) i"

definition neighbours :: "named_edge list \<Rightarrow> string \<Rightarrow> string list" where
  "neighbours es i = remdups (concat (map (\<lambda>e.
     (if ne_from e = i then [ne_to e] else []) @ (if ne_to e = i then [ne_from e] else [])) es))"

text \<open>A neighbour counts as a bridge by its labels; a neighbour without a node never does.\<close>

definition bridges :: "dict list \<Rightarrow> string \<Rightarrow> bool" where
  "bridges nodes i = (case by_id nodes i of None \<Rightarrow> False
     | Some n \<Rightarrow> is_bridge_node n \<or> list_ex (\<lambda>l. lower l \<in> set bridge_vtypes) (labels_of n))"

definition is_user_id :: "dict list \<Rightarrow> string \<Rightarrow> bool" where
  "is_user_id nodes i = (case by_id nodes i of None \<Rightarrow> False | Some n \<Rightarrow> is_user_node n)"

definition multi_step :: "dict list \<Rightarrow> named_edge list \<Rightarrow> string \<Rightarrow> string \<Rightarrow> string list \<Rightarrow> string list" where
  "multi_step nodes es sid nbr multi = (if \<not> bridges nodes nbr then multi
     else fold (\<lambda>other acc. if other = sid \<or> other \<in> set acc then acc
         else if \<not> is_user_id nodes other then acc else acc @ [other]) (neighbours es nbr) multi)"

definition graph_answers_from_neighborhood :: "string \<Rightarrow> dict list \<Rightarrow> pyval list \<Rightarrow> graph_answers" where
  "graph_answers_from_neighborhood subject_id nodes edges = (let
     sid = strip subject_id;
     subject = by_id nodes sid;
     roles0 = (case subject of None \<Rightarrow> [] | Some n \<Rightarrow> roles_from_properties (dget n ''properties''));
     roles = (case subject of Some n \<Rightarrow> if roles0 = [] \<and> n \<noteq> []
         then merge_roles [] [str_or_empty (dget n ''role'')] else roles0 | None \<Rightarrow> roles0);
     es = named_edges_of edges;
     multi = fold (multi_step nodes es sid) (neighbours es sid) []
     in \<lparr>ga_roles = roles, ga_multi = sort multi, ga_edges = es\<rparr>)"

definition empty_graph_answers :: graph_answers where
  "empty_graph_answers = \<lparr>ga_roles = [], ga_multi = [], ga_edges = []\<rparr>"

text \<open>A list field: its elements as stripped strings without the blank ones; its named edges.\<close>

definition stripped_items :: "pyval \<Rightarrow> string list" where
  "stripped_items v = (case v of
     PList xs \<Rightarrow> filter (\<lambda>s. s \<noteq> []) (map (\<lambda>x. strip (py_str x)) xs) | _ \<Rightarrow> [])"

definition edge_items :: "pyval \<Rightarrow> named_edge list" where
  "edge_items v = (case v of PList es \<Rightarrow> named_edges_of es | _ \<Rightarrow> [])"

definition consume_graph_answers :: "pyval \<Rightarrow> graph_answers" where
  "consume_graph_answers graph_meta = (case graph_meta of
       PDict m \<Rightarrow> \<lparr>ga_roles = stripped_items (dget m ''roles''),
         ga_multi = stripped_items (dget m ''multi_id_user_ids''),
         ga_edges = edge_items (dget m ''named_edges'')\<rparr>
     | _ \<Rightarrow> empty_graph_answers)"

text \<open>The named edge as the dictionary the code builds.\<close>

definition edge_dict :: "named_edge \<Rightarrow> pyval" where
  "edge_dict e = PDict [(''from_id'', PStr (ne_from e)), (''to_id'', PStr (ne_to e)), (''type'', PStr (ne_type e))]"

definition pack_why_from_graph_answers :: "pyval \<Rightarrow> dict" where
  "pack_why_from_graph_answers answers = (let a = (case answers of PDict d \<Rightarrow> d | _ \<Rightarrow> []) in
     [(''named_edges'', py_or (dget a ''named_edges'') (PList [])),
      (''multi_id_user_ids'', py_or (dget a ''multi_id_user_ids'') (PList [])),
      (''roles'', py_or (dget a ''roles'') (PList [])),
      (''invented_edges'', PBool False)])"

section \<open>MemoryGraph\<close>

record memory_graph =
  mg_tenant :: string
  mg_vertices :: "(vertex_key \<times> dict) list"
  mg_edges :: "dict list"

definition mg_init :: "string \<Rightarrow> memory_graph" where
  "mg_init t = \<lparr>mg_tenant = t, mg_vertices = [], mg_edges = []\<rparr>"

definition props_of :: "dict \<Rightarrow> dict" where
  "props_of node = (case dget node ''properties'' of PDict d \<Rightarrow> d | _ \<Rightarrow> [])"

definition str_list :: "string list \<Rightarrow> pyval" where
  "str_list xs = PList (map PStr xs)"

definition upsert_new :: "string \<Rightarrow> string \<Rightarrow> string \<Rightarrow> dict \<Rightarrow> string list option \<Rightarrow> dict" where
  "upsert_new t label eid props tags = (let
     p1 = dset ''roles'' (str_list (roles_from_properties (PDict props))) props;
     p2 = dset ''external_id'' (PStr eid) (dset ''tenant_id'' (PStr t) p1)
     in [(''id'', PStr eid), (''labels'', str_list [label]), (''properties'', PDict p2),
         (''tags'', str_list (case tags of None \<Rightarrow> [] | Some ts \<Rightarrow> ts))])"

definition upsert_merge :: "dict \<Rightarrow> dict \<Rightarrow> string list option \<Rightarrow> dict" where
  "upsert_merge prev props tags = (let
     roles = str_list (merge_roles (roles_from_properties (dget prev ''properties''))
       (roles_from_properties (PDict props)));
     merged = dset ''roles'' roles (dict_update (props_of prev) (dset ''roles'' roles props));
     prev1 = dset ''properties'' (PDict merged) prev
     in case tags of None \<Rightarrow> prev1 | Some ts \<Rightarrow> dset ''tags'' (str_list ts) prev1)"

definition upsert :: "registry \<Rightarrow> string \<Rightarrow> string \<Rightarrow> dict \<Rightarrow> string list option \<Rightarrow> memory_graph \<Rightarrow>
    (graph_err + string) \<times> memory_graph" where
  "upsert reg vtype entity_id props tags g = (case require_vtype reg (mg_tenant g) vtype of
       Inl e \<Rightarrow> (Inl e, g)
     | Inr label \<Rightarrow> (let eid = strip entity_id; key = (mg_tenant g, label, eid) in
         if eid = [] then (Inl (GraphValueError ''entity_id required''), g)
         else (Inr (janus_graph_id (mg_tenant g) label eid),
           g\<lparr>mg_vertices := AList.update key (case map_of (mg_vertices g) key of
               Some prev \<Rightarrow> upsert_merge prev props tags
             | None \<Rightarrow> upsert_new (mg_tenant g) label eid props tags) (mg_vertices g)\<rparr>)))"

definition mg_get :: "memory_graph \<Rightarrow> string \<Rightarrow> string \<Rightarrow> dict option" where
  "mg_get g vtype eid = map_of (mg_vertices g) (mg_tenant g, vtype, eid)"

definition vertices_for_id :: "memory_graph \<Rightarrow> string \<Rightarrow> dict list" where
  "vertices_for_id g eid = map snd (filter (\<lambda>((t, vt, i), v). i = eid) (mg_vertices g))"

definition resolve_endpoint :: "registry \<Rightarrow> memory_graph \<Rightarrow> string \<Rightarrow> string option \<Rightarrow> graph_err + dict" where
  "resolve_endpoint reg g eid vtype = (case (case vtype of None \<Rightarrow> [] | Some v \<Rightarrow> v) of
       [] \<Rightarrow> (case vertices_for_id g eid of
           [] \<Rightarrow> Inl (GraphValueError (''missing endpoint '' @ eid))
         | [n] \<Rightarrow> Inr n
         | _ \<Rightarrow> Inl (GraphValueError (''ambiguous endpoint '' @ eid @ '': specify vtype'')))
     | v \<Rightarrow> (case require_vtype reg (mg_tenant g) v of
           Inl e \<Rightarrow> Inl e
         | Inr label \<Rightarrow> (case mg_get g label eid of
               None \<Rightarrow> Inl (GraphValueError (''missing endpoint '' @ v @ '':'' @ eid))
             | Some n \<Rightarrow> Inr n)))"

definition first_label :: "dict \<Rightarrow> pyval" where
  "first_label n = PStr (case labels_of n of [] \<Rightarrow> [] | l # _ \<Rightarrow> l)"

definition create_link :: "registry \<Rightarrow> string \<Rightarrow> string \<Rightarrow> string \<Rightarrow> string option \<Rightarrow> string option \<Rightarrow> dict \<Rightarrow>
    memory_graph \<Rightarrow> graph_err option \<times> memory_graph" where
  "create_link reg from_id to_id etype from_vtype to_vtype props g =
     (case require_etype reg (mg_tenant g) etype of
       Inl e \<Rightarrow> (Some e, g)
     | Inr rel \<Rightarrow> (case resolve_endpoint reg g from_id from_vtype of
         Inl e \<Rightarrow> (Some e, g)
       | Inr a \<Rightarrow> (case resolve_endpoint reg g to_id to_vtype of
           Inl e \<Rightarrow> (Some e, g)
         | Inr b \<Rightarrow> (None, g\<lparr>mg_edges := mg_edges g @
             [[(''from_id'', dget a ''id''), (''to_id'', dget b ''id''), (''type'', PStr rel),
               (''from_vtype'', first_label a), (''to_vtype'', first_label b),
               (''properties'', PDict props)]]\<rparr>))))"

text \<open>
  \<open>subgraph\<close>: breadth-first rounds from the root.  Edges of the store carry string ids.
\<close>

definition edge_from :: "dict \<Rightarrow> string" where "edge_from e = str_or_empty (dget e ''from_id'')"

definition edge_to :: "dict \<Rightarrow> string" where "edge_to e = str_or_empty (dget e ''to_id'')"

record bfs =
  bfs_seen :: "string list"
  bfs_next :: "string list"
  bfs_nodes :: "dict list"
  bfs_edges :: "dict list"

definition bfs_visit :: "memory_graph \<Rightarrow> string \<Rightarrow> bfs \<Rightarrow> bfs" where
  "bfs_visit g oid s = (if oid \<in> set (bfs_seen s) then s
     else s\<lparr>bfs_seen := oid # bfs_seen s, bfs_next := oid # bfs_next s,
            bfs_nodes := bfs_nodes s @ vertices_for_id g oid\<rparr>)"

definition bfs_edge :: "memory_graph \<Rightarrow> string list \<Rightarrow> dict \<Rightarrow> bfs \<Rightarrow> bfs" where
  "bfs_edge g frontier e s = (if edge_from e \<in> set frontier \<or> edge_to e \<in> set frontier
     then bfs_visit g (edge_to e) (bfs_visit g (edge_from e) (s\<lparr>bfs_edges := bfs_edges s @ [e]\<rparr>))
     else s)"

fun bfs_rounds :: "memory_graph \<Rightarrow> nat \<Rightarrow> string list \<Rightarrow> bfs \<Rightarrow> bfs" where
  "bfs_rounds g 0 frontier s = s"
| "bfs_rounds g (Suc n) frontier s =
     (let s1 = fold (bfs_edge g frontier) (mg_edges g) (s\<lparr>bfs_next := []\<rparr>)
      in bfs_rounds g n (bfs_next s1) s1)"

definition subgraph :: "memory_graph \<Rightarrow> string \<Rightarrow> string \<Rightarrow> int \<Rightarrow> dict list \<times> dict list" where
  "subgraph g entity_id vtype depth = (case mg_get g vtype entity_id of
       None \<Rightarrow> ([], [])
     | Some r0 \<Rightarrow> (let s = bfs_rounds g (nat (max 1 (min depth 5))) [entity_id]
           \<lparr>bfs_seen = [entity_id], bfs_next = [], bfs_nodes = [r0], bfs_edges = []\<rparr>
         in (bfs_nodes s, bfs_edges s)))"

definition entity_risk_answers :: "memory_graph \<Rightarrow> string \<Rightarrow> string \<Rightarrow> graph_answers" where
  "entity_risk_answers g entity_id vtype = (case subgraph g entity_id vtype 2 of
     (nodes, edges) \<Rightarrow> graph_answers_from_neighborhood entity_id nodes (map PDict edges))"

section \<open>Tokens are registered ones\<close>

lemma require_vtype_registered:
  "require_vtype reg t v = Inr l \<Longrightarrow> l = norm_vtype v \<and> l \<in> set (registered_vtypes reg t) \<and> safe_token l"
  by (auto simp: require_vtype_def Let_def split: if_splits)

lemma require_etype_registered:
  "require_etype reg t v = Inr l \<Longrightarrow> l = norm_etype v \<and> l \<in> set (registered_etypes reg t) \<and> safe_token l"
  by (auto simp: require_etype_def Let_def split: if_splits)

lemma replace_char_idem [simp]: "a \<noteq> b \<Longrightarrow> replace_char a b (replace_char a b s) = replace_char a b s"
  by (simp add: replace_char_def)

lemma norm_etype_idem [simp]: "norm_etype (norm_etype s) = norm_etype s"
proof -
  let ?f = "\<lambda>c. if c = CHR '' '' \<or> c = CHR ''-'' then CHR ''_'' else c"
  let ?x = "upper (strip s)"
  have norm: "norm_etype t = map ?f (upper (strip t))" for t
    by (auto simp: norm_etype_def replace_char_def)
  have "strip ?x = ?x" by (rule strip_upper_fixed) simp
  have "strip (map ?f ?x) = map ?f ?x"
  proof (cases "?x = []")
    case False
    then have "\<not> is_space (hd ?x)" "\<not> is_space (last ?x)" using strip_ends [OF \<open>strip ?x = ?x\<close>] by auto
    moreover have "\<not> is_space CHR ''_''" by (simp add: is_space_def)
    ultimately show ?thesis using False by (intro strip_eqI) (simp add: hd_map last_map)
  qed simp
  moreover have "upper_char c = [c]" if "c \<in> set ?x" for c
    using that by (auto simp: upper_def intro: upper_char_fixed)
  moreover have "upper_char CHR ''_'' = ''_''" by (simp add: upper_char_def)
  ultimately have "upper (strip (map ?f ?x)) = map ?f ?x" by (simp only:) (rule upper_fixed, auto)
  then show ?thesis unfolding norm by simp
qed

section \<open>Roles are merged as a set\<close>

definition role_set :: "string list \<Rightarrow> string set" where
  "role_set rs = norm_role ` set rs - {[]}"

lemma merge_into_props:
  "distinct out \<Longrightarrow> set (merge_into raws out) = set out \<union> role_set raws \<and> distinct (merge_into raws out)"
  by (induction raws arbitrary: out) (auto simp: role_set_def Let_def)

lemma merge_roles_props:
  "set (merge_roles a b) = role_set a \<union> role_set b" "distinct (merge_roles a b)"
  using merge_into_props [of "[]" "a @ b"] by (auto simp: merge_roles_def role_set_def)

lemma strip_char_in: "c \<in> set (strip s) \<Longrightarrow> c \<in> set s"
  by (auto simp: strip_def dest!: set_dropWhileD)

section \<open>The invariant of the store\<close>

definition vertex_ok :: "registry \<Rightarrow> memory_graph \<Rightarrow> vertex_key \<times> dict \<Rightarrow> bool" where
  "vertex_ok reg g kn = (case kn of ((t, label, eid), node) \<Rightarrow>
     t = mg_tenant g \<and> label \<in> set (registered_vtypes reg t) \<and> eid \<noteq> [] \<and> strip eid = eid \<and>
     dget node ''id'' = PStr eid \<and> dget node ''labels'' = str_list [label])"

definition has_vertex :: "memory_graph \<Rightarrow> string \<Rightarrow> bool" where
  "has_vertex g eid = (\<exists>t label. (t, label, eid) \<in> fst ` set (mg_vertices g))"

definition edge_ok :: "registry \<Rightarrow> memory_graph \<Rightarrow> dict \<Rightarrow> bool" where
  "edge_ok reg g e = (\<exists>a b rel. dget e ''from_id'' = PStr a \<and> dget e ''to_id'' = PStr b \<and>
     dget e ''type'' = PStr rel \<and> has_vertex g a \<and> has_vertex g b \<and>
     rel \<in> set (registered_etypes reg (mg_tenant g)) \<and> safe_token rel)"

definition mg_inv :: "registry \<Rightarrow> memory_graph \<Rightarrow> bool" where
  "mg_inv reg g = (distinct (map fst (mg_vertices g)) \<and>
     (\<forall>kn \<in> set (mg_vertices g). vertex_ok reg g kn) \<and> (\<forall>e \<in> set (mg_edges g). edge_ok reg g e))"

datatype mg_op = Upsert string string dict "string list option"
  | Link string string string "string option" "string option" dict

fun mg_apply :: "registry \<Rightarrow> mg_op \<Rightarrow> memory_graph \<Rightarrow> memory_graph" where
  "mg_apply reg (Upsert vt eid props tags) g = snd (upsert reg vt eid props tags g)"
| "mg_apply reg (Link a b et va vb props) g = snd (create_link reg a b et va vb props g)"

lemma set_alist_update: "set (AList.update k v xs) \<subseteq> insert (k, v) (set xs)"
  by (induction xs) auto

lemma fst_set_update: "fst ` set (AList.update k v xs) = insert k (fst ` set xs)"
  by (induction xs) auto

lemma upsert_merge_id_labels:
  "dget (upsert_merge prev props tags) ''id'' = dget prev ''id''"
  "dget (upsert_merge prev props tags) ''labels'' = dget prev ''labels''"
  by (auto simp: upsert_merge_def Let_def split: option.splits)

lemma upsert_new_id_labels:
  "dget (upsert_new t label eid props tags) ''id'' = PStr eid"
  "dget (upsert_new t label eid props tags) ''labels'' = str_list [label]"
  by (auto simp: upsert_new_def Let_def)

lemma has_vertex_update:
  "has_vertex g eid \<Longrightarrow> has_vertex (g\<lparr>mg_vertices := AList.update k v (mg_vertices g)\<rparr>) eid"
  by (auto simp: has_vertex_def fst_set_update)

lemma upsert_inv:
  assumes "mg_inv reg g"
  shows "mg_inv reg (snd (upsert reg vt eid props tags g))"
proof (cases "require_vtype reg (mg_tenant g) vt")
  case (Inl e)
  then show ?thesis using assms by (simp add: upsert_def)
next
  case (Inr label)
  let ?eid = "strip eid" and ?k = "(mg_tenant g, label, strip eid)"
  let ?n = "case map_of (mg_vertices g) ?k of Some prev \<Rightarrow> upsert_merge prev props tags
    | None \<Rightarrow> upsert_new (mg_tenant g) label ?eid props tags"
  let ?g = "g\<lparr>mg_vertices := AList.update ?k ?n (mg_vertices g)\<rparr>"
  show ?thesis
  proof (cases "?eid = []")
    case True
    then show ?thesis using assms Inr by (simp add: upsert_def)
  next
    case False
    have "vertex_ok reg g (?k, ?n)"
    proof (cases "map_of (mg_vertices g) ?k")
      case None
      then show ?thesis using False require_vtype_registered [OF Inr]
        by (auto simp: vertex_ok_def upsert_new_id_labels)
    next
      case (Some prev)
      then have "vertex_ok reg g (?k, prev)" using assms by (auto simp: mg_inv_def dest: map_of_SomeD)
      then show ?thesis using Some by (simp add: vertex_ok_def upsert_merge_id_labels)
    qed
    then have "\<forall>kn \<in> set (mg_vertices ?g). vertex_ok reg ?g kn"
      using assms set_alist_update [of ?k ?n "mg_vertices g"] by (auto simp: mg_inv_def vertex_ok_def)
    moreover have "edge_ok reg ?g e" if "edge_ok reg g e" for e
      using that by (force simp: edge_ok_def intro: has_vertex_update)
    ultimately have "mg_inv reg ?g"
      using assms by (auto simp: mg_inv_def distinct_update)
    then show ?thesis using Inr False by (simp add: upsert_def Let_def)
  qed
qed

lemma resolve_endpoint_vertex:
  assumes "resolve_endpoint reg g eid vt = Inr n"
  shows "\<exists>k. (k, n) \<in> set (mg_vertices g)"
proof -
  have "n \<in> snd ` set (mg_vertices g)" if "vertices_for_id g eid = [n]"
    using that by (auto simp: vertices_for_id_def filter_eq_Cons_iff)
  moreover have "n \<in> snd ` set (mg_vertices g)" if "mg_get g label eid = Some n" for label
    using that by (force simp: mg_get_def dest: map_of_SomeD)
  ultimately have "n \<in> snd ` set (mg_vertices g)"
    using assms by (auto simp: resolve_endpoint_def split: list.splits sum.splits option.splits)
  then show ?thesis by force
qed

lemma vertex_has_id:
  assumes "mg_inv reg g" and "(k, n) \<in> set (mg_vertices g)"
  shows "\<exists>eid. dget n ''id'' = PStr eid \<and> has_vertex g eid"
proof -
  obtain t label eid where k: "k = (t, label, eid)" by (cases k) auto
  have "vertex_ok reg g (k, n)" using assms by (auto simp: mg_inv_def)
  then show ?thesis using assms(2) by (force simp: k vertex_ok_def has_vertex_def)
qed

lemma create_link_inv:
  assumes "mg_inv reg g"
  shows "mg_inv reg (snd (create_link reg a b et va vb props g))"
proof -
  have "mg_inv reg (g\<lparr>mg_edges := mg_edges g @ [[(''from_id'', dget x ''id''), (''to_id'', dget y ''id''),
       (''type'', PStr rel), (''from_vtype'', first_label x), (''to_vtype'', first_label y),
       (''properties'', PDict props)]]\<rparr>)"
    if rel: "require_etype reg (mg_tenant g) et = Inr rel"
      and x: "resolve_endpoint reg g a va = Inr x" and y: "resolve_endpoint reg g b vb = Inr y" for x y rel
  proof -
    obtain i j where "dget x ''id'' = PStr i" "has_vertex g i" "dget y ''id'' = PStr j" "has_vertex g j"
      using resolve_endpoint_vertex [OF x] resolve_endpoint_vertex [OF y] vertex_has_id [OF assms] by blast
    then show ?thesis using assms require_etype_registered [OF rel]
      by (auto simp: mg_inv_def edge_ok_def has_vertex_def vertex_ok_def)
  qed
  then show ?thesis using assms by (simp add: create_link_def split: sum.split)
qed

lemma mg_apply_inv: "mg_inv reg g \<Longrightarrow> mg_inv reg (mg_apply reg op g)"
  by (cases op) (simp_all add: upsert_inv create_link_inv)

lemma mg_run_inv: "mg_inv reg g \<Longrightarrow> mg_inv reg (fold (mg_apply reg) ops g)"
  by (induction ops arbitrary: g) (simp_all add: mg_apply_inv)

lemma mg_init_inv: "mg_inv reg (mg_init t)"
  by (simp add: mg_inv_def mg_init_def)

section \<open>Multi-id answers\<close>

definition linked :: "named_edge list \<Rightarrow> string \<Rightarrow> string \<Rightarrow> bool" where
  "linked es a b = (\<exists>e \<in> set es. (ne_from e = a \<and> ne_to e = b) \<or> (ne_from e = b \<and> ne_to e = a))"

lemma set_neighbours: "set (neighbours es i) = {j. linked es i j}"
  by (auto simp: neighbours_def linked_def)

lemma multi_inner:
  assumes "distinct acc"
  shows "distinct (fold (\<lambda>other acc. if other = sid \<or> other \<in> set acc then acc
         else if \<not> P other then acc else acc @ [other]) xs acc) \<and>
    set (fold (\<lambda>other acc. if other = sid \<or> other \<in> set acc then acc
         else if \<not> P other then acc else acc @ [other]) xs acc) =
      set acc \<union> {x \<in> set xs. x \<noteq> sid \<and> P x}"
  using assms by (induction xs arbitrary: acc) auto

lemma multi_step_set:
  assumes "distinct acc"
  shows "distinct (multi_step nodes es sid nbr acc) \<and> set (multi_step nodes es sid nbr acc) = set acc \<union>
    {x. bridges nodes nbr \<and> linked es nbr x \<and> x \<noteq> sid \<and> is_user_id nodes x}"
  using multi_inner [OF assms, of sid "is_user_id nodes" "neighbours es nbr"] assms
  by (auto simp: multi_step_def set_neighbours)

lemma multi_fold_set:
  assumes "distinct acc"
  shows "distinct (fold (multi_step nodes es sid) nbrs acc) \<and>
    set (fold (multi_step nodes es sid) nbrs acc) = set acc \<union>
    {x. \<exists>b \<in> set nbrs. bridges nodes b \<and> linked es b x \<and> x \<noteq> sid \<and> is_user_id nodes x}"
  using assms
proof (induction nbrs arbitrary: acc)
  case (Cons n nbrs)
  show ?case
    using Cons.IH [of "multi_step nodes es sid n acc"] multi_step_set [OF Cons.prems, of nodes es sid n]
    by auto
qed simp

lemma answers_multi:
  "sorted (ga_multi (graph_answers_from_neighborhood subject nodes edges)) \<and>
   distinct (ga_multi (graph_answers_from_neighborhood subject nodes edges)) \<and>
   set (ga_multi (graph_answers_from_neighborhood subject nodes edges)) =
     {x. x \<noteq> strip subject \<and> is_user_id nodes x \<and>
       (\<exists>b. linked (named_edges_of edges) (strip subject) b \<and> bridges nodes b \<and>
         linked (named_edges_of edges) b x)}"
  using multi_fold_set [of "[]" nodes "named_edges_of edges" "strip subject"
      "neighbours (named_edges_of edges) (strip subject)"]
  by (auto simp: graph_answers_from_neighborhood_def Let_def set_neighbours)

lemma is_alpha_nonspace: "is_alpha c \<Longrightarrow> \<not> is_space c"
  by (auto simp: is_alpha_def is_space_def Let_def)

lemma safe_token_nonblank: "safe_token s \<Longrightarrow> strip s \<noteq> []"
  using strip_nonempty [OF list.set_intros(1) is_alpha_nonspace]
  by (cases s) (auto simp: safe_token_def)

lemma first_field_hit: "dget d k = PStr s \<Longrightarrow> s \<noteq> [] \<Longrightarrow> first_field d (k # ks) = strip s"
  by (simp add: first_field_def)

lemma edge_ok_named:
  assumes "mg_inv reg g" and "e \<in> set (mg_edges g)"
  obtains et where "name_edge e = Some \<lparr>ne_from = edge_from e, ne_to = edge_to e, ne_type = et\<rparr>"
    "edge_from e \<noteq> []" "edge_to e \<noteq> []"
proof -
  obtain a b rel where e: "dget e ''from_id'' = PStr a" "dget e ''to_id'' = PStr b" "dget e ''type'' = PStr rel"
    and v: "has_vertex g a" "has_vertex g b" and rel: "safe_token rel"
    using assms by (auto simp: mg_inv_def edge_ok_def)
  have ok: "x \<noteq> [] \<and> strip x = x" if "has_vertex g x" for x
    using that assms(1) by (fastforce simp: has_vertex_def mg_inv_def vertex_ok_def)
  have "rel \<noteq> []" "strip rel \<noteq> []" using safe_token_nonblank [OF rel] by auto
  then have "name_edge e = Some \<lparr>ne_from = edge_from e, ne_to = edge_to e, ne_type = strip rel\<rparr>"
    using ok [OF v(1)] ok [OF v(2)] e
    by (simp add: name_edge_def first_field_hit edge_from_def edge_to_def Let_def)
  then show ?thesis using that ok [OF v(1)] ok [OF v(2)] e by (simp add: edge_from_def edge_to_def)
qed

definition linked_ids :: "dict list \<Rightarrow> string \<Rightarrow> string \<Rightarrow> bool" where
  "linked_ids es a b = (\<exists>e \<in> set es. (edge_from e = a \<and> edge_to e = b) \<or> (edge_from e = b \<and> edge_to e = a))"

lemma linked_named:
  assumes "mg_inv reg g" and "set es \<subseteq> set (mg_edges g)"
  shows "linked (named_edges_of (map PDict es)) a b = linked_ids es a b"
proof -
  have set: "set (named_edges_of (map PDict es)) = {n. \<exists>e \<in> set es. name_edge e = Some n}"
    by (force simp: named_edges_of_def List.map_filter_def)
  have named: "\<exists>et. name_edge e = Some \<lparr>ne_from = edge_from e, ne_to = edge_to e, ne_type = et\<rparr>"
    if "e \<in> set es" for e
    using assms that by (metis edge_ok_named subsetD)
  show ?thesis
  proof
    assume "linked (named_edges_of (map PDict es)) a b"
    then obtain e n where "e \<in> set es" "name_edge e = Some n"
      "(ne_from n = a \<and> ne_to n = b) \<or> (ne_from n = b \<and> ne_to n = a)"
      by (auto simp: linked_def set)
    then show "linked_ids es a b" using named [of e] by (auto simp: linked_ids_def)
  next
    assume "linked_ids es a b"
    then obtain e where e: "e \<in> set es"
      "(edge_from e = a \<and> edge_to e = b) \<or> (edge_from e = b \<and> edge_to e = a)"
      by (auto simp: linked_ids_def)
    obtain et where "name_edge e = Some \<lparr>ne_from = edge_from e, ne_to = edge_to e, ne_type = et\<rparr>"
      using named [OF e(1)] by blast
    with e show "linked (named_edges_of (map PDict es)) a b"
      unfolding linked_def set by (intro bexI [of _ "\<lparr>ne_from = edge_from e, ne_to = edge_to e, ne_type = et\<rparr>"]) auto
  qed
qed

section \<open>Breadth-first rounds\<close>

definition touches :: "string set \<Rightarrow> dict \<Rightarrow> bool" where
  "touches F e = (edge_from e \<in> F \<or> edge_to e \<in> F)"

definition ends_of :: "dict set \<Rightarrow> string set" where
  "ends_of E = edge_from ` E \<union> edge_to ` E"

text \<open>What one round adds to a search state.\<close>

definition grows :: "memory_graph \<Rightarrow> string set \<Rightarrow> dict set \<Rightarrow> bfs \<Rightarrow> bfs \<Rightarrow> bool" where
  "grows g F E s t = (let new = ends_of {e \<in> E. touches F e} in
     set (bfs_edges t) = set (bfs_edges s) \<union> {e \<in> E. touches F e} \<and>
     set (bfs_seen t) = set (bfs_seen s) \<union> new \<and>
     set (bfs_next t) = set (bfs_next s) \<union> (new - set (bfs_seen s)) \<and>
     set (bfs_nodes t) = set (bfs_nodes s) \<union> (\<Union>o' \<in> new - set (bfs_seen s). set (vertices_for_id g o')))"

lemma bfs_visit_sets:
  "set (bfs_seen (bfs_visit g x s)) = insert x (set (bfs_seen s))"
  "set (bfs_next (bfs_visit g x s)) = set (bfs_next s) \<union> ({x} - set (bfs_seen s))"
  "set (bfs_nodes (bfs_visit g x s)) = set (bfs_nodes s) \<union> (\<Union>y \<in> {x} - set (bfs_seen s). set (vertices_for_id g y))"
  "bfs_edges (bfs_visit g x s) = bfs_edges s"
  by (auto simp: bfs_visit_def)

lemma Union_diff_step:
  "(\<Union>x \<in> A - S. f x) \<union> (\<Union>x \<in> B - (S \<union> A). f x) = (\<Union>x \<in> (A \<union> B) - S. f x)"
  by blast

lemma ends_of_Un: "ends_of (A \<union> B) = ends_of A \<union> ends_of B"
  by (auto simp: ends_of_def)

lemma Collect_touches_Un: "{e \<in> A \<union> B. touches F e} = {e \<in> A. touches F e} \<union> {e \<in> B. touches F e}"
  by auto

lemma grows_edge: "grows g (set F) {e} s (bfs_edge g F e s)"
proof (cases "touches (set F) e")
  case False
  then have t: "{x \<in> {e}. touches (set F) x} = {}" "\<not> (edge_from e \<in> set F \<or> edge_to e \<in> set F)"
    by (auto simp: touches_def)
  show ?thesis unfolding grows_def Let_def t(1) bfs_edge_def if_not_P [OF t(2)] by (simp add: ends_of_def)
next
  case True
  then have t: "{x \<in> {e}. touches (set F) x} = {e}" "edge_from e \<in> set F \<or> edge_to e \<in> set F"
    by (auto simp: touches_def)
  show ?thesis
    unfolding grows_def Let_def t(1) bfs_edge_def if_P [OF t(2)] bfs_visit_sets
    by (auto simp: ends_of_def)
qed

lemma grows_trans:
  assumes "grows g F E s t" and "grows g F E' t u"
  shows "grows g F (E \<union> E') s u"
proof -
  let ?A = "ends_of {e \<in> E. touches F e}" and ?B = "ends_of {e \<in> E'. touches F e}"
  note ab = assms [unfolded grows_def Let_def]
  have "set (bfs_nodes u) = set (bfs_nodes s) \<union> (\<Union>x \<in> (?A \<union> ?B) - set (bfs_seen s). set (vertices_for_id g x))"
    unfolding Union_diff_step [symmetric] using ab by (simp only: Un_assoc)
  moreover have "set (bfs_next u) = set (bfs_next s) \<union> ((?A \<union> ?B) - set (bfs_seen s))"
    using ab by (simp only:) blast
  ultimately show ?thesis
    unfolding grows_def Let_def Collect_touches_Un ends_of_Un using ab by (simp only: Un_assoc)
qed

lemma grows_empty: "grows g F {} s s"
  by (simp add: grows_def ends_of_def)

lemma grows_fold: "grows g (set F) (set es) s (fold (bfs_edge g F) es s)"
proof (induction es arbitrary: s)
  case Nil
  then show ?case by (simp add: grows_empty)
next
  case (Cons e es)
  have "grows g (set F) ({e} \<union> set es) s (fold (bfs_edge g F) es (bfs_edge g F e s))"
    by (rule grows_trans [OF grows_edge Cons.IH])
  then show ?case by simp
qed

lemma subgraph_two_rounds:
  assumes "mg_get g vt u = Some r" and "subgraph g u vt 2 = (nodes, edges)"
  shows "set edges = {e \<in> set (mg_edges g). \<exists>x. (x = u \<or> linked_ids (mg_edges g) u x) \<and> touches {x} e}"
    and "set nodes = {r} \<union> (\<Union>x \<in> ends_of (set edges) - {u}. set (vertices_for_id g x))"
proof -
  let ?E = "set (mg_edges g)"
  let ?s0 = "\<lparr>bfs_seen = [u], bfs_next = [], bfs_nodes = [r], bfs_edges = []\<rparr>"
  let ?s1 = "fold (bfs_edge g [u]) (mg_edges g) ?s0"
  let ?s2 = "fold (bfs_edge g (bfs_next ?s1)) (mg_edges g) (?s1\<lparr>bfs_next := []\<rparr>)"
  have res: "nodes = bfs_nodes ?s2" "edges = bfs_edges ?s2"
    using assms(1,2) by (simp_all add: subgraph_def numeral_2_eq_2 Let_def)
  let ?E1 = "{e \<in> ?E. touches {u} e}"
  let ?N = "ends_of ?E1 - {u}"
  have g1: "set (bfs_edges ?s1) = ?E1" "set (bfs_seen ?s1) = {u} \<union> ends_of ?E1" "set (bfs_next ?s1) = ?N"
    "set (bfs_nodes ?s1) = {r} \<union> (\<Union>x \<in> ?N. set (vertices_for_id g x))"
    using grows_fold [of g "[u]" "mg_edges g" ?s0] by (simp_all add: grows_def Let_def)
  let ?E2 = "{e \<in> ?E. touches ?N e}"
  have g2: "set edges = ?E1 \<union> ?E2"
    "set nodes = {r} \<union> (\<Union>x \<in> ?N. set (vertices_for_id g x)) \<union>
      (\<Union>x \<in> ends_of ?E2 - ({u} \<union> ends_of ?E1). set (vertices_for_id g x))"
    using grows_fold [of g "bfs_next ?s1" "mg_edges g" "?s1\<lparr>bfs_next := []\<rparr>"]
    unfolding grows_def Let_def res by (simp_all add: g1)
  have N: "x \<in> ?N \<longleftrightarrow> x \<noteq> u \<and> linked_ids (mg_edges g) u x" for x
    by (auto simp: ends_of_def touches_def linked_ids_def)
  show "set edges = {e \<in> ?E. \<exists>x. (x = u \<or> linked_ids (mg_edges g) u x) \<and> touches {x} e}"
    unfolding g2(1) using N by (auto simp: touches_def)
  have "ends_of (set edges) - {u} = ?N \<union> (ends_of ?E2 - ({u} \<union> ends_of ?E1))"
    unfolding g2(1) by (auto simp: ends_of_def)
  then show "set nodes = {r} \<union> (\<Union>x \<in> ends_of (set edges) - {u}. set (vertices_for_id g x))"
    unfolding g2(2) by auto
qed

section \<open>Answers of the store\<close>

definition stored :: "memory_graph \<Rightarrow> string \<Rightarrow> dict \<Rightarrow> bool" where
  "stored g i n = (\<exists>t label. ((t, label, i), n) \<in> set (mg_vertices g))"

text \<open>No id is used with two vertex types.\<close>

definition unique_ids :: "memory_graph \<Rightarrow> bool" where
  "unique_ids g = distinct (map (\<lambda>((t, label, i), n). i) (mg_vertices g))"

lemma stored_unique:
  assumes "unique_ids g" and "stored g i n" and "stored g i m"
  shows "n = m"
proof -
  obtain t l t' l' where a: "((t, l, i), n) \<in> set (mg_vertices g)" "((t', l', i), m) \<in> set (mg_vertices g)"
    using assms(2,3) by (auto simp: stored_def)
  have "inj_on (\<lambda>((t, label, i), n). i) (set (mg_vertices g))"
    using assms(1) by (simp add: unique_ids_def distinct_map)
  from inj_onD [OF this _ a] show ?thesis by simp
qed

lemma stored_node_id: "mg_inv reg g \<Longrightarrow> stored g i n \<Longrightarrow> node_id n = i \<and> i \<noteq> [] \<and> strip i = i"
  by (force simp: stored_def mg_inv_def vertex_ok_def node_id_def)

lemma set_vertices_for_id: "set (vertices_for_id g i) = {n. stored g i n}"
  by (force simp: vertices_for_id_def stored_def)

lemma by_id_unique:
  assumes "\<forall>n \<in> set nodes. node_id n \<noteq> []"
    and "\<forall>n \<in> set nodes. \<forall>m \<in> set nodes. node_id n = node_id m \<longrightarrow> n = m"
  shows "by_id nodes i = Some n \<longleftrightarrow> n \<in> set nodes \<and> node_id n = i"
proof -
  let ?al = "rev (map (\<lambda>n. (node_id n, n)) nodes)"
  have bi: "by_id nodes i = map_of ?al i" using assms(1) by (simp add: by_id_def filter_True)
  show ?thesis
  proof
    assume "by_id nodes i = Some n"
    then have "(i, n) \<in> set ?al" unfolding bi by (rule map_of_SomeD)
    then show "n \<in> set nodes \<and> node_id n = i" by auto
  next
    assume n: "n \<in> set nodes \<and> node_id n = i"
    then have "i \<in> fst ` set ?al" by force
    then obtain m where m: "map_of ?al i = Some m" by (meson map_of_eq_None_iff not_None_eq)
    then have "(i, m) \<in> set ?al" by (rule map_of_SomeD)
    then have "m = n" using n assms(2) by auto
    then show "by_id nodes i = Some n" using m by (simp add: bi)
  qed
qed

lemma bridges_iff: "bridges nodes i \<longleftrightarrow> (\<exists>n. by_id nodes i = Some n \<and> is_bridge_node n)"
  by (auto simp: bridges_def is_bridge_node_def bridge_labels_def list_ex_iff split: option.splits)

lemma is_user_id_iff: "is_user_id nodes i \<longleftrightarrow> (\<exists>n. by_id nodes i = Some n \<and> is_user_node n)"
  by (auto simp: is_user_id_def split: option.splits)

lemma subgraph_by_id:
  assumes "mg_inv reg g" and "unique_ids g" and "mg_get g vt u = Some r"
    and "subgraph g u vt 2 = (nodes, edges)" and "i = u \<or> i \<in> ends_of (set edges)"
  shows "by_id nodes i = Some n \<longleftrightarrow> stored g i n"
proof -
  have r: "stored g u r" using assms(3) by (auto simp: stored_def mg_get_def dest: map_of_SomeD)
  have nodes: "n \<in> set nodes \<longleftrightarrow> n = r \<or> (\<exists>x \<in> ends_of (set edges) - {u}. stored g x n)" for n
    using subgraph_two_rounds(2) [OF assms(3,4)] by (auto simp: set_vertices_for_id)
  then have st: "stored g (node_id n) n" if "n \<in> set nodes" for n
    using that r stored_node_id [OF assms(1)] by metis
  have "by_id nodes i = Some n \<longleftrightarrow> n \<in> set nodes \<and> node_id n = i"
  proof (rule by_id_unique)
    show "\<forall>n \<in> set nodes. node_id n \<noteq> []" using st stored_node_id [OF assms(1)] by blast
    show "\<forall>n \<in> set nodes. \<forall>m \<in> set nodes. node_id n = node_id m \<longrightarrow> n = m"
      using st stored_unique [OF assms(2)] by metis
  qed
  moreover have "n \<in> set nodes" if "stored g i n"
    using that assms(5) nodes r stored_unique [OF assms(2)] by auto
  ultimately show ?thesis using st stored_node_id [OF assms(1)] by blast
qed

lemma subgraph_links:
  assumes "mg_get g vt u = Some r" and "subgraph g u vt 2 = (nodes, edges)"
    and "a = u \<or> linked_ids (mg_edges g) u a"
  shows "linked_ids edges a b = linked_ids (mg_edges g) a b"
proof -
  note edges = subgraph_two_rounds(1) [OF assms(1,2)]
  have "e \<in> set edges" if "e \<in> set (mg_edges g)" "touches {a} e" for e
    unfolding edges using that assms(3) by blast
  then show ?thesis using edges by (auto simp: linked_ids_def touches_def)
qed

lemma entity_risk_multi:
  assumes inv: "mg_inv reg g" and uniq: "unique_ids g" and get: "mg_get g vt u = Some r"
  shows "x \<in> set (ga_multi (entity_risk_answers g u vt)) \<longleftrightarrow>
    x \<noteq> u \<and> (\<exists>n. stored g x n \<and> is_user_node n) \<and>
    (\<exists>b m. linked_ids (mg_edges g) u b \<and> stored g b m \<and> is_bridge_node m \<and> linked_ids (mg_edges g) b x)"
proof -
  obtain nodes edges where sub: "subgraph g u vt 2 = (nodes, edges)" by fastforce
  have "stored g u r" using get by (auto simp: stored_def mg_get_def dest: map_of_SomeD)
  then have u: "strip u = u" using stored_node_id [OF inv] by blast
  have sube: "set edges \<subseteq> set (mg_edges g)" using subgraph_two_rounds(1) [OF get sub] by auto
  note links = subgraph_links [OF get sub]
  have ends: "i \<in> ends_of (set edges)" if "linked_ids edges j i" for i j
    using that by (auto simp: linked_ids_def ends_of_def)
  have chain: "linked_ids edges u b \<and> bridges nodes b \<and> linked_ids edges b x \<and> is_user_id nodes x \<longleftrightarrow>
    linked_ids (mg_edges g) u b \<and> (\<exists>m. stored g b m \<and> is_bridge_node m) \<and>
    linked_ids (mg_edges g) b x \<and> (\<exists>n. stored g x n \<and> is_user_node n)" for b
  proof (cases "linked_ids (mg_edges g) u b \<and> linked_ids (mg_edges g) b x")
    case True
    then have l: "linked_ids edges u b" "linked_ids edges b x" using links by simp_all
    then have "by_id nodes b = Some n \<longleftrightarrow> stored g b n" "by_id nodes x = Some n \<longleftrightarrow> stored g x n" for n
      using subgraph_by_id [OF inv uniq get sub] ends by blast+
    then have "is_user_id nodes x \<longleftrightarrow> (\<exists>n. stored g x n \<and> is_user_node n)"
      "bridges nodes b \<longleftrightarrow> (\<exists>m. stored g b m \<and> is_bridge_node m)"
      unfolding bridges_iff is_user_id_iff by blast+
    then show ?thesis using True l by auto
  next
    case False
    then show ?thesis using links by blast
  qed
  have "x \<in> set (ga_multi (entity_risk_answers g u vt)) \<longleftrightarrow> x \<noteq> u \<and>
    (\<exists>b. linked_ids edges u b \<and> bridges nodes b \<and> linked_ids edges b x \<and> is_user_id nodes x)"
    using answers_multi [of u nodes "map PDict edges"] linked_named [OF inv sube]
    by (auto simp: entity_risk_answers_def sub u)
  then show ?thesis unfolding chain by blast
qed

section \<open>Roles of a vertex\<close>

lemma is_space_lower [simp]: "is_space (lower_char c) = is_space c"
proof -
  have "(of_char (char_of (of_char c + 32 :: nat)) :: nat) = of_char c + 32"
    if "(of_char c :: nat) \<le> 222" using that by simp
  then show ?thesis by (auto simp: lower_char_def is_space_def Let_def)
qed

lemma strip_lower: "strip (lower s) = lower (strip s)"
  by (simp add: strip_def lower_def dropWhile_map rev_map comp_def)

lemma norm_role_idem [simp]: "norm_role (norm_role s) = norm_role s"
  by (simp add: norm_role_def strip_lower)

lemma role_set_normal: "\<forall>r \<in> set rs. norm_role r = r \<and> r \<noteq> [] \<Longrightarrow> role_set rs = set rs"
  by (force simp: role_set_def)

text \<open>The roles a dictionary of properties carries, as a set.\<close>

definition raw_roles :: "dict \<Rightarrow> string list" where
  "raw_roles props = (case dget props ''roles'' of
       PList xs \<Rightarrow> map py_str xs | PStr s \<Rightarrow> if strip s \<noteq> [] then [s] else [] | _ \<Rightarrow> []) @
     (case dget props ''role'' of PStr s \<Rightarrow> if strip s \<noteq> [] then [s] else [] | _ \<Rightarrow> [])"

lemma set_roles_from_properties: "set (roles_from_properties (PDict props)) = role_set (raw_roles props)"
  by (simp add: roles_from_properties_def merge_roles_props raw_roles_def Let_def) (simp add: role_set_def)

lemma role_set_roles: "role_set (roles_from_properties (PDict props)) = role_set (raw_roles props)"
proof -
  have "\<forall>r \<in> set (roles_from_properties (PDict props)). norm_role r = r \<and> r \<noteq> []"
    by (auto simp: set_roles_from_properties role_set_def)
  then show ?thesis by (simp add: role_set_normal set_roles_from_properties)
qed

lemma dget_dict_update:
  "dget (dict_update d e) k = (if has_key e k then dget (rev e) k else dget d k)"
proof (induction e arbitrary: d rule: rev_induct)
  case Nil
  then show ?case by (simp add: dict_update_def)
next
  case (snoc p e)
  obtain k' v where p: "p = (k', v)" by (cases p)
  have "dict_update d (e @ [p]) = dset k' v (dict_update d e)" by (simp add: dict_update_def p)
  moreover have "has_key (e @ [p]) k \<longleftrightarrow> has_key e k \<or> k = k'"
    by (auto simp: has_key_def p map_of_eq_None_iff)
  ultimately show ?case using snoc by (auto simp: p)
qed

lemma dget_rev: "distinct (map fst e) \<Longrightarrow> dget (rev e) k = dget e k"
  using map_of_inject_set [of "rev e" e] by (simp add: dget_def flip: rev_map)

lemma has_key_iff: "has_key d k \<longleftrightarrow> k \<in> fst ` set d"
  by (simp add: has_key_def map_of_eq_None_iff)

lemma set_alist_keys: "distinct (map fst d) \<Longrightarrow> distinct (map fst (AList.update k v d))"
  by (simp add: distinct_update)

lemma upsert_merge_roles:
  assumes "distinct (map fst props)" and "dget prev ''properties'' = PDict old"
  shows "set (roles_from_properties (dget (upsert_merge prev props tags) ''properties'')) =
    set (roles_from_properties (PDict old)) \<union> set (roles_from_properties (PDict props))"
proof -
  let ?R = "merge_roles (roles_from_properties (PDict old)) (roles_from_properties (PDict props))"
  let ?new = "dset ''roles'' (str_list ?R) props"
  let ?m = "dset ''roles'' (str_list ?R) (dict_update old ?new)"
  have "dget (upsert_merge prev props tags) ''properties'' = PDict ?m"
    using assms(2) by (auto simp: upsert_merge_def props_of_def Let_def split: option.splits)
  moreover have R: "set ?R = role_set (raw_roles old) \<union> role_set (raw_roles props)"
    by (simp add: merge_roles_props role_set_roles)
  have roles: "dget ?m ''roles'' = str_list ?R" by simp
  have role: "dget ?m ''role'' = (if has_key props ''role'' then dget props ''role'' else dget old ''role'')"
    using dget_rev [OF set_alist_keys [OF assms(1)]] by (simp add: dget_dict_update)
  have norm: "role_set ?R = set ?R"
    by (rule role_set_normal) (auto simp: R role_set_def)
  have "role_set (raw_roles ?m) = set ?R \<union> role_set (case dget ?m ''role'' of
      PStr s \<Rightarrow> if strip s \<noteq> [] then [s] else [] | _ \<Rightarrow> [])"
    unfolding raw_roles_def roles norm [symmetric] by (simp add: str_list_def role_set_def image_Un comp_def Un_Diff)
  moreover have "role_set (case dget ?m ''role'' of PStr s \<Rightarrow> if strip s \<noteq> [] then [s] else [] | _ \<Rightarrow> [])
      \<subseteq> set ?R"
    unfolding role R by (auto simp: raw_roles_def role_set_def)
  ultimately show ?thesis using R by (auto simp: set_roles_from_properties)
qed

section \<open>Properties\<close>

definition demo_ops :: "mg_op list" where
  "demo_ops = [Upsert ''user'' ''u1'' [(''role'', PStr ''Seller'')] None, Upsert ''user'' ''u2'' [] None,
     Upsert ''device'' ''d1'' [] None, Upsert ''Ghost'' ''x'' [] None,
     Link ''u1'' ''d1'' ''used device'' None None [], Link ''u2'' ''d1'' ''USED'' None None [],
     Link ''u1'' ''u2'' ''RELATED'' None None []]"

definition demo_graph :: memory_graph where
  "demo_graph = fold (mg_apply empty_registry) demo_ops (mg_init ''t'')"

lemma demo_graph_inv: "mg_inv empty_registry demo_graph"
  unfolding demo_graph_def by (intro mg_run_inv mg_init_inv)

text \<open>
  C3: the store keeps the graph contract.  After any sequence of upserts and links, refused
  ones included, every vertex stands under its \<open>(tenant, vtype, id)\<close> key with a registered type
  and a non-blank id, every edge has a registered type and both its ends are stored, and a
  \<open>RELATED\<close> edge exists only if the tenant registered that type itself.
\<close>

theorem memory_graph_keeps_contract:
  assumes "g = fold (mg_apply reg) ops (mg_init t)"
  shows "mg_inv reg g \<and> mg_tenant g = t \<and>
    (\<forall>e \<in> set (mg_edges g). dget e ''type'' = PStr ''RELATED'' \<longrightarrow> ''RELATED'' \<in> set (reg_etypes reg t))"
proof -
  have inv: "mg_inv reg g" unfolding assms by (intro mg_run_inv mg_init_inv)
  have step: "mg_tenant (mg_apply reg op h) = mg_tenant h" for op h
    by (cases op) (auto simp: upsert_def create_link_def Let_def split: sum.split)
  have "mg_tenant (fold (mg_apply reg) ops h) = mg_tenant h" for h
    by (induction ops arbitrary: h) (simp_all add: step)
  then have t: "mg_tenant g = t" by (simp add: assms mg_init_def)
  have "''RELATED'' \<in> set (reg_etypes reg t)" if "e \<in> set (mg_edges g)" "dget e ''type'' = PStr ''RELATED''" for e
    using inv that t by (auto simp: mg_inv_def edge_ok_def registered_etypes_def core_etypes_def)
  then show ?thesis using inv t by blast
qed

theorem memory_graph_keeps_contract_witness:
  "mg_inv empty_registry demo_graph \<and> mg_tenant demo_graph = ''t''"
  using memory_graph_keeps_contract [OF demo_graph_def] by blast



text \<open>
  Roles only accumulate.  Upserting a vertex that exists answers with its graph id, changes
  no other vertex, and leaves it with exactly the roles it had and those of the new properties,
  each once.
\<close>

theorem upsert_accumulates_roles:
  assumes "mg_get g label eid = Some prev" and "dget prev ''properties'' = PDict old"
    and "require_vtype reg (mg_tenant g) vt = Inr label" and "strip entity_id = eid" and "eid \<noteq> []"
    and "distinct (map fst props)" and "upsert reg vt entity_id props tags g = (r, g')"
  shows "r = Inr (janus_graph_id (mg_tenant g) label eid) \<and>
    (\<exists>n. mg_get g' label eid = Some n \<and>
      set (roles_from_properties (dget n ''properties'')) =
        set (roles_from_properties (PDict old)) \<union> set (roles_from_properties (PDict props))) \<and>
    (\<forall>k. k \<noteq> (mg_tenant g, label, eid) \<longrightarrow> map_of (mg_vertices g') k = map_of (mg_vertices g) k)"
proof -
  have "map_of (mg_vertices g) (mg_tenant g, label, eid) = Some prev" using assms(1) by (simp add: mg_get_def)
  then have "r = Inr (janus_graph_id (mg_tenant g) label eid)" and g': "g' = g\<lparr>mg_vertices :=
      AList.update (mg_tenant g, label, eid) (upsert_merge prev props tags) (mg_vertices g)\<rparr>"
    using assms(3,4,5,7) by (auto simp: upsert_def Let_def)
  then show ?thesis using upsert_merge_roles [OF assms(6,2)] by (auto simp: mg_get_def update_conv')
qed

theorem upsert_accumulates_roles_witness:
  "\<exists>n. mg_get (snd (upsert empty_registry '' user'' ''u1 '' [(''roles'', PStr ''Buyer'')] None demo_graph))
       ''user'' ''u1'' = Some n \<and>
     set (roles_from_properties (dget n ''properties'')) = {''seller'', ''buyer''}"
proof -
  let ?props = "[(''roles'', PStr ''Buyer'')]"
  let ?old = "[(''role'', PStr ''Seller''), (''roles'', PList [PStr ''seller'']),
    (''tenant_id'', PStr ''t''), (''external_id'', PStr ''u1'')]"
  have old: "map_option (\<lambda>p. dget p ''properties'') (mg_get demo_graph ''user'' ''u1'') = Some (PDict ?old)"
    by code_simp
  then obtain prev where prev: "mg_get demo_graph ''user'' ''u1'' = Some prev" "dget prev ''properties'' = PDict ?old"
    by auto
  have vt: "require_vtype empty_registry (mg_tenant demo_graph) '' user'' = Inr ''user''" by code_simp
  have id: "strip ''u1 '' = ''u1''" by code_simp
  obtain r g' where up: "upsert empty_registry '' user'' ''u1 '' ?props None demo_graph = (r, g')" by fastforce
  have "roles_from_properties (PDict ?old) = [''seller'']" "roles_from_properties (PDict ?props) = [''buyer'']"
    by code_simp+
  then show ?thesis
    using upsert_accumulates_roles [OF prev vt id _ _ up] up by (auto simp: insert_commute)
qed

end
