(* ===== verification/Graph_Atoms.thy ===== *)
theory Graph_Atoms
  imports Graph_Contract
begin

text \<open>
  \<open>services/shared/graph_pack_atoms.py\<close>: the view of the graph neighbourhood (the hop) that is
  attached to an evaluation request, its replay from a stored snapshot, and the three
  \<open>graph_v1\<close> predicates rule packs may use on it.

  A hop is the dictionary the code builds.  Iterating over a field that a stored snapshot got
  wrong can raise; the evaluator returns a result for that reason.
\<close>

section \<open>Tokens\<close>

definition schema_id :: string where "schema_id = ''tarka.graph_pack_atoms/v1''"

definition hop_feature_key :: string where "hop_feature_key = ''_graph_hop_v1''"

definition pack_hop_etypes :: "string list" where
  "pack_hop_etypes = [''USES_DEVICE'', ''HAS_EMAIL'', ''HAS_PHONE'', ''HAS_CARD'', ''HAS_LIST'',
     ''SEEN_FROM_IP'', ''SEEN_AT'', ''PAYS_WITH'', ''REDEEMS'', ''ON_ORDER'', ''PARTY_WITH'']"

definition etype_write_to_pack :: "(string \<times> string) list" where
  "etype_write_to_pack = [(''USED_DEVICE'', ''USES_DEVICE''), (''USED'', ''USES_DEVICE''),
     (''USED_IP'', ''SEEN_FROM_IP''), (''MADE_PAYMENT'', ''PAYS_WITH'')]"

definition missing_statuses :: "string list" where
  "missing_statuses = [''graph:missing'', ''graph:unavailable'', ''graph:empty'']"

definition positive_flags :: "string list" where
  "positive_flags = [''1'', ''true'', ''flag'', ''flagged'', ''fraud'', ''block'', ''blocked'']"

definition canonical_pack_etype :: "string \<Rightarrow> string" where
  "canonical_pack_etype raw = (let token = norm_etype raw in
     case map_of etype_write_to_pack token of Some t \<Rightarrow> t | None \<Rightarrow> token)"

definition signed_pack_etypes :: "registry \<Rightarrow> string \<Rightarrow> string list" where
  "signed_pack_etypes reg t = sort (remdups (pack_hop_etypes @ core_etypes @ registered_etypes reg t))"

definition require_pack_etype :: "registry \<Rightarrow> string \<Rightarrow> string \<Rightarrow> graph_err + string" where
  "require_pack_etype reg t etype = (let token = norm_etype etype in
     if token = [] \<or> \<not> safe_token token \<or> token \<notin> set (signed_pack_etypes reg t)
     then Inl (UnsignedGraphToken ''etype'' etype t) else Inr token)"

definition refuse_pack_etype_token :: "string \<Rightarrow> graph_err + string" where
  "refuse_pack_etype_token etype = (let token = norm_etype etype in
     if token = [] \<or> \<not> safe_token token \<or> token = ''RELATED''
     then Inl (UnsignedGraphToken ''etype'' etype []) else Inr token)"

section \<open>Sibling flags\<close>

fun positive_flag :: "pyval \<Rightarrow> bool" where
  "positive_flag (PBool b) = b"
| "positive_flag PNone = False"
| "positive_flag (PInt i) = (i = 1)"
| "positive_flag (PFloat f) = (f = Fin 1)"
| "positive_flag v = (lower (strip (py_str v)) \<in> set positive_flags)"

definition atom_node_id :: "dict \<Rightarrow> string" where
  "atom_node_id node = (let props = (case dget node ''properties'' of PDict d \<Rightarrow> d | _ \<Rightarrow> []) in
     strip (str_or_empty (py_or (dget node ''id'') (py_or (dget node ''external_id'')
       (py_or (dget node ''entity_id'') (py_or (dget props ''external_id'') (dget props ''id'')))))))"

definition iter_nodes :: "dict \<Rightarrow> dict list" where
  "iter_nodes raw = concat (map (\<lambda>k. case dget raw k of PList xs \<Rightarrow> dict_vals xs | _ \<Rightarrow> [])
     [''vertices'', ''nodes''])"

text \<open>The flag one dictionary (a node or its properties) carries.\<close>

definition src_flag :: "dict \<Rightarrow> pyval option" where
  "src_flag src = (case List.find (\<lambda>k. has_key src k \<and> dget src k \<noteq> PNone \<and> dget src k \<noteq> PStr [])
       [''y_label'', ''FLAG'', ''flag''] of
     Some k \<Rightarrow> Some (dget src k)
   | None \<Rightarrow> (case dget src ''tags'' of
       PList ts \<Rightarrow> if list_ex (\<lambda>t. lower (strip (py_str t)) \<in> set positive_flags) ts
         then Some (PStr ''FLAG'') else None
     | _ \<Rightarrow> None))"

definition node_flag_value :: "dict \<Rightarrow> pyval" where
  "node_flag_value node = (case src_flag node of Some v \<Rightarrow> v
     | None \<Rightarrow> (case dget node ''properties'' of
         PDict p \<Rightarrow> (case src_flag p of Some v \<Rightarrow> v | None \<Rightarrow> PNone)
       | _ \<Rightarrow> PNone))"

definition bag_flags :: "string \<Rightarrow> dict \<Rightarrow> dict \<Rightarrow> dict" where
  "bag_flags sid bag flags = fold (\<lambda>(uid, val) acc. let token = strip uid in
     if token \<noteq> [] \<and> token \<noteq> sid \<and> positive_flag val then dset token val acc else acc) bag flags"

definition sibling_flags_from_payload :: "pyval \<Rightarrow> string list \<Rightarrow> string \<Rightarrow> dict" where
  "sibling_flags_from_payload payload multi_ids subject_id = (case payload of PDict raw \<Rightarrow> (let
     sid = strip subject_id;
     f1 = fold (\<lambda>k acc. case dget raw k of PDict bag \<Rightarrow> bag_flags sid bag acc | _ \<Rightarrow> acc)
       [''sibling_y_labels'', ''y_labels''] [];
     f2 = (case dget raw ''flagged_user_ids'' of
         PList us \<Rightarrow> fold (\<lambda>u acc. let token = strip (py_str u) in
           if token \<noteq> [] \<and> token \<noteq> sid then dset token (PStr ''FLAG'') acc else acc) us f1
       | _ \<Rightarrow> f1);
     f3 = fold (\<lambda>n acc. let nid = atom_node_id n; val = node_flag_value n in
         if nid = [] \<or> nid = sid then acc else if positive_flag val then dset nid val acc else acc)
       (iter_nodes raw) f2;
     multi = remdups (filter (\<lambda>s. s \<noteq> []) (map strip multi_ids))
     in if multi \<noteq> [] then List.map_filter (\<lambda>u. map_option (Pair u) (map_of f3 u)) multi else f3)
   | _ \<Rightarrow> [])"

section \<open>Hop views\<close>

definition graph_is_missing :: "string \<Rightarrow> string list \<Rightarrow> bool" where
  "graph_is_missing graph_url degrade_tags = (strip graph_url = [] \<or> ''graph:missing'' \<in> set degrade_tags)"

definition blank_hop :: "registry \<Rightarrow> string \<Rightarrow> string \<Rightarrow> string \<Rightarrow> dict" where
  "blank_hop reg status tenant_id subject_id =
     [(''schema_id'', PStr schema_id), (''status'', PStr status), (''tenant_id'', PStr tenant_id),
      (''subject_id'', PStr subject_id), (''named_edges'', PList []), (''multi_id_user_ids'', PList []),
      (''roles'', PList []), (''sibling_flags'', PDict []),
      (''signed_etypes'', str_list (signed_pack_etypes reg tenant_id)), (''invented_edges'', PBool False)]"

definition answers_hop :: "string \<Rightarrow> string \<Rightarrow> string \<Rightarrow> graph_answers \<Rightarrow> dict \<Rightarrow> pyval \<Rightarrow> dict" where
  "answers_hop status tenant_id subject_id answers flags signed =
     [(''schema_id'', PStr schema_id), (''status'', PStr status), (''tenant_id'', PStr tenant_id),
      (''subject_id'', PStr subject_id), (''named_edges'', PList (map edge_dict (ga_edges answers))),
      (''multi_id_user_ids'', str_list (ga_multi answers)), (''roles'', str_list (ga_roles answers)),
      (''sibling_flags'', PDict flags), (''signed_etypes'', signed), (''invented_edges'', PBool False)]"

definition hop_view_from_graph_meta :: "registry \<Rightarrow> pyval \<Rightarrow> string \<Rightarrow> string list \<Rightarrow> string \<Rightarrow> string \<Rightarrow> dict" where
  "hop_view_from_graph_meta reg graph_meta graph_url degrade_tags tenant_id subject_id =
     (if graph_is_missing graph_url degrade_tags then blank_hop reg ''graph:missing'' tenant_id subject_id
      else (case graph_meta of
          PDict meta \<Rightarrow> (let status = str_or_empty (dget meta ''status'') in
            if status \<in> set missing_statuses then blank_hop reg status tenant_id subject_id
            else (let answers = consume_graph_answers graph_meta in
              answers_hop ''graph:ok'' tenant_id subject_id answers
                (sibling_flags_from_payload graph_meta (ga_multi answers) subject_id)
                (str_list (signed_pack_etypes reg tenant_id))))
        | _ \<Rightarrow> blank_hop reg ''graph:empty'' tenant_id subject_id))"

text \<open>The string expression \<open>a or str(v or "")\<close>.\<close>

definition or_str :: "string \<Rightarrow> pyval \<Rightarrow> string" where
  "or_str a v = (if a \<noteq> [] then a else str_or_empty v)"

definition as_stored_hop :: "registry \<Rightarrow> dict \<Rightarrow> string \<Rightarrow> string \<Rightarrow> dict option" where
  "as_stored_hop reg raw tenant_id subject_id = (let status = str_or_empty (dget raw ''status'') in
     if status \<in> set missing_statuses then Some (blank_hop reg status tenant_id subject_id)
     else if dget raw ''schema_id'' = PStr schema_id \<or> has_key raw ''signed_etypes'' \<or> has_key raw ''sibling_flags''
     then (let answers = consume_graph_answers (PDict raw);
         flags = (case dget raw ''sibling_flags'' of PDict f \<Rightarrow> f
           | _ \<Rightarrow> sibling_flags_from_payload (PDict raw) (ga_multi answers) subject_id)
       in Some (answers_hop (if status = [] then ''graph:ok'' else status)
           (or_str tenant_id (dget raw ''tenant_id'')) (or_str subject_id (dget raw ''subject_id''))
           answers flags
           (case dget raw ''signed_etypes'' of PList xs \<Rightarrow> PList (map (\<lambda>x. PStr (py_str x)) xs)
             | _ \<Rightarrow> PList [])))
     else if dget raw ''named_edges'' \<noteq> PNone \<or> dget raw ''multi_id_user_ids'' \<noteq> PNone
     then Some (hop_view_from_graph_meta reg (PDict raw) ''snapshot'' [] tenant_id subject_id)
     else None)"

definition snapshot_candidates :: "dict \<Rightarrow> pyval list" where
  "snapshot_candidates snap =
     [dget snap hop_feature_key, dget snap ''graph_hop_v1'',
      (case dget snap ''pack_why'' of PDict why \<Rightarrow> dget why ''graph'' | _ \<Rightarrow> PNone),
      dget snap ''subgraph_snapshot'', dget snap ''inference_context'']"

fun first_stored_hop :: "registry \<Rightarrow> string \<Rightarrow> string \<Rightarrow> pyval list \<Rightarrow> dict option" where
  "first_stored_hop reg tid sid [] = None"
| "first_stored_hop reg tid sid (c # cs) = (case c of
       PDict raw \<Rightarrow> (let status = str_or_empty (dget raw ''status'') in
         if status \<in> set missing_statuses
         then Some (blank_hop reg status (or_str tid (dget raw ''tenant_id'')) (or_str sid (dget raw ''entity_id'')))
         else (case as_stored_hop reg raw tid sid of
             Some hop \<Rightarrow> Some hop | None \<Rightarrow> first_stored_hop reg tid sid cs))
     | _ \<Rightarrow> first_stored_hop reg tid sid cs)"

definition hop_view_from_snapshot :: "registry \<Rightarrow> pyval \<Rightarrow> string \<Rightarrow> string \<Rightarrow> dict" where
  "hop_view_from_snapshot reg snapshot tenant_id subject_id = (case snapshot of
       PDict snap \<Rightarrow> (let tid = or_str tenant_id (dget snap ''tenant_id'');
           sid = or_str subject_id (py_or (dget snap ''entity_id'') (dget snap ''subject_id''))
         in case first_stored_hop reg tid sid (snapshot_candidates snap) of
             Some hop \<Rightarrow> hop | None \<Rightarrow> blank_hop reg ''graph:empty'' tid sid)
     | _ \<Rightarrow> blank_hop reg ''graph:missing'' tenant_id subject_id)"

section \<open>Predicates\<close>

definition hop_is_present :: "dict option \<Rightarrow> bool" where
  "hop_is_present hop = (case hop of None \<Rightarrow> False
     | Some h \<Rightarrow> str_or_empty (dget h ''status'') \<notin> set missing_statuses \<and> dget h ''status'' \<noteq> PStr [])"

definition hop_items :: "dict \<Rightarrow> string \<Rightarrow> pyval list res" where
  "hop_items hop k = py_iter (py_or (dget hop k) (PList []))"

text \<open>The lock on the role: \<open>Inr True\<close> to go on, \<open>Inr False\<close> for a predicate that is false.\<close>

definition role_allows :: "registry \<Rightarrow> string \<Rightarrow> dict \<Rightarrow> string option \<Rightarrow> bool res" where
  "role_allows reg tid hop role = (case (case role of None \<Rightarrow> [] | Some r \<Rightarrow> r) of
       [] \<Rightarrow> Inr True
     | r \<Rightarrow> (case require_role reg tid r of
           Inl _ \<Rightarrow> Inr False
         | Inr token \<Rightarrow> (case hop_items hop ''roles'' of
               Inl e \<Rightarrow> Inl e
             | Inr xs \<Rightarrow> Inr (token \<in> set (map (\<lambda>x. lower (strip (py_str x))) xs)))))"

definition edge_etype :: "dict \<Rightarrow> string" where
  "edge_etype edge = str_or_empty (py_or (dget edge ''type'') (dget edge ''etype''))"

definition eval_graph_v1 :: "registry \<Rightarrow> string \<Rightarrow> dict option \<Rightarrow> string option \<Rightarrow> string option \<Rightarrow> string \<Rightarrow> bool res" where
  "eval_graph_v1 reg atom hop_opt etype role tenant_id = (if \<not> hop_is_present hop_opt then Inr False
     else (let hop = the hop_opt; tid = or_str tenant_id (dget hop ''tenant_id'') in
       case role_allows reg tid hop role of Inl e \<Rightarrow> Inl e | Inr ok \<Rightarrow>
       if \<not> ok then Inr False
       else if strip atom = ''has_etype'' then
         (case require_pack_etype reg tid (case etype of None \<Rightarrow> [] | Some e \<Rightarrow> e) of
            Inl _ \<Rightarrow> Inr False
          | Inr want \<Rightarrow> (case hop_items hop ''named_edges'' of
              Inl e \<Rightarrow> Inl e
            | Inr es \<Rightarrow> Inr (list_ex (\<lambda>edge. canonical_pack_etype (edge_etype edge) = canonical_pack_etype want)
                (dict_vals es))))
       else if strip atom = ''has_multi_id'' then
         (case hop_items hop ''multi_id_user_ids'' of
            Inl e \<Rightarrow> Inl e
          | Inr xs \<Rightarrow> Inr (list_ex (\<lambda>x. strip (py_str x) \<noteq> []) xs))
       else if strip atom = ''sibling_prior_flag'' then
         (case dget hop ''sibling_flags'' of
            PDict flags \<Rightarrow> Inr (list_ex positive_flag (map snd flags))
          | _ \<Rightarrow> Inr False)
       else Inr False))"

definition eval_graph_v1_from_features :: "registry \<Rightarrow> dict \<Rightarrow> string \<Rightarrow> string option \<Rightarrow> string option \<Rightarrow>
    string \<Rightarrow> bool res" where
  "eval_graph_v1_from_features reg features atom etype role tenant_id =
     eval_graph_v1 reg atom (dict_of (dget features hop_feature_key)) etype role
       (or_str tenant_id (dget features ''_graph_hop_tenant_id''))"

definition attach_hop_to_features :: "dict \<Rightarrow> dict \<Rightarrow> dict" where
  "attach_hop_to_features features hop =
     dset ''_graph_hop_tenant_id'' (py_or (dget hop ''tenant_id'') (PStr []))
       (dset hop_feature_key (PDict hop) features)"

definition etype_atom :: "string \<Rightarrow> pyval" where
  "etype_atom et = PDict [(''atom'', PStr ''has_etype''), (''etype'', PStr et)]"

definition plain_atom :: "string \<Rightarrow> pyval" where
  "plain_atom a = PDict [(''atom'', PStr a)]"

fun fired_etypes :: "registry \<Rightarrow> string \<Rightarrow> dict \<Rightarrow> pyval list \<Rightarrow> string list \<Rightarrow> string list res" where
  "fired_etypes reg tid hop [] seen = Inr seen"
| "fired_etypes reg tid hop (e # es) seen = (case e of
       PDict edge \<Rightarrow> (let et = norm_etype (edge_etype edge) in
         if et = [] \<or> et \<in> set seen then fired_etypes reg tid hop es seen
         else (case eval_graph_v1 reg ''has_etype'' (Some hop) (Some et) None tid of
             Inl err \<Rightarrow> Inl err
           | Inr ok \<Rightarrow> fired_etypes reg tid hop es (if ok then seen @ [et] else seen)))
     | _ \<Rightarrow> fired_etypes reg tid hop es seen)"

definition fired_graph_v1_atoms :: "registry \<Rightarrow> dict option \<Rightarrow> string \<Rightarrow> pyval list res" where
  "fired_graph_v1_atoms reg hop_opt tenant_id = (if \<not> hop_is_present hop_opt then Inr []
     else (let hop = the hop_opt; tid = or_str tenant_id (dget hop ''tenant_id'') in
       case hop_items hop ''named_edges'' of Inl e \<Rightarrow> Inl e | Inr es \<Rightarrow>
       (case fired_etypes reg tid hop es [] of Inl e \<Rightarrow> Inl e | Inr ets \<Rightarrow>
       (case eval_graph_v1 reg ''has_multi_id'' hop_opt None None tid of Inl e \<Rightarrow> Inl e | Inr mi \<Rightarrow>
       (case eval_graph_v1 reg ''sibling_prior_flag'' hop_opt None None tid of Inl e \<Rightarrow> Inl e | Inr sf \<Rightarrow>
         Inr (map etype_atom ets @ (if mi then [plain_atom ''has_multi_id''] else [])
           @ (if sf then [plain_atom ''sibling_prior_flag''] else [])))))))"

definition atom_name :: "pyval \<Rightarrow> string" where
  "atom_name item = (case item of PDict d \<Rightarrow>
       (if truthy (dget d ''etype'') then py_str (dget d ''atom'') @ '':'' @ py_str (dget d ''etype'')
        else py_str (dget d ''atom''))
     | _ \<Rightarrow> [])"

definition named_from_hop :: "registry \<Rightarrow> dict option \<Rightarrow> string \<Rightarrow> string res" where
  "named_from_hop reg hop_opt tenant_id = (if \<not> hop_is_present hop_opt then Inr ''graph:missing''
     else (case fired_graph_v1_atoms reg hop_opt tenant_id of Inl e \<Rightarrow> Inl e
       | Inr items \<Rightarrow> Inr (if items \<noteq> [] then join_str ''+'' (map atom_name items)
           else py_str (py_or (dget (the hop_opt) ''status'') (PStr ''graph:ok'')))))"

definition pack_why_from_hop :: "registry \<Rightarrow> dict option \<Rightarrow> dict res" where
  "pack_why_from_hop reg hop_opt = (let
     a = (case hop_opt of Some h \<Rightarrow> h | None \<Rightarrow> blank_hop reg ''graph:missing'' [] []) in
     case fired_graph_v1_atoms reg (Some a) [] of Inl e \<Rightarrow> Inl e | Inr fired \<Rightarrow>
     (case named_from_hop reg (Some a) [] of Inl e \<Rightarrow> Inl e | Inr named \<Rightarrow>
       Inr (dset ''named'' (PStr named) (dset ''fired'' (PList fired)
         (dset ''signed_etypes'' (py_or (dget a ''signed_etypes'') (PList []))
         (dset ''sibling_flags'' (py_or (dget a ''sibling_flags'') (PDict []))
         (dset ''schema_id'' (PStr schema_id)
         (dset ''status'' (py_or (dget a ''status'') (PStr ''graph:missing''))
           (pack_why_from_graph_answers (PDict a))))))))))"

section \<open>Views survive storage\<close>

lemma named_edges_edge_dict:
  assumes "\<forall>e \<in> set es. strip (ne_from e) = ne_from e \<and> strip (ne_to e) = ne_to e \<and> strip (ne_type e) = ne_type e
     \<and> ne_from e \<noteq> [] \<and> ne_to e \<noteq> [] \<and> ne_type e \<noteq> []"
  shows "named_edges_of (map edge_dict es) = es"
proof -
  have "Option.bind (dict_of (edge_dict e)) name_edge = Some e" if "e \<in> set es" for e
    using that assms by (simp add: edge_dict_def name_edge_def first_field_def)
  then show ?thesis
    by (induction es) (simp_all add: named_edges_of_def map_filter_simps)
qed

lemma name_edge_normal:
  "name_edge e = Some n \<Longrightarrow> strip (ne_from n) = ne_from n \<and> strip (ne_to n) = ne_to n \<and>
     strip (ne_type n) = ne_type n \<and> ne_from n \<noteq> [] \<and> ne_to n \<noteq> [] \<and> ne_type n \<noteq> []"
  by (auto simp: name_edge_def first_field_def Let_def split: if_splits)

lemma named_edges_again: "named_edges_of (map edge_dict (named_edges_of xs)) = named_edges_of xs"
proof (rule named_edges_edge_dict, rule ballI)
  fix e assume "e \<in> set (named_edges_of xs)"
  then obtain d where "name_edge d = Some e"
    by (auto simp: named_edges_of_def map_filter_def bind_eq_Some_conv)
  then show "strip (ne_from e) = ne_from e \<and> strip (ne_to e) = ne_to e \<and> strip (ne_type e) = ne_type e
     \<and> ne_from e \<noteq> [] \<and> ne_to e \<noteq> [] \<and> ne_type e \<noteq> []" by (rule name_edge_normal)
qed

lemma stripped_items_again:
  "\<forall>s \<in> set xs. s \<noteq> [] \<and> strip s = s \<Longrightarrow> stripped_items (str_list xs) = xs"
  unfolding stripped_items_def str_list_def by (induction xs) auto

lemma stripped_items_normal: "\<forall>s \<in> set (stripped_items v). s \<noteq> [] \<and> strip s = s"
  by (cases v) (auto simp: stripped_items_def)

lemma edge_items_again: "edge_items (PList (map edge_dict (edge_items v))) = edge_items v"
  by (cases v) (simp_all add: edge_items_def named_edges_again, simp_all add: named_edges_of_def map_filter_simps)

definition answers_normal :: "graph_answers \<Rightarrow> bool" where
  "answers_normal a = ((\<forall>s \<in> set (ga_roles a). s \<noteq> [] \<and> strip s = s) \<and>
     (\<forall>s \<in> set (ga_multi a). s \<noteq> [] \<and> strip s = s) \<and>
     edge_items (PList (map edge_dict (ga_edges a))) = ga_edges a)"

lemma consume_answers_normal: "answers_normal (consume_graph_answers meta)"
proof (cases "\<exists>m. meta = PDict m")
  case True
  then obtain m where m: "meta = PDict m" by blast
  show ?thesis
    unfolding m consume_graph_answers_def answers_normal_def pyval.case graph_answers.select_convs
    by (intro conjI stripped_items_normal edge_items_again)
next
  case False
  then have "consume_graph_answers meta = empty_graph_answers"
    by (cases meta) (auto simp: consume_graph_answers_def)
  then show ?thesis
    by (simp add: answers_normal_def empty_graph_answers_def edge_items_def named_edges_of_def map_filter_simps)
qed

text \<open>Reading the answers of a hop gives back the answers it was built from.\<close>

lemma consume_answers_hop:
  "answers_normal a \<Longrightarrow> consume_graph_answers (PDict (answers_hop st t s a flags signed)) = a"
  by (cases a) (simp add: consume_graph_answers_def answers_hop_def answers_normal_def stripped_items_again)

lemma signed_again: "PList (map (\<lambda>x. PStr (py_str x)) (map PStr xs)) = str_list xs"
  by (simp add: str_list_def comp_def)

text \<open>A hop is either blank with one of the missing statuses, or built from consumed answers.\<close>

lemma hop_view_cases:
  obtains (blank) st where "hop_view_from_graph_meta reg meta url tags t s = blank_hop reg st t s"
      "st \<in> set missing_statuses"
  | (present) a flags where "hop_view_from_graph_meta reg meta url tags t s =
        answers_hop ''graph:ok'' t s a flags (str_list (signed_pack_etypes reg t))"
      "a = consume_graph_answers meta" "\<not> graph_is_missing url tags" "\<exists>m. meta = PDict m"
      "flags = sibling_flags_from_payload meta (ga_multi a) s"
proof (cases "graph_is_missing url tags")
  case True
  then show ?thesis using blank [of "''graph:missing''"]
    by (simp add: hop_view_from_graph_meta_def missing_statuses_def)
next
  case False
  show ?thesis
  proof (cases "\<exists>m. meta = PDict m")
    case True
    then obtain m where m: "meta = PDict m" by blast
    show ?thesis
    proof (cases "str_or_empty (dget m ''status'') \<in> set missing_statuses")
      case True
      then show ?thesis using blank [of "str_or_empty (dget m ''status'')"] False
        by (simp add: hop_view_from_graph_meta_def m)
    next
      case nm: False
      then show ?thesis using present [OF _ refl False _ refl] False m
        by (simp add: hop_view_from_graph_meta_def Let_def)
    qed
  next
    case nd: False
    then have "hop_view_from_graph_meta reg meta url tags t s = blank_hop reg ''graph:empty'' t s"
      using False by (cases meta) (auto simp: hop_view_from_graph_meta_def)
    then show ?thesis using blank by (simp add: missing_statuses_def)
  qed
qed

lemma answers_hop_fields [simp]:
  "dget (answers_hop st t s a flags signed) ''status'' = PStr st"
  "dget (answers_hop st t s a flags signed) ''schema_id'' = PStr schema_id"
  "dget (answers_hop st t s a flags signed) ''tenant_id'' = PStr t"
  "dget (answers_hop st t s a flags signed) ''sibling_flags'' = PDict flags"
  "dget (answers_hop st t s a flags signed) ''signed_etypes'' = signed"
  "dget (answers_hop st t s a flags signed) ''named_edges'' = PList (map edge_dict (ga_edges a))"
  "dget (answers_hop st t s a flags signed) ''multi_id_user_ids'' = str_list (ga_multi a)"
  by (simp_all add: answers_hop_def)

lemma blank_hop_status [simp]: "dget (blank_hop reg st t s) ''status'' = PStr st"
  by (simp add: blank_hop_def)

lemma graph_ok_present: "''graph:ok'' \<notin> set missing_statuses"
  by (simp add: missing_statuses_def)

lemma first_stored_hop_view:
  assumes "t \<noteq> []" and "s \<noteq> []"
  shows "first_stored_hop reg t s (PDict (hop_view_from_graph_meta reg meta url tags t s) # cs) =
    Some (hop_view_from_graph_meta reg meta url tags t s)"
proof (cases rule: hop_view_cases [of reg meta url tags t s])
  case (blank st)
  then show ?thesis using assms by (simp add: or_str_def)
next
  case (present a flags)
  have a: "answers_normal a" using present(2) consume_answers_normal by simp
  have "as_stored_hop reg (answers_hop ''graph:ok'' t s a flags (str_list (signed_pack_etypes reg t))) t s =
      Some (answers_hop ''graph:ok'' t s a flags (str_list (signed_pack_etypes reg t)))"
    using assms consume_answers_hop [OF a]
    by (simp add: as_stored_hop_def graph_ok_present or_str_def Let_def) (simp add: str_list_def comp_def)
  then show ?thesis unfolding present(1) by (simp add: graph_ok_present)
qed

section \<open>Properties\<close>

text \<open>
  C22: replay reads back what evaluation saw.  Storing the hop of a request under the hop key of
  a snapshot and rebuilding the hop from that snapshot for the same tenant and subject gives
  the identical hop, whatever else the snapshot holds and whatever the registry says, so every
  \<open>graph_v1\<close> predicate replays with the value it had.
\<close>

theorem hop_replay_roundtrip:
  assumes "t \<noteq> []" and "s \<noteq> []" and "hop = hop_view_from_graph_meta reg meta url tags t s"
    and "dget snap hop_feature_key = PDict hop"
  shows "hop_view_from_snapshot reg (PDict snap) t s = hop \<and>
    eval_graph_v1 reg atom (Some (hop_view_from_snapshot reg (PDict snap) t s)) etype role t =
      eval_graph_v1_from_features reg (attach_hop_to_features feats hop) atom etype role t"
proof -
  have "hop_view_from_snapshot reg (PDict snap) t s = hop"
    using assms(1,2,4) first_stored_hop_view [OF assms(1,2)]
    by (simp add: hop_view_from_snapshot_def snapshot_candidates_def or_str_def Let_def assms(3)
        del: first_stored_hop.simps)
  moreover have "dget (attach_hop_to_features feats hop) hop_feature_key = PDict hop"
    by (simp add: attach_hop_to_features_def hop_feature_key_def)
  ultimately show ?thesis using assms(1) by (simp add: eval_graph_v1_from_features_def or_str_def)
qed

theorem hop_replay_roundtrip_witness:
  "hop_view_from_snapshot empty_registry (PDict [(hop_feature_key, PDict (hop_view_from_graph_meta empty_registry
       (PDict [(''multi_id_user_ids'', PList [PStr '' u2 ''])]) ''http://graph'' [] ''t'' ''u1''))]) ''t'' ''u1'' =
   hop_view_from_graph_meta empty_registry (PDict [(''multi_id_user_ids'', PList [PStr '' u2 ''])])
     ''http://graph'' [] ''t'' ''u1''"
  using hop_replay_roundtrip [of "''t''" "''u1''" _ empty_registry
      "PDict [(''multi_id_user_ids'', PList [PStr '' u2 ''])]" "''http://graph''" "[]"]
  by simp

text \<open>The predicate \<open>has_etype\<close> on a list of named edges, as it is meant.\<close>

definition etype_spec :: "registry \<Rightarrow> string \<Rightarrow> named_edge list \<Rightarrow> string \<Rightarrow> bool" where
  "etype_spec reg t es e = (safe_token (norm_etype e) \<and> norm_etype e \<in> set (signed_pack_etypes reg t) \<and>
     (\<exists>x \<in> set es. canonical_pack_etype (ne_type x) = canonical_pack_etype e))"

lemma safe_token_Nil [simp]: "\<not> safe_token []"
  by (simp add: safe_token_def)

lemma canonical_norm [simp]: "canonical_pack_etype (norm_etype e) = canonical_pack_etype e"
  by (simp add: canonical_pack_etype_def)

lemma require_pack_etype_iff:
  "require_pack_etype reg t e = (if safe_token (norm_etype e) \<and> norm_etype e \<in> set (signed_pack_etypes reg t)
     then Inr (norm_etype e) else Inl (UnsignedGraphToken ''etype'' e t))"
  by (auto simp: require_pack_etype_def Let_def)

lemma dict_vals_edges: "dict_vals (map edge_dict es) =
    map (\<lambda>e. [(''from_id'', PStr (ne_from e)), (''to_id'', PStr (ne_to e)), (''type'', PStr (ne_type e))]) es"
  by (induction es) (simp_all add: dict_vals_def edge_dict_def map_filter_simps)

lemma edge_etype_edge: "edge_etype [(''from_id'', PStr (ne_from e)),
    (''to_id'', PStr (ne_to e)), (''type'', PStr (ne_type e))] = ne_type e"
  by (cases "ne_type e = []") (simp_all add: edge_etype_def)

lemma answers_hop_present: "hop_is_present (Some (answers_hop ''graph:ok'' t s a flags signed))"
  by (simp add: hop_is_present_def graph_ok_present)

lemma hop_items_edges:
  "hop_items (answers_hop st t s a flags signed) ''named_edges'' = Inr (map edge_dict (ga_edges a))"
  by (simp add: hop_items_def py_or_def)

lemma eval_has_etype_present:
  assumes "t \<noteq> []"
  shows "eval_graph_v1 reg ''has_etype'' (Some (answers_hop ''graph:ok'' t s a flags signed)) (Some e) None t =
    Inr (etype_spec reg t (ga_edges a) e)"
proof -
  have "strip ''has_etype'' = ''has_etype''" by (rule strip_eqI) (simp add: is_space_def)
  moreover have "list_ex (\<lambda>edge. canonical_pack_etype (edge_etype edge) = canonical_pack_etype e)
      (dict_vals (map edge_dict (ga_edges a))) \<longleftrightarrow>
    (\<exists>x \<in> set (ga_edges a). canonical_pack_etype (ne_type x) = canonical_pack_etype e)"
    by (simp add: dict_vals_edges list_ex_iff edge_etype_edge)
  ultimately show ?thesis using assms
    by (auto simp: eval_graph_v1_def answers_hop_present role_allows_def hop_items_edges
        require_pack_etype_iff etype_spec_def or_str_def Let_def)
qed

lemma eval_missing: "\<not> hop_is_present hop \<Longrightarrow> eval_graph_v1 reg atom hop etype role t = Inr False"
  by (simp add: eval_graph_v1_def)

lemma blank_hop_missing: "st \<in> set missing_statuses \<Longrightarrow> \<not> hop_is_present (Some (blank_hop reg st t s))"
  by (simp add: hop_is_present_def)

text \<open>
  \<open>has_etype\<close> means what it says.  For a tenant, a signed edge type is reported on the hop of
  a payload exactly when the payload carries a complete edge of that type, counting the names
  under which the graph writes it; an unsigned or malformed type is never reported; and when no
  graph is configured or it is tagged missing, every predicate of any kind is false.
\<close>

theorem has_etype_exact:
  assumes "t \<noteq> []" and "hop = hop_view_from_graph_meta reg meta url tags t s"
  shows "(graph_is_missing url tags \<longrightarrow> (\<forall>atom etype role. eval_graph_v1 reg atom (Some hop) etype role t = Inr False)) \<and>
    (hop_is_present (Some hop) \<longrightarrow>
      eval_graph_v1 reg ''has_etype'' (Some hop) (Some e) None t =
        Inr (etype_spec reg t (ga_edges (consume_graph_answers meta)) e))"
proof (cases rule: hop_view_cases [of reg meta url tags t s])
  case (blank st)
  then show ?thesis using assms(2) blank_hop_missing eval_missing by metis
next
  case (present a flags)
  then show ?thesis using eval_has_etype_present [OF assms(1)] assms(2) by simp
qed

definition demo_meta :: pyval where
  "demo_meta = PDict [(''named_edges'', PList [PDict [(''src'', PStr ''u1''), (''dst'', PStr ''d1''),
     (''rel'', PStr ''used device'')]])]"

theorem has_etype_exact_witness:
  "eval_graph_v1 empty_registry ''has_etype'' (Some (hop_view_from_graph_meta empty_registry demo_meta
     ''http://graph'' [] ''t'' ''u1'')) (Some ''uses-device'') None ''t'' = Inr True"
proof -
  have "hop_is_present (Some (hop_view_from_graph_meta empty_registry demo_meta ''http://graph'' [] ''t'' ''u1''))"
    by code_simp
  moreover have "etype_spec empty_registry ''t'' (ga_edges (consume_graph_answers demo_meta)) ''uses-device''"
    by code_simp
  ultimately show ?thesis using has_etype_exact [of "''t''", OF _ refl] by simp
qed

end
