(* ===== verification/Sha256.thy ===== *)
theory Sha256
  imports Py_Json "HOL-Library.Word"
begin

text \<open>
  \<open>hashlib.sha256(...).hexdigest()\<close> and \<open>hmac.new(key, msg, sha256).hexdigest()\<close>, as the
  cohort buckets, the idempotent action ids and the webhook signatures use them: FIPS 180-4 on
  32-bit words and RFC 2104.  Messages are UTF-8 bytes (\<open>nat\<close> below 256); digests are
  lower-case hexadecimal strings.
\<close>

unbundle bit_operations_syntax

type_synonym u32 = "32 word"

definition utf8_char :: "char \<Rightarrow> nat list" where
  "utf8_char c = (let n = of_char c in if n < 128 then [n] else [192 + n div 64, 128 + n mod 64])"

definition utf8 :: "string \<Rightarrow> nat list" where
  "utf8 s = concat (map utf8_char s)"

definition rotr32 :: "nat \<Rightarrow> u32 \<Rightarrow> u32" where
  "rotr32 n x = drop_bit n x OR push_bit (32 - n) x"

text \<open>The first 32 bits of the fractional parts of the cube roots of the first 64 primes.\<close>

definition sha_k :: "u32 list" where
  "sha_k =
    [1116352408, 1899447441, 3049323471, 3921009573, 961987163, 1508970993,
     2453635748, 2870763221, 3624381080, 310598401, 607225278, 1426881987,
     1925078388, 2162078206, 2614888103, 3248222580, 3835390401, 4022224774,
     264347078, 604807628, 770255983, 1249150122, 1555081692, 1996064986,
     2554220882, 2821834349, 2952996808, 3210313671, 3336571891, 3584528711,
     113926993, 338241895, 666307205, 773529912, 1294757372, 1396182291,
     1695183700, 1986661051, 2177026350, 2456956037, 2730485921, 2820302411,
     3259730800, 3345764771, 3516065817, 3600352804, 4094571909, 275423344,
     430227734, 506948616, 659060556, 883997877, 958139571, 1322822218,
     1537002063, 1747873779, 1955562222, 2024104815, 2227730452, 2361852424,
     2428436474, 2756734187, 3204031479, 3329325298]"

record sha_state =
  sa :: u32
  sb :: u32
  sc :: u32
  sd :: u32
  se :: u32
  sf :: u32
  sg :: u32
  sh :: u32

definition sha_init :: sha_state where
  "sha_init = \<lparr>sa = 0x6a09e667, sb = 0xbb67ae85, sc = 0x3c6ef372, sd = 0xa54ff53a,
     se = 0x510e527f, sf = 0x9b05688c, sg = 0x1f83d9ab, sh = 0x5be0cd19\<rparr>"

definition small_sigma0 :: "u32 \<Rightarrow> u32" where
  "small_sigma0 x = rotr32 7 x XOR rotr32 18 x XOR drop_bit 3 x"

definition small_sigma1 :: "u32 \<Rightarrow> u32" where
  "small_sigma1 x = rotr32 17 x XOR rotr32 19 x XOR drop_bit 10 x"

definition big_sigma0 :: "u32 \<Rightarrow> u32" where
  "big_sigma0 x = rotr32 2 x XOR rotr32 13 x XOR rotr32 22 x"

definition big_sigma1 :: "u32 \<Rightarrow> u32" where
  "big_sigma1 x = rotr32 6 x XOR rotr32 11 x XOR rotr32 25 x"

fun schedule :: "nat \<Rightarrow> u32 list \<Rightarrow> u32 list" where
  "schedule 0 w = w"
| "schedule (Suc n) w = (let t = length w in
     schedule n (w @ [small_sigma1 (w ! (t - 2)) + w ! (t - 7) + small_sigma0 (w ! (t - 15)) + w ! (t - 16)]))"

definition sha_round :: "u32 \<times> u32 \<Rightarrow> sha_state \<Rightarrow> sha_state" where
  "sha_round kw s = (let
     t1 = sh s + big_sigma1 (se s) + ((se s AND sf s) XOR (NOT (se s) AND sg s)) + fst kw + snd kw;
     t2 = big_sigma0 (sa s) + ((sa s AND sb s) XOR (sa s AND sc s) XOR (sb s AND sc s))
     in \<lparr>sa = t1 + t2, sb = sa s, sc = sb s, sd = sc s, se = sd s + t1, sf = se s, sg = sf s, sh = sg s\<rparr>)"

definition be32 :: "nat list \<Rightarrow> u32" where
  "be32 bs = foldl (\<lambda>acc b. push_bit 8 acc OR of_nat b) 0 bs"

function group4 :: "nat list \<Rightarrow> u32 list" where
  "group4 bs = (if bs = [] then [] else be32 (take 4 bs) # group4 (drop 4 bs))"
  by pat_completeness auto
termination
  by (relation "measure length") auto

definition sha_block :: "nat list \<Rightarrow> sha_state \<Rightarrow> sha_state" where
  "sha_block blk s = (let r = fold sha_round (zip sha_k (schedule 48 (group4 blk))) s
     in \<lparr>sa = sa s + sa r, sb = sb s + sb r, sc = sc s + sc r, sd = sd s + sd r,
         se = se s + se r, sf = sf s + sf r, sg = sg s + sg r, sh = sh s + sh r\<rparr>)"

function blocks64 :: "nat list \<Rightarrow> nat list list" where
  "blocks64 bs = (if length bs < 64 then [] else take 64 bs # blocks64 (drop 64 bs))"
  by pat_completeness auto
termination
  by (relation "measure length") auto

declare group4.simps [simp del] blocks64.simps [simp del]

definition be64 :: "nat \<Rightarrow> nat list" where
  "be64 n = map (\<lambda>i. (n div 256 ^ i) mod 256) [7, 6, 5, 4, 3, 2, 1, 0]"

definition sha_pad :: "nat list \<Rightarrow> nat list" where
  "sha_pad bs = bs @ [128] @ replicate ((119 - length bs mod 64) mod 64) 0 @ be64 (8 * length bs)"

definition word_bytes :: "u32 \<Rightarrow> nat list" where
  "word_bytes w = map (\<lambda>i. unat (drop_bit (8 * i) w AND 255)) [3, 2, 1, 0]"

definition sha256_bytes :: "nat list \<Rightarrow> nat list" where
  "sha256_bytes bs = (let s = fold sha_block (blocks64 (sha_pad bs)) sha_init
     in concat (map word_bytes [sa s, sb s, sc s, sd s, se s, sf s, sg s, sh s]))"

definition hexdigest :: "nat list \<Rightarrow> string" where
  "hexdigest bs = concat (map hex2 bs)"

definition sha256_hex :: "string \<Rightarrow> string" where
  "sha256_hex s = hexdigest (sha256_bytes (utf8 s))"

definition hmac_sha256_hex :: "string \<Rightarrow> nat list \<Rightarrow> string" where
  "hmac_sha256_hex key msg = (let
     k0 = (let kb = utf8 key in if length kb > 64 then sha256_bytes kb else kb);
     k = k0 @ replicate (64 - length k0) 0;
     pad = (\<lambda>p. map (\<lambda>b. unat ((of_nat b :: 8 word) XOR p)) k)
     in hexdigest (sha256_bytes (pad 0x5c @ sha256_bytes (pad 0x36 @ msg))))"

text \<open>
  \<open>hmac.compare_digest\<close> on two strings raises \<open>TypeError\<close> when one of them has a
  character outside ASCII.
\<close>

definition compare_digest :: "string \<Rightarrow> string \<Rightarrow> bool res" where
  "compare_digest a b = (if \<exists>c \<in> set (a @ b). (of_char c :: nat) \<ge> 128 then Inl TypeError else Inr (a = b))"

section \<open>Shape of a digest\<close>

definition hex_chars :: "char set" where
  "hex_chars = set ''0123456789abcdef''"

definition is_hex64 :: "string \<Rightarrow> bool" where
  "is_hex64 s = (length s = 64 \<and> set s \<subseteq> hex_chars)"

lemma hex_digit_in: "n < 16 \<Longrightarrow> hex_digit n \<in> hex_chars"
proof -
  assume "n < 16"
  then have "n \<in> set [0..<16]" by simp
  moreover have "\<forall>k \<in> set [0..<16]. hex_digit k \<in> hex_chars" by code_simp
  ultimately show ?thesis by blast
qed

lemma hex2_shape: "length (hex2 n) = 2" "set (hex2 n) \<subseteq> hex_chars"
  by (simp_all add: hex2_def hex_digit_in)

lemma length_hexdigest: "length (hexdigest bs) = 2 * length bs"
  by (induction bs) (simp_all add: hexdigest_def hex2_shape)

lemma set_hexdigest: "set (hexdigest bs) \<subseteq> hex_chars"
  using hex2_shape(2) by (auto simp: hexdigest_def)

lemma length_sha256_bytes [simp]: "length (sha256_bytes bs) = 32"
  by (simp add: sha256_bytes_def Let_def word_bytes_def)

lemma sha256_hex_is_hex64: "is_hex64 (sha256_hex s)"
  using set_hexdigest by (simp add: is_hex64_def sha256_hex_def length_hexdigest)

lemma hmac_sha256_hex_is_hex64: "is_hex64 (hmac_sha256_hex key msg)"
  using set_hexdigest by (simp add: is_hex64_def hmac_sha256_hex_def Let_def length_hexdigest)

text \<open>\<open>int(h[:8], 16)\<close> on a digest.\<close>

definition hex_val :: "char \<Rightarrow> int" where
  "hex_val c = (if is_digit c then of_char c - 48 else of_char (lower_char c) - 87)"

definition parse_hex :: "string \<Rightarrow> int" where
  "parse_hex s = foldl (\<lambda>acc c. acc * 16 + hex_val c) 0 s"

end
