(* ===== verification/Py_Datetime.thy ===== *)
theory Py_Datetime
  imports Py_Json
begin

text \<open>
  The parts of Python's \<open>datetime\<close> the services use: proleptic Gregorian ordinals,
  \<open>datetime.fromisoformat\<close> (calendar and week dates, basic and extended, with an optional UTC
  offset, as the standard library's \<open>Lib/datetime.py\<close> parses them) and the conversion to UTC.

  A parsed datetime is its wall-clock time in microseconds since the Unix epoch together with
  its UTC offset in microseconds, \<open>None\<close> for a naive one.
\<close>

section \<open>Calendar\<close>

definition is_leap :: "int \<Rightarrow> bool" where
  "is_leap y = (y mod 4 = 0 \<and> (y mod 100 \<noteq> 0 \<or> y mod 400 = 0))"

definition days_before_year :: "int \<Rightarrow> int" where
  "days_before_year y = (y - 1) * 365 + (y - 1) div 4 - (y - 1) div 100 + (y - 1) div 400"

definition days_in_month :: "int \<Rightarrow> int \<Rightarrow> int" where
  "days_in_month y m = (if m = 2 then (if is_leap y then 29 else 28)
     else if m \<in> {4, 6, 9, 11} then 30 else 31)"

definition days_before_month :: "int \<Rightarrow> int \<Rightarrow> int" where
  "days_before_month y m = sum_list (map (days_in_month y) [1..m - 1])"

definition ymd2ord :: "int \<Rightarrow> int \<Rightarrow> int \<Rightarrow> int" where
  "ymd2ord y m d = days_before_year y + days_before_month y m + d"

definition valid_ymd :: "int \<Rightarrow> int \<Rightarrow> int \<Rightarrow> bool" where
  "valid_ymd y m d = (1 \<le> y \<and> y \<le> 9999 \<and> 1 \<le> m \<and> m \<le> 12 \<and> 1 \<le> d \<and> d \<le> days_in_month y m)"

text \<open>Ordinal 719163 is 1 January 1970; the largest ordinal is that of 31 December 9999.\<close>

definition epoch_ord :: int where "epoch_ord = 719163"

definition max_ord :: int where "max_ord = 3652059"

definition day_us :: int where "day_us = 86400000000"

definition iso_week1_monday :: "int \<Rightarrow> int" where
  "iso_week1_monday y = (let first = ymd2ord y 1 1; wd = (first + 6) mod 7; mon = first - wd
     in if wd > 3 then mon + 7 else mon)"

definition iso_week_ord :: "int \<Rightarrow> int \<Rightarrow> int \<Rightarrow> int res" where
  "iso_week_ord y w d =
     (if \<not> (1 \<le> y \<and> y \<le> 9999) then Inl ValueError
      else if \<not> (0 < w \<and> w < 53) \<and> \<not> (w = 53 \<and> (let f = ymd2ord y 1 1 mod 7
        in f = 4 \<or> (f = 3 \<and> is_leap y))) then Inl ValueError
      else if \<not> (0 < d \<and> d < 8) then Inl ValueError
      else (let r = iso_week1_monday y + (w - 1) * 7 + (d - 1)
        in if 1 \<le> r \<and> r \<le> max_ord then Inr r else Inl ValueError))"

section \<open>fromisoformat\<close>

definition digits_val :: "string \<Rightarrow> int" where
  "digits_val s = foldl (\<lambda>a c. a * 10 + digit_val c) 0 s"

text \<open>Exactly \<open>n\<close> digits at the start of the string.\<close>

definition take_digits :: "nat \<Rightarrow> string \<Rightarrow> (int \<times> string) option" where
  "take_digits n s = (if length (take n s) = n \<and> list_all is_digit (take n s)
     then Some (digits_val (take n s), drop n s) else None)"

definition date_separator_at :: "string \<Rightarrow> nat option" where
  "date_separator_at s = (let n = length s in
     if n = 7 then Some 7
     else if s ! 4 = CHR ''-'' then
       (if s ! 5 = CHR ''W'' then
          (if n > 8 \<and> s ! 8 = CHR ''-'' then
             (if n = 9 then None else if n > 10 \<and> is_digit (s ! 10) then Some 8 else Some 10)
           else Some 8)
        else Some 10)
     else if s ! 4 = CHR ''W'' then
       (let i = 7 + length (takeWhile is_digit (drop 7 s))
        in if i < 9 then Some i else if even i then Some 7 else Some 8)
     else Some 8)"

text \<open>The ordinal of the date part, which is the whole string given.\<close>

definition parse_date :: "string \<Rightarrow> int res" where
  "parse_date s = (case take_digits 4 s of None \<Rightarrow> Inl ValueError | Some (y, r) \<Rightarrow>
     let sep = startswith r ''-''; r1 = (if sep then tl r else r) in
     if startswith r1 ''W'' then
       (case take_digits 2 (tl r1) of None \<Rightarrow> Inl ValueError | Some (w, r2) \<Rightarrow>
          if r2 = [] then iso_week_ord y w 1
          else if startswith r2 ''-'' \<noteq> sep then Inl ValueError
          else (case take_digits 1 (if sep then tl r2 else r2) of
              Some (d, []) \<Rightarrow> iso_week_ord y w d | _ \<Rightarrow> Inl ValueError))
     else (case take_digits 2 r1 of None \<Rightarrow> Inl ValueError | Some (m, r2) \<Rightarrow>
          if startswith r2 ''-'' \<noteq> sep then Inl ValueError
          else (case take_digits 2 (if sep then tl r2 else r2) of
              Some (d, []) \<Rightarrow> (if valid_ymd y m d then Inr (ymd2ord y m d) else Inl ValueError)
            | _ \<Rightarrow> Inl ValueError)))"

definition parse_fraction :: "string \<Rightarrow> int option" where
  "parse_fraction s = (if s \<noteq> [] \<and> list_all is_digit s
     then Some (let ds = take 6 s in digits_val ds * 10 ^ (6 - length ds)) else None)"

text \<open>\<open>HH[:MM[:SS[.ffffff]]]\<close>, with or without the colons: hours, minutes, seconds and
  microseconds.\<close>

definition parse_clock :: "string \<Rightarrow> (int \<times> int \<times> int \<times> int) option" where
  "parse_clock s = (case take_digits 2 s of None \<Rightarrow> None
     | Some (h, []) \<Rightarrow> Some (h, 0, 0, 0)
     | Some (h, r) \<Rightarrow> let sep = startswith r '':'' in
       (case take_digits 2 (if sep then tl r else r) of None \<Rightarrow> None
        | Some (m, []) \<Rightarrow> Some (h, m, 0, 0)
        | Some (m, r1) \<Rightarrow> if sep \<and> \<not> startswith r1 '':'' then None else
          (case take_digits 2 (if sep then tl r1 else r1) of None \<Rightarrow> None
           | Some (sec, []) \<Rightarrow> Some (h, m, sec, 0)
           | Some (sec, c # r2) \<Rightarrow> if c = CHR ''.'' \<or> c = CHR '',''
               then map_option (\<lambda>us. (h, m, sec, us)) (parse_fraction r2) else None)))"

definition clock_us :: "int \<times> int \<times> int \<times> int \<Rightarrow> int" where
  "clock_us c = (case c of (h, m, s, us) \<Rightarrow> ((h * 60 + m) * 60 + s) * 1000000 + us)"

definition valid_clock :: "int \<times> int \<times> int \<times> int \<Rightarrow> bool" where
  "valid_clock c = (case c of (h, m, s, us) \<Rightarrow> h \<le> 23 \<and> m \<le> 59 \<and> s \<le> 59)"

fun find_char :: "char \<Rightarrow> string \<Rightarrow> nat option" where
  "find_char c [] = None"
| "find_char c (d # s) = (if d = c then Some 0 else map_option Suc (find_char c s))"

text \<open>The position of the offset sign: a minus if there is one, else a plus, else a \<open>Z\<close>.\<close>

definition tz_position :: "string \<Rightarrow> nat option" where
  "tz_position s = (case find_char CHR ''-'' s of Some i \<Rightarrow> Some i
     | None \<Rightarrow> (case find_char CHR ''+'' s of Some i \<Rightarrow> Some i | None \<Rightarrow> find_char CHR ''Z'' s))"

definition parse_offset :: "char \<Rightarrow> string \<Rightarrow> int option" where
  "parse_offset sign s = (if length s \<in> {0, 1, 3} then (if sign = CHR ''Z'' \<and> s = [] then Some 0 else None)
     else (case parse_clock s of None \<Rightarrow> None
       | Some c \<Rightarrow> (let us = (if sign = CHR ''-'' then - clock_us c else clock_us c)
           in if \<bar>us\<bar> < day_us then Some us else None)))"

definition parse_time :: "string \<Rightarrow> (int \<times> int option) option" where
  "parse_time s = (if length s < 2 then None
     else (case (case tz_position s of None \<Rightarrow> (s, Some None)
         | Some i \<Rightarrow> (take i s, map_option Some (parse_offset (s ! i) (drop (Suc i) s)))) of
       (clock, tz) \<Rightarrow> (case parse_clock clock of None \<Rightarrow> None
         | Some c \<Rightarrow> if valid_clock c then map_option (\<lambda>off. (clock_us c, off)) tz else None)))"

type_synonym datetime = "int \<times> int option"

definition fromisoformat :: "string \<Rightarrow> datetime res" where
  "fromisoformat s = (if length s < 7 then Inl ValueError
     else (case date_separator_at s of None \<Rightarrow> Inl ValueError
       | Some i \<Rightarrow> (case parse_date (take i s) of Inl e \<Rightarrow> Inl e
         | Inr ord \<Rightarrow> (let day = (ord - epoch_ord) * day_us in
           if length s - i \<le> 1 then Inr (day, None)
           else (case parse_time (drop (Suc i) s) of None \<Rightarrow> Inl ValueError
             | Some (us, off) \<Rightarrow> Inr (day + us, off))))))"

text \<open>\<open>astimezone(timezone.utc)\<close> of an aware datetime: microseconds since the epoch, unless the
  result leaves the years 1 to 9999.\<close>

definition in_datetime_range :: "int \<Rightarrow> bool" where
  "in_datetime_range us = ((1 - epoch_ord) * day_us \<le> us \<and> us < (max_ord + 1 - epoch_ord) * day_us)"

definition as_utc :: "int \<Rightarrow> int \<Rightarrow> int res" where
  "as_utc local off = (if in_datetime_range (local - off) then Inr (local - off) else Inl OverflowError)"

text \<open>The idiom of the services: a naive datetime is taken as UTC.\<close>

definition utc_of :: "datetime \<Rightarrow> int res" where
  "utc_of dt = (case dt of (local, None) \<Rightarrow> as_utc local 0 | (local, Some off) \<Rightarrow> as_utc local off)"

end
