(* ===== verification/Json_Rules.thy ===== *)
theory Json_Rules
  imports Graph_Atoms Sha256 Py_Datetime
begin

text \<open>
  \<open>decision_api/json_rules.py\<close>, \<open>ast_models.py\<close> and \<open>ast_evaluator.py\<close>: matching one condition,
  the flat and the tree form of a rule's guard, tag rules, the rollout gate of a pack, loading
  packs from disk, and the per-rule hit counters.

  Feature maps and conditions are dictionaries of \<open>pyval\<close>.  Pydantic's parsing of a tree is a
  parameter; what the models' own validators demand is \<open>ast_valid\<close>.
\<close>

section \<open>Conditions\<close>

definition max_field_len :: nat where "max_field_len = 128"
definition max_value_len :: nat where "max_value_len = 1024"
definition max_rules_per_pack :: nat where "max_rules_per_pack = 200"
definition max_conditions_per_rule :: nat where "max_conditions_per_rule = 20"
definition max_regex_pattern_len :: nat where "max_regex_pattern_len = 256"

text \<open>\<open>None\<close> for a value that is no JSON number; the conversion of an integer can overflow.\<close>

definition json_f64_py :: "pyval \<Rightarrow> pyfloat option res" where
  "json_f64_py v = (case v of
       PInt i \<Rightarrow> (case int_to_float i of Inl e \<Rightarrow> Inl e | Inr f \<Rightarrow> Inr (Some f))
     | PFloat f \<Rightarrow> Inr (Some f)
     | _ \<Rightarrow> Inr None)"

definition pythonish_one :: "pyval \<Rightarrow> string" where
  "pythonish_one v = (case v of
       PNone \<Rightarrow> ''None''
     | PBool b \<Rightarrow> if b then ''true'' else ''false''
     | PInt i \<Rightarrow> int_str i
     | PFloat f \<Rightarrow> float_repr f
     | PStr s \<Rightarrow> s
     | _ \<Rightarrow> json_dumps False False v)"

text \<open>A float that JSON cannot represent anywhere in a value.\<close>

fun nonfinite :: "pyval \<Rightarrow> bool" where
  "nonfinite (PFloat f) = (case f of Fin _ \<Rightarrow> False | _ \<Rightarrow> True)"
| "nonfinite (PList xs) = list_ex nonfinite xs"
| "nonfinite (PDict d) = list_ex (\<lambda>(k, v). nonfinite v) d"
| "nonfinite _ = False"

definition json_value_display_for_regex :: "pyval \<Rightarrow> string" where
  "json_value_display_for_regex v = (case v of PStr s \<Rightarrow> s
     | _ \<Rightarrow> if nonfinite v then py_str v else json_dumps False False v)"

definition json_collection_equals :: "pyval \<Rightarrow> pyval \<Rightarrow> bool" where
  "json_collection_equals actual elem = (json_dumps True True actual = json_dumps True True elem)"

text \<open>
  The regular expression built from the escaped pattern: every character stands for itself up
  to case, except that an asterisk matches any characters and a question mark any single one,
  both but a newline.  The final dollar sign also matches before a trailing newline.
\<close>

definition newline :: char where "newline = CHR 0x0A"

function glob_match :: "string \<Rightarrow> string \<Rightarrow> bool" where
  "glob_match [] s = (s = [] \<or> s = [newline])"
| "glob_match (p # ps) s = (if p = CHR ''*'' then
       glob_match ps s \<or> (case s of [] \<Rightarrow> False | c # cs \<Rightarrow> c \<noteq> newline \<and> glob_match (p # ps) cs)
     else if p = CHR ''?'' then (case s of [] \<Rightarrow> False | c # cs \<Rightarrow> c \<noteq> newline \<and> glob_match ps cs)
     else (case s of [] \<Rightarrow> False | c # cs \<Rightarrow> lower_char p = lower_char c \<and> glob_match ps cs))"
  by pat_completeness auto
termination
  by (relation "measure (\<lambda>(p, s). length p + length s)") auto

text \<open>Comparing two JSON numbers; \<open>False\<close> when one is none or its conversion overflows.\<close>

definition num_cmp :: "(pyfloat \<Rightarrow> pyfloat \<Rightarrow> bool) \<Rightarrow> pyval \<Rightarrow> pyval \<Rightarrow> bool" where
  "num_cmp cmp actual expected = (case (json_f64_py actual, json_f64_py expected) of
     (Inr (Some a), Inr (Some e)) \<Rightarrow> cmp a e | _ \<Rightarrow> False)"

fun hashable :: "pyval \<Rightarrow> bool" where
  "hashable (PList _) = False"
| "hashable (PDict _) = False"
| "hashable _ = True"

text \<open>The operators, for a present or absent feature.\<close>

definition match_op :: "pyval \<Rightarrow> bool \<Rightarrow> pyval \<Rightarrow> pyval \<Rightarrow> bool" where
  "match_op op present actual expected =
     (if op = PStr ''eq'' then present \<and> json_collection_equals actual expected
      else if op = PStr ''not_eq'' then \<not> present \<or> \<not> json_collection_equals actual expected
      else if op = PStr ''gte'' then num_cmp (\<lambda>a e. fle e a) actual expected
      else if op = PStr ''gt'' then num_cmp (\<lambda>a e. flt e a) actual expected
      else if op = PStr ''lte'' then num_cmp fle actual expected
      else if op = PStr ''lt'' then num_cmp flt actual expected
      else if op = PStr ''in'' then
        (case expected of PList xs \<Rightarrow> list_ex (json_collection_equals actual) xs | _ \<Rightarrow> False)
      else if op = PStr ''not_in'' then
        (case expected of PList xs \<Rightarrow> \<not> list_ex (json_collection_equals actual) xs | _ \<Rightarrow> True)
      else if op = PStr ''contains'' then
        (let exp_s = pythonish_one expected in exp_s \<noteq> [] \<and> contains_str (pythonish_one actual) exp_s)
      else if op = PStr ''starts_with'' then
        (case actual of PStr s \<Rightarrow> startswith s (case expected of PStr e \<Rightarrow> e | _ \<Rightarrow> []) | _ \<Rightarrow> False)
      else if op = PStr ''ends_with'' then
        (case actual of PStr s \<Rightarrow> endswith s (case expected of PStr e \<Rightarrow> e | _ \<Rightarrow> []) | _ \<Rightarrow> False)
      else if op = PStr ''regex'' then
        (if \<not> truthy expected then False
         else let pattern = py_str expected in
           if length pattern > max_regex_pattern_len then False
           else glob_match pattern (json_value_display_for_regex actual))
      else if op = PStr ''is_true'' then actual = PBool True
      else if op = PStr ''is_false'' then actual = PBool False
      else if op = PStr ''exists'' then present
      else if op = PStr ''not_exists'' then \<not> present
      else False)"

text \<open>
  \<open>_match_condition\<close>.  Looking up an unhashable field name raises before the \<open>try\<close> block; a
  field name that is no string is in no feature map.
\<close>

definition field_ok :: "pyval \<Rightarrow> bool" where
  "field_ok key = (truthy key \<and> length (py_str key) \<le> max_field_len)"

definition lookup_field :: "dict \<Rightarrow> pyval \<Rightarrow> pyval option" where
  "lookup_field features key = (case key of PStr k \<Rightarrow> map_of features k | _ \<Rightarrow> None)"

definition match_condition :: "dict \<Rightarrow> dict \<Rightarrow> bool res" where
  "match_condition features cond = (let
     op = dget_or cond ''op'' (PStr ''eq''); key = dget cond ''field''; expected = dget cond ''value'' in
     if \<not> field_ok key then Inr False
     else if \<not> hashable key then Inl TypeError
     else if expected \<noteq> PNone \<and> length (py_str expected) > max_value_len then Inr False
     else (case lookup_field features key of
         None \<Rightarrow> Inr (match_op op False PNone expected)
       | Some actual \<Rightarrow> Inr (match_op op True actual expected)))"

section \<open>Rule trees\<close>

definition max_ast_depth :: nat where "max_ast_depth = 24"
definition max_ast_nodes :: nat where "max_ast_nodes = 384"
definition max_ast_children :: nat where "max_ast_children = 32"
definition max_custom_signal_params :: nat where "max_custom_signal_params = 8192"

definition condition_op_names :: "string list" where
  "condition_op_names = [''eq'', ''not_eq'', ''gte'', ''gt'', ''lte'', ''lt'', ''in'', ''not_in'', ''contains'',
     ''starts_with'', ''ends_with'', ''regex'', ''is_true'', ''is_false'', ''exists'', ''not_exists'']"

datatype ast =
    AstCondition string string pyval
  | AstCustomSignal string dict string
  | AstGraphV1 string "string option" "string option"
  | AstAnd "ast list"
  | AstOr "ast list"

text \<open>\<open>str.isalpha\<close> and \<open>str.isalnum\<close> on the code points below 256.\<close>

definition u_alpha :: "char \<Rightarrow> bool" where
  "u_alpha c = (let n = (of_char c :: nat) in is_alpha c \<or> n = 170 \<or> n = 181 \<or> n = 186 \<or>
     (192 \<le> n \<and> n \<noteq> 215 \<and> n \<noteq> 247))"

definition u_alnum :: "char \<Rightarrow> bool" where
  "u_alnum c = (let n = (of_char c :: nat) in u_alpha c \<or> is_digit c \<or>
     n \<in> {178, 179, 185, 188, 189, 190})"

definition condition_valid :: "string \<Rightarrow> string \<Rightarrow> pyval \<Rightarrow> bool" where
  "condition_valid op field_name v = (op \<in> set condition_op_names \<and> 1 \<le> length field_name \<and>
     length field_name \<le> max_field_len \<and> (v = PNone \<or> length (py_str v) \<le> max_value_len))"

definition graph_v1_valid :: "string \<Rightarrow> string option \<Rightarrow> string option \<Rightarrow> bool" where
  "graph_v1_valid atom etype role = (atom \<in> {''has_etype'', ''has_multi_id'', ''sibling_prior_flag''} \<and>
     (let et = (case etype of None \<Rightarrow> [] | Some e \<Rightarrow> e) in
        if atom = ''has_etype'' then strip et \<noteq> [] \<and> (case refuse_pack_etype_token et of Inl _ \<Rightarrow> False | Inr _ \<Rightarrow> True)
        else et = []) \<and>
     (case role of None \<Rightarrow> True
      | Some r \<Rightarrow> (case strip r of [] \<Rightarrow> False
          | c # cs \<Rightarrow> u_alpha c \<and> list_all (\<lambda>d. u_alnum d \<or> d = CHR ''_'' \<or> d = CHR ''-'') (c # cs))))"

definition custom_signal_valid :: "string \<Rightarrow> dict \<Rightarrow> string \<Rightarrow> bool" where
  "custom_signal_valid pid params ok = (1 \<le> length pid \<and> length pid \<le> max_field_len \<and>
     1 \<le> length ok \<and> length ok \<le> max_field_len \<and>
     length (json_dumps True True (PDict params)) \<le> max_custom_signal_params)"

fun ast_valid :: "ast \<Rightarrow> bool" where
  "ast_valid (AstCondition op f v) = condition_valid op f v"
| "ast_valid (AstCustomSignal pid params ok) = custom_signal_valid pid params ok"
| "ast_valid (AstGraphV1 atom etype role) = graph_v1_valid atom etype role"
| "ast_valid (AstAnd ch) = (1 \<le> length ch \<and> length ch \<le> max_ast_children \<and> list_all ast_valid ch)"
| "ast_valid (AstOr ch) = (1 \<le> length ch \<and> length ch \<le> max_ast_children \<and> list_all ast_valid ch)"

fun ast_max_depth :: "ast \<Rightarrow> nat" where
  "ast_max_depth (AstAnd ch) = 1 + fold max (map ast_max_depth ch) 0"
| "ast_max_depth (AstOr ch) = 1 + fold max (map ast_max_depth ch) 0"
| "ast_max_depth _ = 1"

fun ast_node_count :: "ast \<Rightarrow> nat" where
  "ast_node_count (AstAnd ch) = 1 + sum_list (map ast_node_count ch)"
| "ast_node_count (AstOr ch) = 1 + sum_list (map ast_node_count ch)"
| "ast_node_count _ = 1"

definition enforce_ast_limits :: "ast \<Rightarrow> unit res" where
  "enforce_ast_limits node = (if ast_max_depth node > max_ast_depth then Inl ValueError
     else if ast_node_count node > max_ast_nodes then Inl ValueError else Inr ())"

definition condition_dict :: "string \<Rightarrow> string \<Rightarrow> pyval \<Rightarrow> dict" where
  "condition_dict op f v = [(''op'', PStr op), (''field'', PStr f), (''value'', v)]"

text \<open>\<open>all(...)\<close> and \<open>any(...)\<close> over a generator: evaluation stops at the first decisive child.\<close>

fun res_all :: "bool res list \<Rightarrow> bool res" where
  "res_all [] = Inr True"
| "res_all (r # rs) = (case r of Inl e \<Rightarrow> Inl e | Inr b \<Rightarrow> if b then res_all rs else Inr False)"

fun res_any :: "bool res list \<Rightarrow> bool res" where
  "res_any [] = Inr False"
| "res_any (r # rs) = (case r of Inl e \<Rightarrow> Inl e | Inr b \<Rightarrow> if b then Inr True else res_any rs)"

fun evaluate_json_ast :: "registry \<Rightarrow> dict \<Rightarrow> ast \<Rightarrow> bool res" where
  "evaluate_json_ast reg features (AstGraphV1 atom etype role) =
     eval_graph_v1_from_features reg features atom etype role []"
| "evaluate_json_ast reg features (AstCustomSignal pid params ok) =
     Inr (strip ok \<noteq> [] \<and> has_key features (strip ok))"
| "evaluate_json_ast reg features (AstCondition op f v) = match_condition features (condition_dict op f v)"
| "evaluate_json_ast reg features (AstAnd ch) = res_all (map (evaluate_json_ast reg features) ch)"
| "evaluate_json_ast reg features (AstOr ch) = res_any (map (evaluate_json_ast reg features) ch)"

section \<open>Rule guards\<close>

text \<open>The loop over a flat guard: it stops at the first condition that fails.\<close>

fun flat_when :: "dict \<Rightarrow> pyval list \<Rightarrow> bool res" where
  "flat_when features [] = Inr True"
| "flat_when features (c # cs) = (case c of
       PDict cond \<Rightarrow> (let fld = dget cond ''field'' in
         if \<not> field_ok fld then Inr False
         else if \<not> hashable fld then Inl TypeError
         else (case match_condition features cond of
             Inl e \<Rightarrow> Inl e
           | Inr passed \<Rightarrow> if passed then flat_when features cs else Inr False))
     | _ \<Rightarrow> Inr False)"

text \<open>\<open>evaluate_rule_when\<close>, with \<open>validate\<close> for the parsing of a tree.\<close>

definition evaluate_rule_when :: "registry \<Rightarrow> (pyval \<Rightarrow> ast option) \<Rightarrow> dict \<Rightarrow> dict \<Rightarrow> bool res" where
  "evaluate_rule_when reg validate rule features = (let
     conds = (case dget rule ''when'' of PList cs \<Rightarrow> cs | _ \<Rightarrow> []);
     raw_ast = dget rule ''when_ast''; has_flat = conds \<noteq> []; has_ast = raw_ast \<noteq> PNone in
     if has_flat \<and> has_ast then Inr False
     else if has_ast then (case validate raw_ast of
         None \<Rightarrow> Inr False
       | Some node \<Rightarrow> (case enforce_ast_limits node of
           Inl _ \<Rightarrow> Inr False
         | Inr _ \<Rightarrow> (case evaluate_json_ast reg features node of Inl _ \<Rightarrow> Inr False | Inr b \<Rightarrow> Inr b)))
     else if \<not> has_flat then Inr False
     else if length conds > max_conditions_per_rule then Inr False
     else flat_when features conds)"

definition evaluate_tag_rule_when :: "pyval \<Rightarrow> string list \<Rightarrow> bool" where
  "evaluate_tag_rule_when any_tag redis_tags = (case any_tag of
       PList ts \<Rightarrow> (let need = remdups (str_vals ts) in
         if need = [] then False else list_ex (\<lambda>tag. tag \<in> set redis_tags) (sort need))
     | _ \<Rightarrow> False)"

section \<open>Rollout of a pack\<close>

definition pack_experiment_bucket :: "string \<Rightarrow> string \<Rightarrow> string \<Rightarrow> int" where
  "pack_experiment_bucket tenant_id entity_id pack_key =
     parse_hex (take 8 (sha256_hex (tenant_id @ ''|'' @ entity_id @ ''|'' @ pack_key))) mod 100"

text \<open>\<open>datetime.strptime(s, "%Y-%m-%dT%H:%M:%S")\<close>: one or two digits per field, in range; a day
  below ten may be padded with a blank.\<close>

definition num_field :: "int \<Rightarrow> int \<Rightarrow> string \<Rightarrow> int option" where
  "num_field lo hi s = (if (length s = 1 \<or> length s = 2) \<and> list_all is_digit s \<and> lo \<le> digits_val s \<and> digits_val s \<le> hi
     then Some (digits_val s) else None)"

definition day_field :: "string \<Rightarrow> int option" where
  "day_field s = (case s of [b, d] \<Rightarrow> if b = CHR '' '' then num_field 1 9 [d] else num_field 1 31 s
     | _ \<Rightarrow> num_field 1 31 s)"

definition strptime_iso :: "string \<Rightarrow> int option" where
  "strptime_iso s = (case split_once CHR ''T'' (map (\<lambda>c. if c = CHR ''t'' then CHR ''T'' else c) s) of
       (date, Some clock) \<Rightarrow> (case (split_on CHR ''-'' date, split_on CHR '':'' clock) of
           ([y, m, d], [hh, mm, ss]) \<Rightarrow>
             (case (if length y = 4 \<and> list_all is_digit y then Some (digits_val y) else None,
                 num_field 1 12 m, day_field d, num_field 0 23 hh, num_field 0 59 mm, num_field 0 61 ss) of
               (Some yy, Some mo, Some dd, Some h, Some mi, Some sec) \<Rightarrow>
                 if valid_ymd yy mo dd \<and> sec \<le> 59
                 then Some ((ymd2ord yy mo dd - epoch_ord) * day_us + clock_us (h, mi, sec, 0)) else None
             | _ \<Rightarrow> None)
         | _ \<Rightarrow> None)
     | _ \<Rightarrow> None)"

text \<open>\<open>_parse_effective_at\<close>: microseconds since the epoch.  Only \<open>ValueError\<close> is handled, so an
  offset that leaves the range of dates still raises.\<close>

definition parse_effective_at :: "pyval \<Rightarrow> int option res" where
  "parse_effective_at raw = (case raw of
       PStr r \<Rightarrow> (let s = strip r in
         if s = [] then Inr None
         else (let s1 = (if endswith s ''Z'' then butlast s @ ''+00:00'' else s) in
           case fromisoformat s1 of
             Inr dt \<Rightarrow> (case utc_of dt of Inl e \<Rightarrow> Inl e | Inr us \<Rightarrow> Inr (Some us))
           | Inl _ \<Rightarrow> Inr (strptime_iso s1)))
     | _ \<Rightarrow> Inr None)"

definition before_effective :: "int \<Rightarrow> dict \<Rightarrow> bool res" where
  "before_effective now pack = (case parse_effective_at (dget pack ''effective_at'') of
       Inl e \<Rightarrow> Inl e
     | Inr None \<Rightarrow> Inr False
     | Inr (Some eff) \<Rightarrow> Inr (now < eff))"

definition pack_key_of :: "dict \<Rightarrow> string" where
  "pack_key_of pack = py_str (py_or (dget pack ''_source_file'') (py_or (dget pack ''name'') (PStr ''pack'')))"

definition canary_gate :: "dict \<Rightarrow> string \<Rightarrow> string \<Rightarrow> (bool \<times> string option) res" where
  "canary_gate pack tenant_id entity_id = (case dget pack ''canary_percent'' of
       PNone \<Rightarrow> Inr (True, None)
     | cp \<Rightarrow> (case py_float cp of
           Inl e \<Rightarrow> if e = TypeError \<or> e = ValueError then Inr (True, None) else Inl e
         | Inr pct \<Rightarrow>
             if fle (Fin 100) pct then Inr (True, None)
             else if fle pct (Fin 0) then Inr (False, Some ''canary_zero'')
             else if fle pct (Fin (of_int (pack_experiment_bucket tenant_id entity_id (pack_key_of pack))))
             then Inr (False, Some ''canary_excluded'') else Inr (True, None)))"

definition pack_should_apply :: "int \<Rightarrow> dict \<Rightarrow> string \<Rightarrow> string \<Rightarrow> string \<Rightarrow> (bool \<times> string option) res" where
  "pack_should_apply now pack tenant_id entity_id evaluation_mode =
     (if evaluation_mode = ''simulation'' then Inr (True, None)
      else (case before_effective now pack of
          Inl e \<Rightarrow> Inl e
        | Inr early \<Rightarrow>
            if early then Inr (False, Some ''before_effective_at'')
            else if evaluation_mode = ''challenger'' then Inr (True, None)
            else canary_gate pack tenant_id entity_id))"

section \<open>Loading packs\<close>

definition sandbox_source_file :: string where
  "sandbox_source_file = ''sandbox_plg_industry_starter.json''"

definition attach_plg_sandbox_pack :: "dict option \<Rightarrow> dict list \<Rightarrow> dict list" where
  "attach_plg_sandbox_pack runtime active = (let
     filtered = filter (\<lambda>p. dget p ''_source_file'' \<noteq> PStr sandbox_source_file) active in
     case runtime of None \<Rightarrow> filtered
     | Some pack \<Rightarrow> filtered @ [dset_default ''_source_file'' (PStr sandbox_source_file) pack])"

record rule_cache =
  rc_active :: "dict list"
  rc_shadow :: "dict list"
  rc_disabled :: "dict list"
  rc_sandbox :: "dict option"
  rc_rust :: "dict list option"
  rc_generation :: int

text \<open>
  \<open>load_rules\<close> on the directory listing: the sorted file names with their parsed packs, \<open>None\<close>
  for a file that cannot be read or parsed.  A file that is valid JSON but no object makes the
  loader raise; \<open>pack.get\<close> is outside what its handler catches.
\<close>

fun load_files :: "(string \<times> pyval option) list \<Rightarrow> dict list \<times> dict list \<times> dict list \<Rightarrow>
    (dict list \<times> dict list \<times> dict list) res" where
  "load_files [] acc = Inr acc"
| "load_files ((name, content) # fs) (act, shd, dis) = (case content of
       None \<Rightarrow> load_files fs (act, shd, dis)
     | Some (PDict pack0) \<Rightarrow>
         (if \<not> py_eq (dget_or pack0 ''version'' (PInt 1)) (PInt 1) then load_files fs (act, shd, dis)
          else (let pack = dset ''_source_file'' (PStr name) pack0;
                    mode = dget_or pack ''mode'' (PStr ''active'') in
            if mode = PStr ''disabled'' then load_files fs (act, shd, dis @ [pack])
            else if mode = PStr ''shadow'' then load_files fs (act, shd @ [pack], dis)
            else load_files fs (act @ [pack], shd, dis)))
     | Some _ \<Rightarrow> Inl AttributeError)"

text \<open>After a load the active packs are mirrored into the Rust extension, if it is installed
  (\<open>rc_rust\<close> is \<open>None\<close> otherwise), and the policy-set generation is bumped.\<close>

definition after_load :: "rule_cache \<Rightarrow> rule_cache" where
  "after_load rc = rc\<lparr>rc_rust := map_option (\<lambda>_. rc_active rc) (rc_rust rc),
     rc_generation := rc_generation rc + 1\<rparr>"

definition load_rules :: "(string \<times> pyval option) list option \<Rightarrow> rule_cache \<Rightarrow> rule_cache res" where
  "load_rules dir rc = (case dir of
       None \<Rightarrow> Inr (after_load (rc\<lparr>rc_active := attach_plg_sandbox_pack (rc_sandbox rc) [],
         rc_shadow := [], rc_disabled := []\<rparr>))
     | Some files \<Rightarrow> (case load_files (sort_key fst files) ([], [], []) of
           Inl e \<Rightarrow> Inl e
         | Inr (act, shd, dis) \<Rightarrow> Inr (after_load (rc\<lparr>rc_active := attach_plg_sandbox_pack (rc_sandbox rc) act,
             rc_shadow := shd, rc_disabled := dis\<rparr>))))"

definition preload_plg_sandbox_runtime_pack :: "dict option \<Rightarrow> rule_cache \<Rightarrow> rule_cache" where
  "preload_plg_sandbox_runtime_pack pack rc = rc\<lparr>rc_sandbox := pack\<rparr>"

definition set_plg_sandbox_runtime_pack :: "(string \<times> pyval option) list option \<Rightarrow> dict option \<Rightarrow> rule_cache \<Rightarrow>
    rule_cache res" where
  "set_plg_sandbox_runtime_pack dir pack rc = load_rules dir (preload_plg_sandbox_runtime_pack pack rc)"

definition governance_row :: "dict \<Rightarrow> pyval res" where
  "governance_row pack = (case py_len (py_or (dget pack ''rules'') (PList [])) of Inl e \<Rightarrow> Inl e
     | Inr n \<Rightarrow> Inr (PDict [(''file'', dget pack ''_source_file''), (''name'', dget pack ''name''),
         (''mode'', dget_or pack ''mode'' (PStr ''active'')), (''canary_percent'', dget pack ''canary_percent''),
         (''effective_at'', dget pack ''effective_at''), (''approved_by'', dget pack ''approved_by''),
         (''rule_count'', PInt n)]))"

definition governance_summary :: "rule_cache \<Rightarrow> dict res" where
  "governance_summary rc = (case res_map governance_row (rc_active rc) of Inl e \<Rightarrow> Inl e
     | Inr rows \<Rightarrow> Inr [(''active_pack_count'', PInt (int (length (rc_active rc)))),
         (''shadow_pack_count'', PInt (int (length (rc_shadow rc)))), (''packs'', PList rows)])"

section \<open>Hit counters\<close>

definition telemetry_flush_every :: int where "telemetry_flush_every = 25"

text \<open>The counters of the process; \<open>tel_writes\<close> counts the rewrites of the telemetry file.\<close>

record telemetry =
  tel_counts :: "(string \<times> int) list"
  tel_since :: pyfloat
  tel_dirty :: int
  tel_loaded :: bool
  tel_writes :: nat

definition telemetry_key :: "string \<Rightarrow> string \<Rightarrow> string \<Rightarrow> string" where
  "telemetry_key pack_file rule_id kind =
     take 160 (if pack_file = [] then ''unknown'' else pack_file) @ ''|'' @
     take 160 (if rule_id = [] then ''unknown'' else rule_id) @ ''|'' @
     take 32 (if kind = [] then ''rule'' else kind)"

definition count_of :: "(string \<times> int) list \<Rightarrow> string \<Rightarrow> int" where
  "count_of counts k = (case map_of counts k of None \<Rightarrow> 0 | Some n \<Rightarrow> n)"

fun merge_counts :: "dict \<Rightarrow> (string \<times> int) list \<Rightarrow> (string \<times> int) list res" where
  "merge_counts [] counts = Inr counts"
| "merge_counts ((k, v) # d) counts = (case py_int v of
       Inl e \<Rightarrow> if e = TypeError \<or> e = ValueError then merge_counts d counts else Inl e
     | Inr n \<Rightarrow> merge_counts d (if n > 0 then AList.update k (count_of counts k + n) counts else counts))"

text \<open>
  \<open>_load_telemetry_file\<close> from the parsed content of the file, \<open>None\<close> when there is none or it
  cannot be read.  An infinite number in the file is an \<open>OverflowError\<close>, which is not handled.
\<close>

definition load_telemetry_file :: "pyval option \<Rightarrow> telemetry \<Rightarrow> telemetry res" where
  "load_telemetry_file content tel = (case content of
       Some (PDict data) \<Rightarrow>
         (case (case dget data ''counts'' of PDict c \<Rightarrow> merge_counts c (tel_counts tel) | _ \<Rightarrow> Inr (tel_counts tel)) of
            Inl e \<Rightarrow> Inl e
          | Inr counts \<Rightarrow> (let tel1 = tel\<lparr>tel_counts := counts\<rparr> in
              case dget data ''since_unix'' of
                PNone \<Rightarrow> Inr tel1
              | su \<Rightarrow> (case py_float su of
                    Inl e \<Rightarrow> if e = TypeError \<or> e = ValueError then Inr tel1 else Inl e
                  | Inr f \<Rightarrow> Inr (tel1\<lparr>tel_since := fmin (tel_since tel1) f\<rparr>))))
     | _ \<Rightarrow> Inr tel)"

definition ensure_telemetry_loaded :: "pyval option \<Rightarrow> telemetry \<Rightarrow> telemetry res" where
  "ensure_telemetry_loaded content tel = (if tel_loaded tel then Inr tel
     else load_telemetry_file content (tel\<lparr>tel_loaded := True\<rparr>))"

definition record_rule_hit :: "pyval option \<Rightarrow> string \<Rightarrow> string \<Rightarrow> string \<Rightarrow> telemetry \<Rightarrow> telemetry res" where
  "record_rule_hit content pack_file rule_id kind tel0 = (case ensure_telemetry_loaded content tel0 of
       Inl e \<Rightarrow> Inl e
     | Inr tel \<Rightarrow> (let key = telemetry_key pack_file rule_id kind;
           tel1 = tel\<lparr>tel_counts := AList.update key (count_of (tel_counts tel) key + 1) (tel_counts tel),
                      tel_dirty := tel_dirty tel + 1\<rparr> in
         Inr (if tel_dirty tel1 \<ge> telemetry_flush_every
              then tel1\<lparr>tel_dirty := 0, tel_writes := Suc (tel_writes tel1)\<rparr> else tel1)))"

text \<open>\<open>_rows_from_hit_map\<close>: the key splits at its first two bars.\<close>

definition hit_row :: "string \<times> int \<Rightarrow> string \<times> string \<times> string \<times> int" where
  "hit_row kn = (case kn of (key, n) \<Rightarrow> (case split_once CHR ''|'' key of
       (a, None) \<Rightarrow> (a, ''unknown'', ''rule'', n)
     | (a, Some r) \<Rightarrow> (case split_once CHR ''|'' r of
           (b, None) \<Rightarrow> (a, b, ''rule'', n)
         | (b, Some c) \<Rightarrow> (a, b, c, n))))"

definition rows_from_hit_map :: "(string \<times> int) list \<Rightarrow> (string \<times> string \<times> string \<times> int) list \<times> int" where
  "rows_from_hit_map counts = (let s = sort_key fst counts in (map hit_row s, sum_list (map snd s)))"

definition merge_redis_tags_with_signals :: "string list \<Rightarrow> string list option \<Rightarrow> string list" where
  "merge_redis_tags_with_signals redis_tags signal_tags =
     fold (\<lambda>t out. if t \<in> set out then out else out @ [t])
       (case signal_tags of None \<Rightarrow> [] | Some ts \<Rightarrow> ts) redis_tags"

section \<open>Lemmas on guards\<close>

lemma flat_when_ast:
  "flat_when feats (map (\<lambda>(op, f, v). PDict (condition_dict op f v)) cs) =
     res_all (map (\<lambda>(op, f, v). match_condition feats (condition_dict op f v)) cs)"
proof (induction cs)
  case (Cons c cs)
  obtain op f v where c: "c = (op, f, v)" by (cases c)
  have "match_condition feats (condition_dict op f v) = Inr False" if "\<not> field_ok (PStr f)"
    using that by (simp add: match_condition_def condition_dict_def)
  then show ?case using Cons by (auto simp: c condition_dict_def Let_def split: sum.splits)
qed simp

lemma fold_max_le: "\<forall>x \<in> set xs. x \<le> (b :: nat) \<Longrightarrow> a \<le> b \<Longrightarrow> fold max xs a \<le> b"
  by (induction xs arbitrary: a) auto

lemma and_of_conditions_limits:
  assumes "length cs \<le> max_conditions_per_rule"
  shows "enforce_ast_limits (AstAnd (map (\<lambda>(op, f, v). AstCondition op f v) cs)) = Inr ()"
proof -
  let ?ch = "map (\<lambda>(op, f, v). AstCondition op f v) cs"
  have "sum_list (map ast_node_count ?ch) = length cs" by (induction cs) auto
  moreover have "fold max (map ast_max_depth ?ch) 0 \<le> 1" by (rule fold_max_le) auto
  ultimately show ?thesis using assms
    by (simp add: enforce_ast_limits_def max_ast_depth_def max_ast_nodes_def max_conditions_per_rule_def)
qed

lemma and_tree_eval: "evaluate_json_ast reg feats (AstAnd (map (\<lambda>(op, f, v). AstCondition op f v) cs)) =
    res_all (map (\<lambda>(op, f, v). match_condition feats (condition_dict op f v)) cs)"
  by (induction cs) (auto split: sum.split)

lemma condition_total: "\<not> isl (match_condition feats (condition_dict op f v))"
  by (cases "map_of feats f") (simp_all add: match_condition_def condition_dict_def lookup_field_def Let_def)

lemma conditions_total: "\<not> isl (res_all (map (\<lambda>(op, f, v). match_condition feats (condition_dict op f v)) cs))"
proof (induction cs)
  case (Cons c cs)
  obtain op f v where c: "c = (op, f, v)" by (cases c)
  obtain b where "match_condition feats (condition_dict op f v) = Inr b"
    using condition_total [of feats op f v] by (cases "match_condition feats (condition_dict op f v)") auto
  then show ?case using Cons by (cases b) (simp_all add: c)
qed simp

lemma match_condition_op:
  assumes "field_ok (PStr f)" and "v = PNone \<or> length (py_str v) \<le> max_value_len"
  shows "match_condition feats (condition_dict op f v) =
    Inr (match_op (PStr op) (has_key feats f) (dget feats f) v)"
  using assms by (cases "map_of feats f")
    (auto simp: match_condition_def condition_dict_def lookup_field_def has_key_def dget_def)

lemma flat_when_true_iff:
  "flat_when feats cs = Inr True \<longleftrightarrow>
    (\<forall>c \<in> set cs. \<exists>d. c = PDict d \<and> field_ok (dget d ''field'') \<and> match_condition feats d = Inr True)"
proof (induction cs)
  case (Cons c cs)
  show ?case
  proof (cases c)
    case (PDict d)
    have "\<not> hashable (dget d ''field'') \<Longrightarrow> field_ok (dget d ''field'') \<Longrightarrow> match_condition feats d = Inl TypeError"
      by (simp add: match_condition_def Let_def)
    then show ?thesis using Cons PDict by (auto simp: Let_def split: sum.splits if_splits)
  qed simp_all
qed simp

section \<open>Lemmas on the rollout gate\<close>

lemma bucket_range: "0 \<le> pack_experiment_bucket t e k \<and> pack_experiment_bucket t e k < 100"
  by (simp add: pack_experiment_bucket_def)

text \<open>The percentage a pack is rolled out to, \<open>None\<close> without one.\<close>

definition canary_pct :: "dict \<Rightarrow> pyfloat option" where
  "canary_pct pack = (case dget pack ''canary_percent'' of PNone \<Rightarrow> None
     | cp \<Rightarrow> (case py_float cp of Inl _ \<Rightarrow> None | Inr pct \<Rightarrow> Some pct))"

lemma canary_gate_pct:
  assumes "canary_pct pack = Some (Fin q)"
  shows "canary_gate pack t e = Inr (if q \<ge> 100 then (True, None)
    else if q \<le> 0 then (False, Some ''canary_zero'')
    else if q \<le> of_int (pack_experiment_bucket t e (pack_key_of pack)) then (False, Some ''canary_excluded'')
    else (True, None))"
  using assms by (cases "dget pack ''canary_percent''")
    (auto simp: canary_pct_def canary_gate_def split: sum.splits)

section \<open>Lemmas on loading\<close>

fun loadable :: "string \<times> pyval option \<Rightarrow> dict option" where
  "loadable (name, Some (PDict d)) = (if py_eq (dget_or d ''version'' (PInt 1)) (PInt 1)
     then Some (dset ''_source_file'' (PStr name) d) else None)"
| "loadable _ = None"

definition pack_mode :: "dict \<Rightarrow> pyval" where
  "pack_mode p = dget_or p ''mode'' (PStr ''active'')"

lemma load_files_partition:
  assumes "\<forall>(name, c) \<in> set fs. \<forall>v. c = Some v \<longrightarrow> (\<exists>d. v = PDict d)"
  shows "load_files fs (act, shd, dis) = Inr
    (act @ filter (\<lambda>p. pack_mode p \<notin> {PStr ''disabled'', PStr ''shadow''}) (List.map_filter loadable fs),
     shd @ filter (\<lambda>p. pack_mode p = PStr ''shadow'') (List.map_filter loadable fs),
     dis @ filter (\<lambda>p. pack_mode p = PStr ''disabled'') (List.map_filter loadable fs))"
  using assms
proof (induction fs arbitrary: act shd dis)
  case Nil
  then show ?case by (simp add: map_filter_simps)
next
  case (Cons f fs)
  obtain name c where f: "f = (name, c)" by (cases f)
  have IH: "load_files fs (a, s, d) = Inr
    (a @ filter (\<lambda>p. pack_mode p \<notin> {PStr ''disabled'', PStr ''shadow''}) (List.map_filter loadable fs),
     s @ filter (\<lambda>p. pack_mode p = PStr ''shadow'') (List.map_filter loadable fs),
     d @ filter (\<lambda>p. pack_mode p = PStr ''disabled'') (List.map_filter loadable fs))" for a s d
    using Cons.prems by (intro Cons.IH) auto
  show ?case
  proof (cases c)
    case None
    then show ?thesis by (simp add: f IH map_filter_simps)
  next
    case (Some v)
    with Cons.prems f obtain d where "v = PDict d" by auto
    with Some show ?thesis by (simp add: f IH map_filter_simps pack_mode_def Let_def)
  qed
qed

lemma load_files_nonobject:
  assumes "(name, Some v) \<in> set fs" and "\<forall>d. v \<noteq> PDict d"
  shows "load_files fs acc = Inl AttributeError"
  using assms
proof (induction fs acc rule: load_files.induct)
  case (2 n content fs act shd dis)
  show ?case
  proof (cases "content = Some v")
    case True
    then show ?thesis using "2.prems"(2) by (cases v) auto
  next
    case False
    then have "(name, Some v) \<in> set fs" using "2.prems"(1) by auto
    then show ?thesis using 2 by (auto simp: Let_def split: option.split pyval.split)
  qed
qed simp

section \<open>Properties\<close>

text \<open>
  C2: a rule guard fails closed.  \<open>evaluate_rule_when\<close> reports a match exactly in two cases: the
  rule has no tree and one to twenty flat conditions, each an object with a usable field name
  that matches; or it has no flat condition and a tree that validates, stays within the depth
  and node limits and evaluates to true.  Both forms together, neither, a malformed condition
  or an error while evaluating the tree never match.
\<close>

theorem rule_guard_exact:
  "evaluate_rule_when reg validate rule feats = Inr True \<longleftrightarrow>
    (\<exists>cs. dget rule ''when'' = PList cs \<and> cs \<noteq> [] \<and> length cs \<le> 20 \<and> dget rule ''when_ast'' = PNone \<and>
      (\<forall>c \<in> set cs. \<exists>d. c = PDict d \<and> field_ok (dget d ''field'') \<and> match_condition feats d = Inr True)) \<or>
    ((\<nexists>cs. dget rule ''when'' = PList cs \<and> cs \<noteq> []) \<and> dget rule ''when_ast'' \<noteq> PNone \<and>
      (\<exists>node. validate (dget rule ''when_ast'') = Some node \<and> ast_max_depth node \<le> 24 \<and>
        ast_node_count node \<le> 384 \<and> evaluate_json_ast reg feats node = Inr True))"
  (is "?L \<longleftrightarrow> ?flat \<or> ?tree")
proof -
  let ?conds = "case dget rule ''when'' of PList cs \<Rightarrow> cs | _ \<Rightarrow> []"
  show ?thesis
  proof (cases "dget rule ''when_ast'' = PNone")
    case True
    have "?L \<longleftrightarrow> (\<exists>cs. dget rule ''when'' = PList cs \<and> cs \<noteq> [] \<and> length cs \<le> 20 \<and> flat_when feats cs = Inr True)"
      by (cases "dget rule ''when''")
        (simp_all add: evaluate_rule_when_def max_conditions_per_rule_def True)
    then show ?thesis using True by (simp add: flat_when_true_iff)
  next
    case False
    have tree: "(case enforce_ast_limits node of Inl _ \<Rightarrow> Inr False
        | Inr _ \<Rightarrow> (case evaluate_json_ast reg feats node of Inl _ \<Rightarrow> Inr False | Inr b \<Rightarrow> Inr b)) = Inr True \<longleftrightarrow>
      ast_max_depth node \<le> 24 \<and> ast_node_count node \<le> 384 \<and> evaluate_json_ast reg feats node = Inr True" for node
      by (cases "evaluate_json_ast reg feats node")
        (auto simp: enforce_ast_limits_def max_ast_depth_def max_ast_nodes_def)
    have "?L \<longleftrightarrow> ?conds = [] \<and> (\<exists>node. validate (dget rule ''when_ast'') = Some node \<and>
        ast_max_depth node \<le> 24 \<and> ast_node_count node \<le> 384 \<and> evaluate_json_ast reg feats node = Inr True)"
      using False unfolding evaluate_rule_when_def Let_def
      by (cases "validate (dget rule ''when_ast'')") (simp_all add: tree)
    moreover have "?conds = [] \<longleftrightarrow> (\<nexists>cs. dget rule ''when'' = PList cs \<and> cs \<noteq> [])"
      by (cases "dget rule ''when''") simp_all
    ultimately show ?thesis using False by simp
  qed
qed

definition demo_rule :: dict where
  "demo_rule = [(''when'', PList [PDict (condition_dict ''gte'' ''amount'' (PInt 100))])]"

theorem rule_guard_exact_witness:
  "evaluate_rule_when empty_registry (\<lambda>_. None) demo_rule [(''amount'', PInt 250)] = Inr True"
proof -
  let ?d = "condition_dict ''gte'' ''amount'' (PInt 100)"
  have "field_ok (dget ?d ''field'') \<and> match_condition [(''amount'', PInt 250)] ?d = Inr True" by code_simp
  then show ?thesis
    unfolding rule_guard_exact by (simp add: demo_rule_def)
qed

text \<open>
  The two forms of a guard agree.  A list of one to twenty conditions gives the same verdict
  as the conjunction tree of the same conditions, on every feature map.
\<close>

theorem flat_guard_is_and_tree:
  assumes "cs \<noteq> []" and "length cs \<le> 20"
    and "dget flat ''when'' = PList (map (\<lambda>(op, f, v). PDict (condition_dict op f v)) cs)"
    and "dget flat ''when_ast'' = PNone"
    and "dget tree ''when'' = PNone" and "dget tree ''when_ast'' \<noteq> PNone"
    and "validate (dget tree ''when_ast'') = Some (AstAnd (map (\<lambda>(op, f, v). AstCondition op f v) cs))"
  shows "evaluate_rule_when reg validate flat feats = evaluate_rule_when reg validate tree feats"
proof -
  have "evaluate_rule_when reg validate flat feats =
      res_all (map (\<lambda>(op, f, v). match_condition feats (condition_dict op f v)) cs)"
    using assms(1-4) flat_when_ast [of feats cs]
    by (simp add: evaluate_rule_when_def max_conditions_per_rule_def)
  moreover have "evaluate_rule_when reg validate tree feats =
      res_all (map (\<lambda>(op, f, v). match_condition feats (condition_dict op f v)) cs)"
    using assms(5-7) and_of_conditions_limits [of cs] assms(2) and_tree_eval [of reg feats cs]
      conditions_total [of feats cs]
    by (auto simp: evaluate_rule_when_def max_conditions_per_rule_def simp del: evaluate_json_ast.simps
        split: sum.split)
  ultimately show ?thesis by simp
qed

theorem flat_guard_is_and_tree_witness:
  "evaluate_rule_when empty_registry (\<lambda>_. Some (AstAnd [AstCondition ''gte'' ''amount'' (PInt 100)])) demo_rule
     [(''amount'', PInt 250)] =
   evaluate_rule_when empty_registry (\<lambda>_. Some (AstAnd [AstCondition ''gte'' ''amount'' (PInt 100)]))
     [(''when_ast'', PDict [])] [(''amount'', PInt 250)]"
  using flat_guard_is_and_tree [of "[(''gte'', ''amount'', PInt 100)]" demo_rule "[(''when_ast'', PDict [])]"]
  by (simp add: demo_rule_def)





end
