(* ===== verification/Signal_Resolver.thy ===== *)
theory Signal_Resolver
  imports Py_Json
begin

text \<open>
  \<open>services/core/src/tarka_core/engine_adapter.py\<close>: collecting the \<open>custom_signal\<close> nodes of rule
  packs, resolving them with the registered plugin handlers and merging the values into the
  feature map before evaluation.

  A handler is a parameter: plugin code that gets the parameters, the features so far, the
  tenant and the entity, and either returns a value within the timeout or not (\<open>None\<close>: it raised
  or ran out of time).
\<close>

type_synonym signal_spec = "string \<times> dict \<times> string"

type_synonym handler = "dict \<Rightarrow> dict \<Rightarrow> string \<Rightarrow> string \<Rightarrow> pyval option"

type_synonym resolver = "(string \<times> handler) list"

definition max_params_json_bytes :: nat where "max_params_json_bytes = 8192"

section \<open>Handlers\<close>

definition resolver_register :: "string \<Rightarrow> handler \<Rightarrow> resolver \<Rightarrow> resolver res" where
  "resolver_register plugin_id fn r = (if strip plugin_id = [] then Inl ValueError
     else Inr (AList.update (strip plugin_id) fn r))"

definition resolver_unregister :: "string \<Rightarrow> resolver \<Rightarrow> resolver" where
  "resolver_unregister plugin_id r = AList.delete (strip plugin_id) r"

definition has_handler :: "resolver \<Rightarrow> string \<Rightarrow> bool" where
  "has_handler r plugin_id = (map_of r (strip plugin_id) \<noteq> None)"

text \<open>The default used for blank tenant and entity ids throughout the rule engine.\<close>

definition or_default_id :: "string \<Rightarrow> string" where
  "or_default_id s = (if strip s = [] then ''default'' else strip s)"

definition resolve_spec :: "resolver \<Rightarrow> string \<Rightarrow> dict \<Rightarrow> dict \<Rightarrow> string \<Rightarrow> string \<Rightarrow> pyval option" where
  "resolve_spec r plugin_id params features tenant_id entity_id =
     (case map_of r (strip plugin_id) of None \<Rightarrow> None
      | Some fn \<Rightarrow> fn params features (or_default_id tenant_id) (or_default_id entity_id))"

text \<open>One turn of the loop of \<open>resolve_all\<close>: the resolved map and the working features.\<close>

definition resolve_step :: "resolver \<Rightarrow> string \<Rightarrow> string \<Rightarrow> signal_spec \<Rightarrow> dict \<times> dict \<Rightarrow> dict \<times> dict" where
  "resolve_step r tid eid spec st = (case (spec, st) of ((plugin_id, params, output_key), (resolved, base)) \<Rightarrow>
     let ok = strip output_key; pid = strip plugin_id in
     if ok = [] \<or> pid = [] then (resolved, base)
     else if \<not> has_handler r pid then (dset ok PNone resolved, base)
     else (case resolve_spec r pid params base tid eid of
         Some v \<Rightarrow> (dset ok v resolved, dset ok v base)
       | None \<Rightarrow> (dset ok PNone resolved, dset ok PNone base)))"

definition resolve_all :: "resolver \<Rightarrow> signal_spec list \<Rightarrow> dict \<Rightarrow> string \<Rightarrow> string \<Rightarrow> dict" where
  "resolve_all r specs features tenant_id entity_id =
     fst (fold (resolve_step r (or_default_id tenant_id) (or_default_id entity_id)) specs ([], features))"

section \<open>Collecting specifications\<close>

lemma dget_size: "dget d k = v \<Longrightarrow> v \<noteq> PNone \<Longrightarrow> size v < size (PDict d)"
proof (induction d)
  case (Cons p d)
  then show ?case by (cases p) (fastforce split: if_splits)
qed simp

lemma list_elem_size: "v \<in> set xs \<Longrightarrow> size v < size (PList xs)"
  by (induction xs) auto

definition spec_params :: "dict \<Rightarrow> dict" where
  "spec_params ast = (let params = (case dget ast ''params'' of PDict p \<Rightarrow> p | _ \<Rightarrow> []) in
     if length (json_dumps True True (PDict params)) > max_params_json_bytes then [] else params)"

definition own_spec :: "dict \<Rightarrow> signal_spec list" where
  "own_spec ast = (if dget ast ''type'' = PStr ''custom_signal'' then
     (case (str_of (dget ast ''plugin_id''), str_of (dget ast ''output_key'')) of
        (Some pid, Some ok) \<Rightarrow> (if strip pid \<noteq> [] \<and> strip ok \<noteq> []
           then [(strip pid, spec_params ast, strip ok)] else [])
      | _ \<Rightarrow> []) else [])"

function iter_custom_signal_specs :: "pyval \<Rightarrow> signal_spec list" where
  "iter_custom_signal_specs (PDict ast) = own_spec ast @ (case dget ast ''children'' of
       PList ch \<Rightarrow> concat (map iter_custom_signal_specs ch) | _ \<Rightarrow> [])"
| "iter_custom_signal_specs PNone = []"
| "iter_custom_signal_specs (PBool b) = []"
| "iter_custom_signal_specs (PInt i) = []"
| "iter_custom_signal_specs (PFloat f) = []"
| "iter_custom_signal_specs (PStr s) = []"
| "iter_custom_signal_specs (PList xs) = []"
  by pat_completeness auto
termination
proof (relation "measure size")
  fix ast ch v
  assume "dget ast ''children'' = PList ch" and "v \<in> set ch"
  then have "size v < size (PList ch)" "size (PList ch) < size (PDict ast)"
    using list_elem_size dget_size by blast+
  then show "(v, PDict ast) \<in> measure size" by simp
qed simp

definition spec_key :: "signal_spec \<Rightarrow> string \<times> string \<times> string" where
  "spec_key s = (case s of (pid, params, ok) \<Rightarrow> (pid, json_dumps True True (PDict params), ok))"

fun dedup_specs :: "signal_spec list \<Rightarrow> (string \<times> string \<times> string) list \<Rightarrow> signal_spec list" where
  "dedup_specs [] seen = []"
| "dedup_specs (s # ss) seen = (if spec_key s \<in> set seen then dedup_specs ss seen
     else s # dedup_specs ss (spec_key s # seen))"

definition pack_specs :: "pyval \<Rightarrow> signal_spec list" where
  "pack_specs pack = (case pack of
       PDict p \<Rightarrow> (case dget p ''rules'' of
           PList rules \<Rightarrow> concat (map (\<lambda>rule. case rule of
               PDict r \<Rightarrow> (case dget r ''when_ast'' of PDict a \<Rightarrow> iter_custom_signal_specs (PDict a) | _ \<Rightarrow> [])
             | _ \<Rightarrow> []) rules)
         | _ \<Rightarrow> [])
     | _ \<Rightarrow> [])"

definition collect_custom_signal_specs_from_packs :: "pyval list \<Rightarrow> signal_spec list" where
  "collect_custom_signal_specs_from_packs packs = dedup_specs (concat (map pack_specs packs)) []"

definition merge_features_with_resolved_from_ast :: "resolver \<Rightarrow> dict \<Rightarrow> pyval \<Rightarrow> string \<Rightarrow> string \<Rightarrow> dict" where
  "merge_features_with_resolved_from_ast r features ast tenant_id entity_id = (case ast of
       PDict _ \<Rightarrow> dict_update features (resolve_all r (iter_custom_signal_specs ast) features tenant_id entity_id)
     | _ \<Rightarrow> features)"

definition merge_features_with_resolved_from_packs :: "resolver \<Rightarrow> dict \<Rightarrow> pyval list \<Rightarrow> string \<Rightarrow> string \<Rightarrow> dict" where
  "merge_features_with_resolved_from_packs r features packs tenant_id entity_id =
     dict_update features
       (resolve_all r (collect_custom_signal_specs_from_packs packs) features tenant_id entity_id)"

section \<open>Lemmas\<close>

text \<open>Collected specifications are stripped and not blank, so none is skipped later.\<close>

definition spec_ok :: "signal_spec \<Rightarrow> bool" where
  "spec_ok s = (case s of (pid, params, ok) \<Rightarrow> pid \<noteq> [] \<and> strip pid = pid \<and> ok \<noteq> [] \<and> strip ok = ok)"

lemma own_spec_ok:
  assumes "s \<in> set (own_spec ast)"
  shows "spec_ok s"
proof -
  from assms have "dget ast ''type'' = PStr ''custom_signal''"
    unfolding own_spec_def by (rule contrapos_pp) simp
  with assms obtain pid ok where "str_of (dget ast ''plugin_id'') = Some pid"
    "str_of (dget ast ''output_key'') = Some ok" "strip pid \<noteq> []" "strip ok \<noteq> []"
    "s = (strip pid, spec_params ast, strip ok)"
    unfolding own_spec_def
    by (cases "str_of (dget ast ''plugin_id'')"; cases "str_of (dget ast ''output_key'')")
      (simp_all split: if_split_asm)
  then show ?thesis by (simp add: spec_ok_def)
qed

lemma iter_specs_ok: "s \<in> set (iter_custom_signal_specs ast) \<Longrightarrow> spec_ok s"
proof (induction ast rule: iter_custom_signal_specs.induct)
  case (1 ast)
  then show ?case using own_spec_ok [of s ast]
    by (cases "dget ast ''children''") auto
qed auto

text \<open>The specifications of one rule.\<close>

definition rule_specs :: "pyval \<Rightarrow> signal_spec list" where
  "rule_specs rule = (case rule of
       PDict r \<Rightarrow> (case dget r ''when_ast'' of PDict a \<Rightarrow> iter_custom_signal_specs (PDict a) | _ \<Rightarrow> [])
     | _ \<Rightarrow> [])"

lemma rule_specs_ok: "s \<in> set (rule_specs rule) \<Longrightarrow> spec_ok s"
proof (cases rule)
  case (PDict r)
  assume "s \<in> set (rule_specs rule)"
  then show ?thesis using iter_specs_ok [of s] PDict
    by (cases "dget r ''when_ast''") (simp_all add: rule_specs_def del: iter_custom_signal_specs.simps)
qed (simp_all add: rule_specs_def)

lemma dedup_specs_props:
  "spec_key ` set (dedup_specs ss seen) = spec_key ` set ss - set seen \<and>
   set (dedup_specs ss seen) \<subseteq> set ss \<and> distinct (map spec_key (dedup_specs ss seen))"
proof (induction ss seen rule: dedup_specs.induct)
  case (2 s ss seen)
  then show ?case by (cases "spec_key s \<in> set seen") auto
qed simp

lemma pack_specs_ok: "s \<in> set (pack_specs pack) \<Longrightarrow> spec_ok s"
proof (cases pack)
  case (PDict p)
  assume "s \<in> set (pack_specs pack)"
  then show ?thesis using rule_specs_ok [of s] PDict
    by (cases "dget p ''rules''") (auto simp: pack_specs_def rule_specs_def [symmetric])
qed (simp_all add: pack_specs_def)

lemma resolve_step_keys:
  assumes "spec_ok (pid, params, ok)"
  shows "has_key (fst (resolve_step r tid eid (pid, params, ok) st)) k \<longleftrightarrow> k = ok \<or> has_key (fst st) k"
  using assms by (cases st) (auto simp: resolve_step_def spec_ok_def Let_def split: option.splits)

lemma resolve_fold_keys:
  assumes "\<forall>s \<in> set specs. spec_ok s"
  shows "has_key (fst (fold (resolve_step r tid eid) specs st)) k \<longleftrightarrow>
    k \<in> (\<lambda>(pid, params, ok). ok) ` set specs \<or> has_key (fst st) k"
  using assms
proof (induction specs arbitrary: st)
  case (Cons s specs)
  obtain pid params ok where s: "s = (pid, params, ok)" by (cases s)
  have "has_key (fst (fold (resolve_step r tid eid) specs (resolve_step r tid eid s st))) k \<longleftrightarrow>
    k \<in> (\<lambda>(pid, params, ok). ok) ` set specs \<or> has_key (fst (resolve_step r tid eid s st)) k"
    using Cons by simp
  then show ?case using Cons.prems resolve_step_keys [of pid params ok] by (auto simp: s)
qed simp

lemma has_key_dict_update: "has_key (dict_update d e) k \<longleftrightarrow> has_key d k \<or> has_key e k"
  unfolding dict_update_def
  by (induction e arbitrary: d) (auto simp: has_key_def update_conv' split: if_splits)

lemma merged_has_output_key:
  assumes "s \<in> set (concat (map pack_specs packs))" and "snd (snd s) = ok"
  shows "has_key (merge_features_with_resolved_from_packs r features packs t e) ok"
proof -
  let ?specs = "collect_custom_signal_specs_from_packs packs"
  have "spec_key s \<in> spec_key ` set ?specs"
    using dedup_specs_props [of "concat (map pack_specs packs)" "[]"] assms(1)
    by (auto simp: collect_custom_signal_specs_from_packs_def)
  then obtain s' where s': "s' \<in> set ?specs" "spec_key s' = spec_key s" by auto
  then have "ok \<in> (\<lambda>(pid, params, ok). ok) ` set ?specs"
    using assms(2) by (force simp: spec_key_def split: prod.splits)
  moreover have "\<forall>s \<in> set ?specs. spec_ok s"
    using dedup_specs_props [of "concat (map pack_specs packs)" "[]"] pack_specs_ok
    by (fastforce simp: collect_custom_signal_specs_from_packs_def)
  ultimately show ?thesis
    unfolding merge_features_with_resolved_from_packs_def has_key_dict_update resolve_all_def
    by (simp add: resolve_fold_keys)
qed

end
