(* ===== verification/Rule_Engine.thy ===== *)
theory Rule_Engine
  imports Json_Rules Signal_Resolver Circuit_Breakers
begin

text \<open>
  Evaluating rule packs: \<open>decision_api/pack_evaluator.py\<close> (the Python engine),
  \<open>rust_rule_engine_ffi.py\<close> (the calls into the Rust extension behind the sliding-window
  breaker) and the entry points of \<open>json_rules.py\<close> that choose between the two.

  What evaluation reads from its surroundings is the record \<open>env\<close>: the tenant registry, the
  tree parser, the wall clock, the plugin handlers and, for the time budget, the answers of the
  successive \<open>_expired\<close> checks.  The Rust extension is a parameter: the JSON object it returns,
  or \<open>None\<close> when the call raises.
\<close>

record env =
  env_reg :: registry
  env_validate :: "pyval \<Rightarrow> ast option"
  env_now :: int
  env_resolver :: resolver
  env_expired :: "nat \<Rightarrow> bool"

datatype engine_err =
    PyErr pyerr
  | BudgetExceeded string string
  | RustCircuitOpen nat
  | RustNotInstalled
  | RustInvocationFailed

section \<open>One pack\<close>

definition iter_eligible_packs :: "bool \<Rightarrow> dict list \<Rightarrow> dict list" where
  "iter_eligible_packs exclude_shadow packs = filter (\<lambda>p.
     py_eq (dget_or p ''version'' (PInt 1)) (PInt 1) \<and> pack_mode p \<noteq> PStr ''disabled'' \<and>
     \<not> (exclude_shadow \<and> pack_mode p = PStr ''shadow'')) packs"

type_synonym hit_row3 = "string \<times> string \<times> string"

text \<open>What evaluation accumulates: hits, tags, score and telemetry rows; \<open>acc_checks\<close> counts
  the budget checks made.\<close>

record acc =
  acc_hits :: "string list"
  acc_tags :: "string list"
  acc_delta :: pyfloat
  acc_tel :: "hit_row3 list"
  acc_checks :: nat

definition acc_empty :: "nat \<Rightarrow> acc" where
  "acc_empty n = \<lparr>acc_hits = [], acc_tags = [], acc_delta = Fin 0, acc_tel = [], acc_checks = n\<rparr>"

text \<open>\<open>float(rule.get("score_delta") or 0.0)\<close>; a value that is no number adds nothing.\<close>

definition add_delta :: "dict \<Rightarrow> pyfloat \<Rightarrow> pyfloat res" where
  "add_delta rule delta = (case py_float (py_or (dget rule ''score_delta'') (PFloat (Fin 0))) of
       Inr f \<Rightarrow> Inr (fadd delta f)
     | Inl e \<Rightarrow> if e = TypeError \<or> e = ValueError then Inr delta else Inl e)"

definition rule_tags :: "dict \<Rightarrow> string list res" where
  "rule_tags rule = (case py_iter (py_or (dget rule ''tags'') (PList [])) of
     Inl e \<Rightarrow> Inl e | Inr ts \<Rightarrow> Inr (str_vals ts))"

definition add_hit :: "string \<Rightarrow> string \<Rightarrow> string \<Rightarrow> dict \<Rightarrow> acc \<Rightarrow> engine_err + acc" where
  "add_hit pf rid kind rule a = (case rule_tags rule of
       Inl e \<Rightarrow> Inl (PyErr e)
     | Inr ts \<Rightarrow> (case add_delta rule (acc_delta a) of
           Inl e \<Rightarrow> Inl (PyErr e)
         | Inr d \<Rightarrow> Inr (a\<lparr>acc_hits := acc_hits a @ [rid], acc_tags := acc_tags a @ ts, acc_delta := d,
             acc_tel := acc_tel a @ [(if pf = [] then ''unknown'' else pf, rid, kind)]\<rparr>)))"

definition rule_id :: "dict \<Rightarrow> string" where
  "rule_id rule = py_str (py_or (dget rule ''id'') (PStr ''unknown''))"

definition eval_rule :: "env \<Rightarrow> dict \<Rightarrow> string \<Rightarrow> dict \<Rightarrow> acc \<Rightarrow> engine_err + acc" where
  "eval_rule ev feats pf rule a0 = (let a = a0\<lparr>acc_checks := Suc (acc_checks a0)\<rparr> in
     if env_expired ev (acc_checks a0) then Inl (BudgetExceeded (rule_id rule) ''rule'')
     else (case evaluate_rule_when (env_reg ev) (env_validate ev) rule feats of
         Inl e \<Rightarrow> Inl (PyErr e)
       | Inr ok \<Rightarrow> if ok then add_hit pf (rule_id rule) ''rule'' rule a else Inr a))"

definition tag_rule_id :: "dict \<Rightarrow> string" where
  "tag_rule_id rule = (let raw = dget rule ''id'' in
     if \<not> truthy raw \<or> strip (py_str raw) = [] then ''tagrule'' else py_str raw)"

definition eval_tag_rule :: "env \<Rightarrow> string list \<Rightarrow> string \<Rightarrow> dict \<Rightarrow> acc \<Rightarrow> engine_err + acc" where
  "eval_tag_rule ev redis_set pf rule a0 = (let a = a0\<lparr>acc_checks := Suc (acc_checks a0)\<rparr> in
     if env_expired ev (acc_checks a0) then Inl (BudgetExceeded (tag_rule_id rule) ''tag_rule'')
     else if evaluate_tag_rule_when (py_or (dget rule ''any_tag'') (PList [])) redis_set
     then add_hit pf (tag_rule_id rule) ''tag_rule'' rule a else Inr a)"

text \<open>A loop over the first rules of a list; elements that are no objects are skipped.\<close>

fun over_rules :: "(dict \<Rightarrow> acc \<Rightarrow> engine_err + acc) \<Rightarrow> pyval list \<Rightarrow> acc \<Rightarrow> engine_err + acc" where
  "over_rules f [] a = Inr a"
| "over_rules f (r # rs) a = (case r of
       PDict rule \<Rightarrow> (case f rule a of Inl e \<Rightarrow> Inl e | Inr a1 \<Rightarrow> over_rules f rs a1)
     | _ \<Rightarrow> over_rules f rs a)"

definition rule_list :: "dict \<Rightarrow> string \<Rightarrow> pyval list" where
  "rule_list pack k = (case dget pack k of PList rs \<Rightarrow> take max_rules_per_pack rs | _ \<Rightarrow> [])"

definition evaluate_one_pack :: "env \<Rightarrow> dict \<Rightarrow> string list \<Rightarrow> string \<Rightarrow> string \<Rightarrow> string \<Rightarrow> nat \<Rightarrow> dict \<Rightarrow>
    engine_err + acc \<times> string option" where
  "evaluate_one_pack ev feats redis_set tid eid mode n pack =
     (case pack_should_apply (env_now ev) pack tid eid mode of
       Inl e \<Rightarrow> Inl (PyErr e)
     | Inr (ok, _) \<Rightarrow>
         if \<not> ok then Inr (acc_empty n, None)
         else (let pf = str_or_empty (dget pack ''_source_file'') in
           case over_rules (eval_rule ev feats pf) (rule_list pack ''rules'') (acc_empty n) of
             Inl e \<Rightarrow> Inl e
           | Inr a1 \<Rightarrow> (case over_rules (eval_tag_rule ev redis_set pf) (rule_list pack ''tag_rules'') a1 of
               Inl e \<Rightarrow> Inl e
             | Inr a2 \<Rightarrow> Inr (a2, if acc_hits a2 \<noteq> [] then Some pf else None))))"

section \<open>All packs\<close>

record pack_result =
  pr_hits :: "string list"
  pr_tags :: "string list"
  pr_delta :: pyfloat
  pr_files :: "string list"
  pr_tel :: "hit_row3 list"

definition known_mode :: "string \<Rightarrow> string" where
  "known_mode m = (if m \<in> set [''production'', ''simulation'', ''challenger''] then m else ''production'')"

fun over_packs :: "env \<Rightarrow> dict \<Rightarrow> string list \<Rightarrow> string \<Rightarrow> string \<Rightarrow> string \<Rightarrow> dict list \<Rightarrow>
    pack_result \<Rightarrow> nat \<Rightarrow> engine_err + pack_result" where
  "over_packs ev feats redis_set tid eid mode [] r n = Inr r"
| "over_packs ev feats redis_set tid eid mode (p # ps) r n =
     (case evaluate_one_pack ev feats redis_set tid eid mode n p of
       Inl e \<Rightarrow> Inl e
     | Inr (a, pf) \<Rightarrow> over_packs ev feats redis_set tid eid mode ps
         \<lparr>pr_hits = pr_hits r @ acc_hits a, pr_tags = pr_tags r @ acc_tags a,
          pr_delta = fadd (pr_delta r) (acc_delta a),
          pr_files = pr_files r @ (case pf of None \<Rightarrow> [] | Some f \<Rightarrow> [f]),
          pr_tel = pr_tel r @ acc_tel a\<rparr> (acc_checks a))"

definition result_empty :: pack_result where
  "result_empty = \<lparr>pr_hits = [], pr_tags = [], pr_delta = Fin 0, pr_files = [], pr_tel = []\<rparr>"

definition evaluate_packs_python :: "env \<Rightarrow> dict list \<Rightarrow> dict \<Rightarrow> string list \<Rightarrow> string \<Rightarrow> string \<Rightarrow> string \<Rightarrow> bool \<Rightarrow>
    engine_err + pack_result" where
  "evaluate_packs_python ev packs features redis_tags tenant_id entity_id mode exclude_shadow = (let
     tid = or_default_id tenant_id; eid = or_default_id entity_id;
     eligible = iter_eligible_packs exclude_shadow packs;
     fmap = merge_features_with_resolved_from_packs (env_resolver ev) features (map PDict eligible) tid eid in
     case over_packs ev fmap redis_tags tid eid (known_mode mode) eligible result_empty 0 of
       Inl e \<Rightarrow> Inl e
     | Inr r \<Rightarrow> Inr (r\<lparr>pr_files := sort (remdups (pr_files r))\<rparr>))"

section \<open>Calling the Rust engine\<close>

record rust_gate =
  rg_window :: rat
  rg_threshold :: int
  rg_failures :: failure_times
  rg_installed :: bool

definition engine_mode :: "string \<Rightarrow> string" where
  "engine_mode configured = (let v = lower (strip (if configured = [] then ''auto'' else configured)) in
     if v \<in> set [''auto'', ''rust'', ''python''] then v else ''auto'')"

definition should_use_rust_json_engine :: "string \<Rightarrow> rust_gate \<Rightarrow> bool" where
  "should_use_rust_json_engine configured rg =
     (if engine_mode configured = ''python'' then False else rg_installed rg)"

text \<open>
  The gate both Rust entry points put around the call, at clock time \<open>t\<close>: an open circuit
  refuses without calling, a raise is recorded as a failure, a result clears the window.
\<close>

definition guarded_rust_call :: "rat \<Rightarrow> pyval option \<Rightarrow> rust_gate \<Rightarrow> (engine_err + pyval) \<times> rust_gate" where
  "guarded_rust_call t outcome rg = (case circuit_is_open (rg_window rg) (rg_threshold rg) t (rg_failures rg) of
     (is_open, q) \<Rightarrow>
       if is_open then (Inl (RustCircuitOpen (length q)), rg\<lparr>rg_failures := q\<rparr>)
       else if \<not> rg_installed rg then (Inl RustNotInstalled, rg\<lparr>rg_failures := q\<rparr>)
       else (case outcome of
           None \<Rightarrow> (Inl RustInvocationFailed,
             rg\<lparr>rg_failures := snd (record_rust_ffi_failure (rg_window rg) t q)\<rparr>)
         | Some out \<Rightarrow> (Inr out, rg\<lparr>rg_failures := record_rust_ffi_success q\<rparr>)))"

text \<open>The arguments that reach the extension on the production path.\<close>

type_synonym rust_call = "dict \<Rightarrow> string list \<Rightarrow> string \<Rightarrow> string \<Rightarrow> string \<Rightarrow> string list option \<Rightarrow> pyval option"

definition evaluate_cached_packs_via_rust :: "env \<Rightarrow> rust_call \<Rightarrow> rat \<Rightarrow> dict list \<Rightarrow> dict \<Rightarrow> string list \<Rightarrow>
    string \<Rightarrow> string \<Rightarrow> string \<Rightarrow> string list option \<Rightarrow> rust_gate \<Rightarrow> (engine_err + pyval) \<times> rust_gate" where
  "evaluate_cached_packs_via_rust ev rust t cached features redis_tags tenant_id entity_id mode signal_tags rg =
     (let tid = or_default_id tenant_id; eid = or_default_id entity_id;
          merged = merge_features_with_resolved_from_packs (env_resolver ev) features (map PDict cached) tid eid
      in guarded_rust_call t (rust merged redis_tags tid eid (known_mode mode)
           (case signal_tags of Some [] \<Rightarrow> None | st \<Rightarrow> st)) rg)"

definition evaluate_json_rules_via_rust :: "env \<Rightarrow> (dict list \<Rightarrow> rust_call) \<Rightarrow> rat \<Rightarrow> dict list \<Rightarrow> dict \<Rightarrow> string list \<Rightarrow>
    string \<Rightarrow> string \<Rightarrow> string \<Rightarrow> string list option \<Rightarrow> rust_gate \<Rightarrow> (engine_err + pyval) \<times> rust_gate" where
  "evaluate_json_rules_via_rust ev rust t packs features redis_tags tenant_id entity_id mode signal_tags rg =
     (let tid = or_default_id tenant_id; eid = or_default_id entity_id;
          merged = merge_features_with_resolved_from_packs (env_resolver ev) features (map PDict packs) tid eid
      in guarded_rust_call t (rust packs merged redis_tags tid eid (known_mode mode)
           (case signal_tags of Some [] \<Rightarrow> None | st \<Rightarrow> st)) rg)"

section \<open>Entry points\<close>

type_synonym rule_tuple = "string list \<times> string list \<times> pyfloat \<times> string list"

definition str_items :: "pyval \<Rightarrow> string list res" where
  "str_items v = (case py_iter (py_or v (PList [])) of Inl e \<Rightarrow> Inl e | Inr xs \<Rightarrow> Inr (map py_str xs))"

definition rust_eval_to_tuple :: "dict \<Rightarrow> rule_tuple res" where
  "rust_eval_to_tuple out = (case str_items (dget out ''rule_hits'') of Inl e \<Rightarrow> Inl e | Inr hits \<Rightarrow>
     (case str_items (dget out ''tags'') of Inl e \<Rightarrow> Inl e | Inr tags \<Rightarrow>
     (case py_float (py_or (dget out ''score_delta'') (PFloat (Fin 0))) of Inl e \<Rightarrow> Inl e | Inr delta \<Rightarrow>
     (case str_items (dget out ''contributing_pack_files'') of Inl e \<Rightarrow> Inl e | Inr files \<Rightarrow>
       Inr (hits, tags, delta, files)))))"

definition telemetry_rows :: "dict \<Rightarrow> hit_row3 list res" where
  "telemetry_rows out = (case py_iter (py_or (dget out ''telemetry'') (PList [])) of Inl e \<Rightarrow> Inl e
     | Inr rows \<Rightarrow> Inr (map (\<lambda>row. (py_str (py_or (dget row ''pack_file'') (PStr ''unknown'')),
         py_str (py_or (dget row ''rule_id'') (PStr ''unknown'')), py_str (py_or (dget row ''kind'') (PStr ''rule''))))
         (dict_vals rows)))"

fun record_rows :: "pyval option \<Rightarrow> hit_row3 list \<Rightarrow> telemetry \<Rightarrow> telemetry res" where
  "record_rows content [] tel = Inr tel"
| "record_rows content ((pf, rid, kind) # rows) tel = (case record_rule_hit content pf rid kind tel of
     Inl e \<Rightarrow> Inl e | Inr tel1 \<Rightarrow> record_rows content rows tel1)"

text \<open>\<open>_apply_telemetry_from_rust\<close>.\<close>

definition apply_telemetry_from_rust :: "pyval option \<Rightarrow> dict \<Rightarrow> telemetry \<Rightarrow> telemetry res" where
  "apply_telemetry_from_rust content out tel = (case telemetry_rows out of
     Inl e \<Rightarrow> Inl e | Inr rows \<Rightarrow> record_rows content rows tel)"

definition str_pyval_list :: "string list \<Rightarrow> pyval" where
  "str_pyval_list xs = PList (map PStr xs)"

text \<open>The dictionary \<open>evaluate_packs_python\<close> returns.\<close>

definition result_dict :: "bool \<Rightarrow> pack_result \<Rightarrow> dict" where
  "result_dict fallback_active r = [(''rule_hits'', str_pyval_list (pr_hits r)), (''tags'', str_pyval_list (pr_tags r)),
     (''score_delta'', PFloat (pr_delta r)), (''contributing_pack_files'', str_pyval_list (pr_files r)),
     (''telemetry'', PList (map (\<lambda>(pf, rid, kind). PDict [(''pack_file'', PStr pf), (''rule_id'', PStr rid),
        (''kind'', PStr kind)]) (pr_tel r))),
     (''metadata'', PDict [(''fallback_active'', PBool fallback_active), (''engine'', PStr ''python'')])]"

record engine_state =
  es_gate :: rust_gate
  es_tel :: telemetry
  es_meta :: "string \<times> bool"

text \<open>The tail both engines share: count the hits, note the engine, project the tuple.\<close>

definition finish_eval :: "pyval option \<Rightarrow> bool \<Rightarrow> string \<times> bool \<Rightarrow> pyval \<Rightarrow> engine_state \<Rightarrow>
    (engine_err + rule_tuple) \<times> engine_state" where
  "finish_eval content record_tel meta out s = (case out of
       PDict d \<Rightarrow> (case (if record_tel then apply_telemetry_from_rust content d (es_tel s) else Inr (es_tel s)) of
           Inl e \<Rightarrow> (Inl (PyErr e), s)
         | Inr tel \<Rightarrow> (let s1 = s\<lparr>es_tel := tel, es_meta := meta\<rparr> in
             case rust_eval_to_tuple d of Inl e \<Rightarrow> (Inl (PyErr e), s1) | Inr t \<Rightarrow> (Inr t, s1)))
     | _ \<Rightarrow> (Inl (PyErr AttributeError), s))"

definition evaluate_json_rules :: "env \<Rightarrow> rust_call \<Rightarrow> rat \<Rightarrow> string \<Rightarrow> pyval option \<Rightarrow> dict list \<Rightarrow> dict \<Rightarrow>
    string list \<Rightarrow> string \<Rightarrow> string \<Rightarrow> string \<Rightarrow> string list option \<Rightarrow> engine_state \<Rightarrow>
    (engine_err + rule_tuple) \<times> engine_state" where
  "evaluate_json_rules ev rust t configured content cached features redis_tags tenant_id entity_id mode signal_tags s =
     (if should_use_rust_json_engine configured (es_gate s) then
        (case evaluate_cached_packs_via_rust ev rust t cached features redis_tags tenant_id entity_id
            (known_mode mode) signal_tags (es_gate s) of
           (Inl e, rg) \<Rightarrow> (Inl e, s\<lparr>es_gate := rg\<rparr>)
         | (Inr out, rg) \<Rightarrow> finish_eval content True (''rust'', False) out (s\<lparr>es_gate := rg\<rparr>))
      else (let fallback = engine_mode configured \<noteq> ''python'' in
        case evaluate_packs_python ev cached features (merge_redis_tags_with_signals redis_tags signal_tags)
            (or_default_id tenant_id) (or_default_id entity_id) (known_mode mode) True of
          Inl e \<Rightarrow> (Inl e, s)
        | Inr r \<Rightarrow> finish_eval content True (''python'', fallback) (PDict (result_dict fallback r)) s))"

definition evaluate_adhoc_packs_json :: "env \<Rightarrow> (dict list \<Rightarrow> rust_call) \<Rightarrow> rat \<Rightarrow> string \<Rightarrow> pyval option \<Rightarrow> bool \<Rightarrow>
    dict list \<Rightarrow> dict \<Rightarrow> string list \<Rightarrow> string \<Rightarrow> string \<Rightarrow> string \<Rightarrow> string list option \<Rightarrow> engine_state \<Rightarrow>
    (engine_err + rule_tuple) \<times> engine_state" where
  "evaluate_adhoc_packs_json ev rust t configured content record_tel packs features redis_tags tenant_id entity_id mode
     signal_tags s =
     (if should_use_rust_json_engine configured (es_gate s) then
        (case evaluate_json_rules_via_rust ev rust t packs features redis_tags tenant_id entity_id
            (known_mode mode) signal_tags (es_gate s) of
           (Inl e, rg) \<Rightarrow> (Inl e, s\<lparr>es_gate := rg\<rparr>)
         | (Inr out, rg) \<Rightarrow> finish_eval content record_tel (''rust'', False) out (s\<lparr>es_gate := rg\<rparr>))
      else (let fallback = engine_mode configured \<noteq> ''python'' in
        case evaluate_packs_python ev packs features (merge_redis_tags_with_signals redis_tags signal_tags)
            (or_default_id tenant_id) (or_default_id entity_id) (known_mode mode) False of
          Inl e \<Rightarrow> (Inl e, s)
        | Inr r \<Rightarrow> finish_eval content record_tel (''python'', fallback) (PDict (result_dict fallback r)) s))"

section \<open>Packs are evaluated one by one\<close>

text \<open>Without time pressure the number of checks made before does not matter.\<close>

definition shift :: "nat \<Rightarrow> acc \<Rightarrow> acc" where
  "shift n a = a\<lparr>acc_checks := acc_checks a + n\<rparr>"

lemma shift_simps [simp]:
  "acc_hits (shift n a) = acc_hits a" "acc_tags (shift n a) = acc_tags a" "acc_delta (shift n a) = acc_delta a"
  "acc_tel (shift n a) = acc_tel a" "acc_checks (shift n a) = acc_checks a + n"
  by (simp_all add: shift_def)

definition map_inr :: "('a \<Rightarrow> 'b) \<Rightarrow> engine_err + 'a \<Rightarrow> engine_err + 'b" where
  "map_inr f r = (case r of Inl e \<Rightarrow> Inl e | Inr x \<Rightarrow> Inr (f x))"

lemma map_inr_simps [simp]: "map_inr f (Inl e) = Inl e" "map_inr f (Inr x) = Inr (f x)"
  by (simp_all add: map_inr_def)

lemma add_hit_shift: "add_hit pf rid kind rule (shift n a) = map_inr (shift n) (add_hit pf rid kind rule a)"
  by (auto simp: add_hit_def shift_def split: sum.split)

lemma eval_rule_shift:
  "(\<And>k. \<not> env_expired ev k) \<Longrightarrow> eval_rule ev feats pf rule (shift n a) = map_inr (shift n) (eval_rule ev feats pf rule a)"
  using add_hit_shift [of pf "rule_id rule" "''rule''" rule n "a\<lparr>acc_checks := Suc (acc_checks a)\<rparr>"]
  by (auto simp: eval_rule_def shift_def Let_def split: sum.split)

lemma eval_tag_rule_shift:
  "(\<And>k. \<not> env_expired ev k) \<Longrightarrow> eval_tag_rule ev rs pf rule (shift n a) = map_inr (shift n) (eval_tag_rule ev rs pf rule a)"
  using add_hit_shift [of pf "tag_rule_id rule" "''tag_rule''" rule n "a\<lparr>acc_checks := Suc (acc_checks a)\<rparr>"]
  by (auto simp: eval_tag_rule_def shift_def Let_def)

lemma over_rules_shift:
  assumes "\<And>rule a. f rule (shift n a) = map_inr (shift n) (f rule a)"
  shows "over_rules f rs (shift n a) = map_inr (shift n) (over_rules f rs a)"
proof (induction rs arbitrary: a)
  case (Cons r rs)
  show ?case
  proof (cases r)
    case (PDict rule)
    then show ?thesis using Cons assms [of rule a] by (cases "f rule a") auto
  qed (use Cons in auto)
qed simp

definition shift_pair :: "nat \<Rightarrow> acc \<times> string option \<Rightarrow> acc \<times> string option" where
  "shift_pair n p = (shift n (fst p), snd p)"

lemma evaluate_one_pack_shift:
  assumes "\<And>k. \<not> env_expired ev k"
  shows "evaluate_one_pack ev feats rs tid eid mode n pack =
    map_inr (shift_pair n) (evaluate_one_pack ev feats rs tid eid mode 0 pack)"
proof -
  let ?pf = "str_or_empty (dget pack ''_source_file'')"
  have r: "over_rules (eval_rule ev feats ?pf) xs (shift n a) =
      map_inr (shift n) (over_rules (eval_rule ev feats ?pf) xs a)" for xs a
    by (rule over_rules_shift) (rule eval_rule_shift [OF assms])
  have t: "over_rules (eval_tag_rule ev rs ?pf) xs (shift n a) =
      map_inr (shift n) (over_rules (eval_tag_rule ev rs ?pf) xs a)" for xs a
    by (rule over_rules_shift) (rule eval_tag_rule_shift [OF assms])
  have e: "acc_empty n = shift n (acc_empty 0)" by (simp add: acc_empty_def shift_def)
  show ?thesis
    unfolding evaluate_one_pack_def Let_def e r
    by (cases "over_rules (eval_rule ev feats ?pf) (rule_list pack ''rules'') (acc_empty 0)")
      (auto simp: t shift_pair_def map_inr_def split: sum.split prod.split)
qed

text \<open>What one pack contributes on its own.\<close>

definition contribution :: "env \<Rightarrow> dict \<Rightarrow> string list \<Rightarrow> string \<Rightarrow> string \<Rightarrow> string \<Rightarrow> dict \<Rightarrow>
    engine_err + acc \<times> string option" where
  "contribution ev feats rs tid eid mode pack = evaluate_one_pack ev feats rs tid eid mode 0 pack"

definition extend :: "acc \<times> string option \<Rightarrow> pack_result \<Rightarrow> pack_result" where
  "extend c r = \<lparr>pr_hits = pr_hits r @ acc_hits (fst c), pr_tags = pr_tags r @ acc_tags (fst c),
     pr_delta = fadd (pr_delta r) (acc_delta (fst c)),
     pr_files = pr_files r @ (case snd c of None \<Rightarrow> [] | Some f \<Rightarrow> [f]), pr_tel = pr_tel r @ acc_tel (fst c)\<rparr>"

lemma over_packs_contributions:
  assumes "\<And>k. \<not> env_expired ev k" and "list_all2 (\<lambda>p c. contribution ev feats rs tid eid mode p = Inr c) ps cs"
  shows "over_packs ev feats rs tid eid mode ps r n = Inr (fold extend cs r)"
  using assms(2)
proof (induction ps cs arbitrary: r n rule: list_all2_induct)
  case (Cons p ps c cs)
  have "evaluate_one_pack ev feats rs tid eid mode n p = Inr (shift n (fst c), snd c)"
    using evaluate_one_pack_shift [OF assms(1), of feats rs tid eid mode n p] Cons(1)
    by (simp add: contribution_def shift_pair_def)
  then show ?case using Cons(3) by (simp add: extend_def)
qed simp

lemma fold_extend_fields:
  "pr_hits (fold extend cs r) = pr_hits r @ concat (map (\<lambda>c. acc_hits (fst c)) cs)"
  "pr_tags (fold extend cs r) = pr_tags r @ concat (map (\<lambda>c. acc_tags (fst c)) cs)"
  "pr_delta (fold extend cs r) = fold (\<lambda>c d. fadd d (acc_delta (fst c))) cs (pr_delta r)"
  "pr_files (fold extend cs r) = pr_files r @ concat (map (\<lambda>c. case snd c of None \<Rightarrow> [] | Some f \<Rightarrow> [f]) cs)"
  "pr_tel (fold extend cs r) = pr_tel r @ concat (map (\<lambda>c. acc_tel (fst c)) cs)"
  by (induction cs arbitrary: r) (simp_all add: extend_def)

section \<open>Every hit has its telemetry row\<close>

definition tel_matches :: "acc \<Rightarrow> bool" where
  "tel_matches a = (map (\<lambda>(pf, rid, kind). rid) (acc_tel a) = acc_hits a)"

lemma tel_matches_add_hit: "tel_matches a \<Longrightarrow> add_hit pf rid kind rule a = Inr b \<Longrightarrow> tel_matches b"
  by (auto simp: add_hit_def tel_matches_def split: sum.splits)

lemma tel_matches_over_rules:
  assumes "\<And>rule a b. tel_matches a \<Longrightarrow> f rule a = Inr b \<Longrightarrow> tel_matches b"
  shows "tel_matches a \<Longrightarrow> over_rules f rs a = Inr b \<Longrightarrow> tel_matches b"
proof (induction rs arbitrary: a)
  case (Cons r rs)
  show ?case
  proof (cases r)
    case (PDict rule)
    then show ?thesis using Cons assms by (auto split: sum.splits)
  qed (use Cons in auto)
qed simp

lemma tel_matches_checks [simp]: "tel_matches (a\<lparr>acc_checks := n\<rparr>) = tel_matches a"
  by (simp add: tel_matches_def)

lemma tel_matches_pack:
  assumes "evaluate_one_pack ev feats rs tid eid mode n pack = Inr (a, pf)"
  shows "tel_matches a"
proof -
  have 0: "tel_matches (acc_empty n)" by (simp add: tel_matches_def acc_empty_def)
  have 1: "tel_matches b" if "tel_matches a" "eval_rule ev feats pf rule a = Inr b" for rule a b pf
    using that tel_matches_add_hit [of "a\<lparr>acc_checks := Suc (acc_checks a)\<rparr>"]
    by (auto simp: eval_rule_def Let_def split: sum.splits if_splits)
  have 2: "tel_matches b" if "tel_matches a" "eval_tag_rule ev rs pf rule a = Inr b" for rule a b pf
    using that tel_matches_add_hit [of "a\<lparr>acc_checks := Suc (acc_checks a)\<rparr>"]
    by (auto simp: eval_tag_rule_def Let_def split: if_splits)
  have 3: "tel_matches c" if "over_rules (eval_rule ev feats pf) xs (acc_empty n) = Inr b"
    "over_rules (eval_tag_rule ev rs pf) ys b = Inr c" for pf xs ys b c
  proof -
    have b: "tel_matches b" by (rule tel_matches_over_rules [OF _ 0 that(1)]) (rule 1)
    show ?thesis by (rule tel_matches_over_rules [OF _ b that(2)]) (rule 2)
  qed
  show ?thesis using assms 0 3
    by (auto simp: evaluate_one_pack_def Let_def split: sum.splits if_splits)
qed

section \<open>Failing calls into the extension\<close>

fun failing_rust_calls :: "rat list \<Rightarrow> rust_gate \<Rightarrow> (engine_err + pyval) list \<times> rust_gate" where
  "failing_rust_calls [] rg = ([], rg)"
| "failing_rust_calls (t # ts) rg = (case guarded_rust_call t None rg of (r, rg1) \<Rightarrow>
     (case failing_rust_calls ts rg1 of (rs, rg2) \<Rightarrow> (r # rs, rg2)))"

lemma ffi_prune_recent: "\<forall>x \<in> set q. t - w \<le> x \<Longrightarrow> ffi_prune w t q = q"
  by (cases q) (auto simp: ffi_prune_def)

lemma guarded_rust_call_recent:
  assumes "\<forall>x \<in> set (rg_failures rg). t - rg_window rg \<le> x"
  shows "guarded_rust_call t outcome rg =
    (if max 1 (rg_threshold rg) \<le> int (length (rg_failures rg)) then (Inl (RustCircuitOpen (length (rg_failures rg))), rg)
     else if \<not> rg_installed rg then (Inl RustNotInstalled, rg)
     else (case outcome of
         None \<Rightarrow> (Inl RustInvocationFailed, rg\<lparr>rg_failures := snd (record_rust_ffi_failure (rg_window rg) t (rg_failures rg))\<rparr>)
       | Some out \<Rightarrow> (Inr out, rg\<lparr>rg_failures := []\<rparr>)))"
  using ffi_prune_recent [OF assms]
  by (simp add: guarded_rust_call_def circuit_is_open_def failures_in_window_def ffi_threshold_def
      record_rust_ffi_success_def Let_def split: option.split)

lemma failing_rust_calls_recent:
  assumes "rg_installed rg" and "0 \<le> rg_window rg"
    and "\<forall>t \<in> set ts. \<forall>x \<in> set (rg_failures rg) \<union> set ts. t - rg_window rg \<le> x"
    and "int (length (rg_failures rg) + length ts) \<le> max 1 (rg_threshold rg)"
  shows "failing_rust_calls ts rg = (replicate (length ts) (Inl RustInvocationFailed),
    rg\<lparr>rg_failures := rg_failures rg @ ts\<rparr>)"
  using assms
proof (induction ts arbitrary: rg)
  case (Cons t ts)
  let ?q = "rg_failures rg"
  have recent: "\<forall>x \<in> set ?q. t - rg_window rg \<le> x" using Cons.prems(3) by simp
  have rec: "snd (record_rust_ffi_failure (rg_window rg) t ?q) = ?q @ [t]"
    using ffi_prune_recent [OF recent] ffi_prune_recent [of "?q @ [t]" t "rg_window rg"] recent Cons.prems(2)
    by (simp add: record_rust_ffi_failure_def Let_def)
  have call: "guarded_rust_call t None rg = (Inl RustInvocationFailed, rg\<lparr>rg_failures := ?q @ [t]\<rparr>)"
  proof -
    have "\<not> max 1 (rg_threshold rg) \<le> int (length ?q)" using Cons.prems(4) by simp linarith
    then show ?thesis
      unfolding guarded_rust_call_recent [OF recent] using rec Cons.prems(1) by (simp only: if_False) simp
  qed
  have "failing_rust_calls ts (rg\<lparr>rg_failures := ?q @ [t]\<rparr>) = (replicate (length ts) (Inl RustInvocationFailed),
      (rg\<lparr>rg_failures := ?q @ [t]\<rparr>)\<lparr>rg_failures := (?q @ [t]) @ ts\<rparr>)"
    using Cons.prems Cons.IH [of "rg\<lparr>rg_failures := ?q @ [t]\<rparr>"] by auto
  then show ?case by (simp add: call)
qed simp

section \<open>Counting hits\<close>

definition total_hits :: "telemetry \<Rightarrow> int" where
  "total_hits tel = sum_list (map snd (tel_counts tel))"

lemma sum_update_count:
  "sum_list (map snd (AList.update k (count_of xs k + 1) xs)) = sum_list (map snd xs) + 1"
  by (induction xs) (auto simp: count_of_def)

lemma record_rule_hit_total:
  assumes "tel_loaded tel"
  shows "\<exists>tel'. record_rule_hit content pf rid kind tel = Inr tel' \<and> tel_loaded tel' \<and> total_hits tel' = total_hits tel + 1"
  using assms by (auto simp: record_rule_hit_def ensure_telemetry_loaded_def total_hits_def sum_update_count Let_def)

lemma record_rows_total:
  assumes "tel_loaded tel"
  shows "\<exists>tel'. record_rows content rows tel = Inr tel' \<and> total_hits tel' = total_hits tel + int (length rows)"
  using assms
proof (induction rows arbitrary: tel)
  case (Cons row rows)
  obtain pf rid kind where row: "row = (pf, rid, kind)" by (cases row)
  obtain tel1 where t1: "record_rule_hit content pf rid kind tel = Inr tel1" "tel_loaded tel1"
      "total_hits tel1 = total_hits tel + 1"
    using record_rule_hit_total [OF Cons.prems] by blast
  then show ?case using Cons.IH [OF t1(2)] by (auto simp: row)
qed simp

lemma str_items_strs: "str_items (str_pyval_list xs) = Inr xs"
  by (simp add: str_items_def str_pyval_list_def py_or_def comp_def)

lemma rust_eval_to_tuple_result:
  "rust_eval_to_tuple (result_dict fb r) = Inr (pr_hits r, pr_tags r,
     (if pr_delta r = Fin 0 then Fin 0 else pr_delta r), pr_files r)"
  by (simp add: rust_eval_to_tuple_def result_dict_def str_items_strs py_or_def)

lemma telemetry_rows_result:
  "\<exists>rows. telemetry_rows (result_dict fb r) = Inr rows \<and> length rows = length (pr_tel r)"
proof -
  let ?row = "\<lambda>(pf, rid, kind). PDict [(''pack_file'', PStr pf), (''rule_id'', PStr rid), (''kind'', PStr kind)]"
  have "length (dict_vals (map ?row xs)) = length xs" for xs :: "hit_row3 list"
    by (induction xs) (auto simp: dict_vals_def map_filter_simps)
  then show ?thesis
    by (auto simp: telemetry_rows_def result_dict_def py_or_def dict_vals_def map_filter_simps)
qed

lemma over_packs_tel:
  "over_packs ev feats rs tid eid mode ps r n = Inr r' \<Longrightarrow> length (pr_tel r) = length (pr_hits r) \<Longrightarrow>
     length (pr_tel r') = length (pr_hits r')"
proof (induction ps arbitrary: r n)
  case (Cons p ps)
  then obtain a pf where c: "evaluate_one_pack ev feats rs tid eid mode n p = Inr (a, pf)"
    by (auto split: sum.splits)
  have "length (acc_tel a) = length (acc_hits a)"
    using tel_matches_pack [OF c] unfolding tel_matches_def by (metis length_map)
  then show ?case using Cons.prems Cons.IH c by fastforce
qed simp

section \<open>Properties\<close>


definition demo_env :: env where
  "demo_env = \<lparr>env_reg = empty_registry, env_validate = \<lambda>_. None, env_now = 0, env_resolver = [], env_expired = \<lambda>_. False\<rparr>"

definition demo_pack :: dict where
  "demo_pack = [(''_source_file'', PStr ''p.json''),
     (''tag_rules'', PList [PDict [(''id'', PStr ''r1''), (''any_tag'', PList [PStr ''vip'']), (''score_delta'', PInt 5)]])]"


text \<open>
  C9: Rust failures open the circuit and never fall back to Python.  With the Rust engine
  selected and installed, a run of \<open>max 1 threshold\<close> failing calls within one window makes each
  of them fail with the invocation error, and every evaluation after that inside the window is
  refused with the number of failures, before the extension is called, with no rule result and
  no telemetry.
\<close>

theorem rust_failures_open_circuit:
  assumes "should_use_rust_json_engine configured rg" and "0 \<le> rg_window rg" and "rg_failures rg = []"
    and "int (length ts) = max 1 (rg_threshold rg)" and "\<forall>t \<in> set (ts @ [now]). \<forall>x \<in> set ts. t - rg_window rg \<le> x"
    and "failing_rust_calls ts rg = (rs, rg')" and "es_gate s = rg'"
  shows "rs = replicate (length ts) (Inl RustInvocationFailed) \<and>
    evaluate_json_rules ev rust now configured content cached feats tags t e mode sigs s =
      (Inl (RustCircuitOpen (length ts)), s)"
proof -
  have inst: "rg_installed rg" using assms(1) by (simp add: should_use_rust_json_engine_def split: if_splits)
  have "failing_rust_calls ts rg = (replicate (length ts) (Inl RustInvocationFailed), rg\<lparr>rg_failures := ts\<rparr>)"
    using failing_rust_calls_recent [OF inst assms(2), of ts] assms(3-5) by simp
  with assms(6) have rs: "rs = replicate (length ts) (Inl RustInvocationFailed)"
    and rg': "rg' = rg\<lparr>rg_failures := ts\<rparr>" by auto
  have "guarded_rust_call now outcome rg' = (Inl (RustCircuitOpen (length ts)), rg')" for outcome
    using guarded_rust_call_recent [of rg' now outcome] assms(4,5) by (simp add: rg')
  moreover have "should_use_rust_json_engine configured rg'"
    using assms(1) by (auto simp: rg' should_use_rust_json_engine_def split: if_splits)
  moreover have "s\<lparr>es_gate := rg'\<rparr> = s" using assms(7) by simp
  ultimately show ?thesis
    using rs assms(7) by (simp add: evaluate_json_rules_def evaluate_cached_packs_via_rust_def Let_def)
qed

theorem rust_failures_open_circuit_witness:
  "let rg = \<lparr>rg_window = 60, rg_threshold = 2, rg_failures = [], rg_installed = True\<rparr> in
     fst (failing_rust_calls [1, 5] rg) = [Inl RustInvocationFailed, Inl RustInvocationFailed]"
proof -
  let ?rg = "\<lparr>rg_window = 60, rg_threshold = 2, rg_failures = [], rg_installed = True\<rparr>"
  obtain rs rg' where run: "failing_rust_calls [1, 5] ?rg = (rs, rg')" by fastforce
  have use: "should_use_rust_json_engine ''auto'' ?rg" by code_simp
  have "rs = replicate (length [1 :: rat, 5]) (Inl RustInvocationFailed)"
    using rust_failures_open_circuit [OF use _ _ _ _ run, where now = 9 and
        s = "\<lparr>es_gate = rg', es_tel = undefined, es_meta = undefined\<rparr>"] by simp
  then show ?thesis using run by simp
qed

text \<open>
  Every reported hit is counted once.  When the Python engine evaluates and the telemetry is
  loaded, an evaluation that returns adds exactly the number of its rule hits to the hit
  counters and records itself as the engine used.
\<close>

theorem reported_hits_are_counted:
  assumes "\<not> should_use_rust_json_engine configured (es_gate s)" and "tel_loaded (es_tel s)"
    and "evaluate_json_rules ev rust now configured content cached feats tags t e mode sigs s = (Inr (hits, ts, delta, files), s')"
  shows "total_hits (es_tel s') = total_hits (es_tel s) + int (length hits) \<and>
    es_meta s' = (''python'', engine_mode configured \<noteq> ''python'') \<and> es_gate s' = es_gate s"
proof -
  let ?fb = "engine_mode configured \<noteq> ''python''"
  let ?eval = "evaluate_packs_python ev cached feats (merge_redis_tags_with_signals tags sigs)
    (or_default_id t) (or_default_id e) (known_mode mode) True"
  obtain r where r: "?eval = Inr r" and fin: "finish_eval content True (''python'', ?fb) (PDict (result_dict ?fb r)) s
      = (Inr (hits, ts, delta, files), s')"
    using assms(1,3) by (auto simp: evaluate_json_rules_def Let_def split: sum.splits)
  have "length (pr_tel r) = length (pr_hits r)"
    using r over_packs_tel [of ev] by (fastforce simp: evaluate_packs_python_def result_empty_def Let_def split: sum.splits)
  then obtain rows where rows: "telemetry_rows (result_dict ?fb r) = Inr rows" "length rows = length (pr_hits r)"
    using telemetry_rows_result [of ?fb r] by auto
  obtain tel where tel: "record_rows content rows (es_tel s) = Inr tel"
      "total_hits tel = total_hits (es_tel s) + int (length rows)"
    using record_rows_total [OF assms(2)] by blast
  have "hits = pr_hits r" "s' = s\<lparr>es_tel := tel, es_meta := (''python'', ?fb)\<rparr>"
    using fin rows(1) tel(1)
    by (auto simp: finish_eval_def apply_telemetry_from_rust_def rust_eval_to_tuple_result Let_def)
  then show ?thesis using rows(2) tel(2) by simp
qed

definition demo_state :: engine_state where
  "demo_state = \<lparr>es_gate = \<lparr>rg_window = 60, rg_threshold = 2, rg_failures = [], rg_installed = False\<rparr>,
     es_tel = \<lparr>tel_counts = [], tel_since = Fin 0, tel_dirty = 0, tel_loaded = True, tel_writes = 0\<rparr>,
     es_meta = (''unknown'', False)\<rparr>"

theorem reported_hits_are_counted_witness:
  "total_hits (es_tel (snd (evaluate_json_rules demo_env (\<lambda>_ _ _ _ _ _. None) 0 ''python'' None [demo_pack] []
     [''vip''] ''t'' ''e'' ''production'' None demo_state))) = 1"
proof -
  let ?ev = "evaluate_json_rules demo_env (\<lambda>_ _ _ _ _ _. None) 0 ''python'' None [demo_pack] []
     [''vip''] ''t'' ''e'' ''production'' None demo_state"
  have r: "fst ?ev = Inr ([''r1''], [], Fin 5, [''p.json''])" by code_simp
  obtain s' where s': "?ev = (Inr ([''r1''], [], Fin 5, [''p.json'']), s')" using r by (cases ?ev) auto
  have "\<not> should_use_rust_json_engine ''python'' (es_gate demo_state)" "tel_loaded (es_tel demo_state)"
    "total_hits (es_tel demo_state) = 0" by code_simp+
  then show ?thesis using reported_hits_are_counted [OF _ _ s'] s' by simp
qed

text \<open>
  C33: an unresolved custom signal matches.  A rule whose tree is a single \<open>custom_signal\<close> node
  fires on the features merged for its pack whatever the plugin did: with no handler registered
  at all, and after a timeout or an error, the output key is in the merged features with the
  value \<open>None\<close>, and its presence is all the evaluator asks for.  A comment in the evaluator says
  that a lone unresolved custom signal must not match.
\<close>

theorem unresolved_signal_matches:
  assumes "p \<in> set packs" and "dget p ''rules'' = PList rules" and "PDict rule \<in> set rules"
    and "dget rule ''when'' = PNone" and "dget rule ''when_ast'' = PDict a"
    and "dget a ''type'' = PStr ''custom_signal''" and "dget a ''plugin_id'' = PStr pid"
    and "dget a ''output_key'' = PStr ok" and "strip pid \<noteq> []" and "strip ok \<noteq> []"
    and "validate (PDict a) = Some (AstCustomSignal pid params ok)"
  shows "evaluate_rule_when reg validate rule
    (merge_features_with_resolved_from_packs handlers features (map PDict packs) t e) = Inr True"
proof -
  have own: "(strip pid, spec_params a, strip ok) \<in> set (iter_custom_signal_specs (PDict a))"
    using assms(6-10) by (simp add: own_spec_def)
  have "rule_specs (PDict rule) = iter_custom_signal_specs (PDict a)"
    using assms(5) by (simp add: rule_specs_def del: iter_custom_signal_specs.simps)
  moreover have "pack_specs (PDict p) = concat (map rule_specs rules)"
    using assms(2) by (simp add: pack_specs_def rule_specs_def [abs_def])
  ultimately have "(strip pid, spec_params a, strip ok) \<in> set (concat (map pack_specs (map PDict packs)))"
    using own assms(1,3) by (force simp del: iter_custom_signal_specs.simps)
  from merged_has_output_key [OF this] have
    "has_key (merge_features_with_resolved_from_packs handlers features (map PDict packs) t e) (strip ok)" by simp
  then show ?thesis using assms(4,5,10,11)
    by (simp add: evaluate_rule_when_def enforce_ast_limits_def max_ast_depth_def max_ast_nodes_def)
qed

definition signal_rule :: dict where
  "signal_rule = [(''id'', PStr ''sig''), (''when_ast'', PDict [(''type'', PStr ''custom_signal''),
     (''plugin_id'', PStr ''sanctions''), (''output_key'', PStr ''sanctioned'')])]"

theorem unresolved_signal_matches_witness:
  "evaluate_rule_when empty_registry (\<lambda>_. Some (AstCustomSignal ''sanctions'' [] ''sanctioned'')) signal_rule
     (merge_features_with_resolved_from_packs [] [] (map PDict [[(''rules'', PList [PDict signal_rule])]]) ''t'' ''e'')
   = Inr True"
proof -
  have "strip ''sanctions'' \<noteq> []" "strip ''sanctioned'' \<noteq> []" by code_simp+
  then show ?thesis
    by (intro unresolved_signal_matches [where p = "[(''rules'', PList [PDict signal_rule])]" and
          rules = "[PDict signal_rule]" and pid = "''sanctions''" and ok = "''sanctioned''" and params = "[]" and
          a = "[(''type'', PStr ''custom_signal''), (''plugin_id'', PStr ''sanctions''), (''output_key'', PStr ''sanctioned'')]"])
      (simp_all add: signal_rule_def)
qed

end
