(* ===== verification/Decision_Score.thy ===== *)
theory Decision_Score
  imports Json_Rules
begin

text \<open>
  From signals to a verdict: \<open>decision_api/evaluate/score.py\<close> (blending, the audit text of
  degraded hops), \<open>policy_routing.py\<close> (cohorts and champion against challenger), \<open>tags.py\<close> (contextual
  tags) and the lines of \<open>evaluate/pipeline.py\<close> that add up the score and choose the verdict.

  The settings read by this code are the record \<open>score_settings\<close>.
\<close>

record score_settings =
  ss_blend :: string
  ss_deny :: rat
  ss_review :: rat
  ss_urls :: "(string \<times> string) list"

section \<open>Degraded hops\<close>

definition signal_unavailable_audit :: "(string \<times> string) list" where
  "signal_unavailable_audit =
    [(''lists:unavailable'', ''Signal Entity lists was unavailable''),
     (''graph:unavailable'', ''Signal Graph risk was unavailable''),
     (''graph:unconfigured'', ''Signal Graph risk URL unset''),
     (''graph:missing'', ''Signal Graph risk URL unset''),
     (''graph:write_failed'', ''Graph object write failed (evaluate still decided)''),
     (''enrichment:unavailable'', ''Signal Feature enrichment was unavailable''),
     (''enrichment:unconfigured'', ''Signal Feature enrichment URL unset''),
     (''ml:unavailable'', ''Signal ML scoring was unavailable''),
     (''ml:unconfigured'', ''Signal ML scoring URL unset''),
     (''ml:disabled'', ''Signal ML scoring disabled''),
     (''opa:unavailable'', ''Signal Policy (OPA) was unavailable''),
     (''opa:unconfigured'', ''Signal Policy (OPA) URL unset''),
     (''calibration:unavailable'', ''Signal Calibration was unavailable''),
     (''calibration:unconfigured'', ''Signal Calibration URL unset''),
     (''location:unavailable'', ''Signal Location intelligence was unavailable''),
     (''location:unconfigured'', ''Signal Location intelligence URL unset''),
     (''redis:tag_merge_unavailable'', ''Signal Redis tag merge was unavailable''),
     (''redis:tenant_flags_unavailable'', ''Signal Redis tenant flags was unavailable''),
     (''redis:entity_tags_unavailable'', ''Signal Redis entity tags was unavailable''),
     (''consortium:unavailable'', ''Signal Consortium cross-tenant signal was unavailable''),
     (''async_osint:unavailable'', ''Signal Async OSINT cache was unavailable''),
     (''async_enrich:stale'', ''Async OSINT cache exceeded lag budget (stale)'')]"

definition evaluate_hop_unconfigured :: "(string \<times> string \<times> string) list" where
  "evaluate_hop_unconfigured =
    [(''graph'', ''graph_service_url'', ''graph:unconfigured''),
     (''features'', ''feature_service_url'', ''enrichment:unconfigured''),
     (''ml'', ''ml_scoring_url'', ''ml:unconfigured''),
     (''opa'', ''opa_url'', ''opa:unconfigured''),
     (''location'', ''location_service_url'', ''location:unconfigured''),
     (''calibration'', ''calibration_service_url'', ''calibration:unconfigured'')]"

text \<open>Whether the hop is skipped, and the tags afterwards.\<close>

definition tag_unconfigured :: "string list \<Rightarrow> string \<Rightarrow> string \<Rightarrow> bool \<times> string list" where
  "tag_unconfigured degrade_tags url tag = (if strip url \<noteq> [] then (False, degrade_tags)
     else (True, if tag \<in> set degrade_tags then degrade_tags else degrade_tags @ [tag]))"

text \<open>\<open>None\<close> is the \<open>KeyError\<close> of an unknown hop.\<close>

definition tag_hop_unconfigured :: "score_settings \<Rightarrow> string list \<Rightarrow> string \<Rightarrow> string option \<Rightarrow> (bool \<times> string list) option" where
  "tag_hop_unconfigured s degrade_tags hop url = (case map_of evaluate_hop_unconfigured hop of None \<Rightarrow> None
     | Some (attr, tag) \<Rightarrow> Some (tag_unconfigured degrade_tags
         (case url of Some u \<Rightarrow> u | None \<Rightarrow> (case map_of (ss_urls s) attr of None \<Rightarrow> [] | Some u \<Rightarrow> u)) tag))"

definition degrade_skip_score :: "(string \<times> rat) list" where
  "degrade_skip_score =
    [(''lists:unavailable'', 5), (''graph:unavailable'', 5), (''graph:stale_skipped'', 5), (''enrichment:unavailable'', 5),
     (''ml:unavailable'', 5), (''opa:unavailable'', 5), (''calibration:unavailable'', 5), (''location:unavailable'', 5),
     (''redis:tag_merge_unavailable'', 5), (''redis:tenant_flags_unavailable'', 5), (''redis:entity_tags_unavailable'', 5)]"

definition degrade_skip_cap :: rat where
  "degrade_skip_cap = 15"

definition tag_skip_score :: "string \<Rightarrow> rat" where
  "tag_skip_score tag = (case map_of degrade_skip_score tag of None \<Rightarrow> 0 | Some x \<Rightarrow> x)"

definition degrade_skip_score_delta :: "string list \<Rightarrow> rat" where
  "degrade_skip_score_delta degrade_tags = min (sum_list (map tag_skip_score degrade_tags)) degrade_skip_cap"

text \<open>\<open>seen\<close> is a set with the same members as the output, in every loop of this kind.\<close>

definition add_seen :: "string \<Rightarrow> string list \<Rightarrow> string list" where
  "add_seen x out = (if x \<in> set out then out else out @ [x])"

definition add_mapped :: "(string \<times> string) list \<Rightarrow> string \<Rightarrow> string list \<Rightarrow> string list" where
  "add_mapped table t out = (case map_of table t of None \<Rightarrow> out | Some x \<Rightarrow> if x = [] then out else add_seen x out)"

definition signal_availability_notes_from_tags :: "string list \<Rightarrow> string list" where
  "signal_availability_notes_from_tags degrade_tags = fold (add_mapped signal_unavailable_audit) degrade_tags []"

definition fallback_tag_map :: "(string \<times> string) list" where
  "fallback_tag_map =
    [(''lists:unavailable'', ''circuit_list''), (''graph:unavailable'', ''circuit_graph''),
     (''graph:unconfigured'', ''graph_unconfigured''), (''enrichment:unavailable'', ''circuit_feature''),
     (''enrichment:unconfigured'', ''feature_unconfigured''), (''ml:unavailable'', ''circuit_ml''),
     (''ml:unconfigured'', ''ml_unconfigured''), (''ml:disabled'', ''ml_disabled''),
     (''opa:unavailable'', ''circuit_opa''), (''opa:unconfigured'', ''opa_unconfigured''),
     (''calibration:unavailable'', ''circuit_calibration''), (''calibration:unconfigured'', ''calibration_unconfigured''),
     (''location:unconfigured'', ''location_unconfigured''), (''location:unavailable'', ''circuit_location''),
     (''consortium:unavailable'', ''circuit_consortium''),
     (''redis:tenant_flags_unavailable'', ''circuit_redis_tenant_flags''),
     (''redis:entity_tags_unavailable'', ''circuit_redis_entity_tags''),
     (''redis:tag_merge_unavailable'', ''circuit_redis_tag_merge''),
     (''async_osint:unavailable'', ''async_osint_redis''), (''async_enrich:stale'', ''async_enrich_stale''),
     (''lists:disabled_by_tenant'', ''tenant_disable_entity_lists''), (''graph:disabled_by_tenant'', ''tenant_disable_graph''),
     (''enrichment:disabled_by_tenant'', ''tenant_disable_feature_service''), (''ml:disabled_by_tenant'', ''tenant_disable_ml''),
     (''opa:disabled_by_tenant'', ''tenant_disable_opa'')]"

definition add_skipped_step :: "dict \<Rightarrow> string list \<Rightarrow> string list" where
  "add_skipped_step tr out = (if dget tr ''status'' = PStr ''skipped'' \<and> truthy (dget tr ''reason'')
     then add_seen (''step_'' @ py_str (dget_or tr ''step'' (PStr ''?'')) @ '':'' @ py_str (dget tr ''reason'')) out else out)"

definition compute_fallback_reason :: "score_settings \<Rightarrow> string list \<Rightarrow> dict list \<Rightarrow> string option" where
  "compute_fallback_reason s degrade_tags step_trace =
     (let parts = fold add_skipped_step step_trace (fold (add_mapped fallback_tag_map) degrade_tags []);
          parts' = (if ss_blend s = ''rules_only'' then add_seen ''rules_only_blend'' parts else parts)
      in if parts' = [] then None else Some (join_str ''; '' parts'))"

definition decision_runtime_status :: "string list \<Rightarrow> string list \<Rightarrow> string" where
  "decision_runtime_status degrade_tags notes = (if notes \<noteq> [] then ''Degraded''
     else if ''load_shedding:active'' \<in> set degrade_tags then ''Degraded'' else ''Healthy'')"

section \<open>Scores\<close>

definition catch_conversion :: "'a \<Rightarrow> 'a res \<Rightarrow> 'a res" where
  "catch_conversion dflt r = (case r of Inl TypeError \<Rightarrow> Inr dflt | Inl ValueError \<Rightarrow> Inr dflt | _ \<Rightarrow> r)"

definition optional_score :: "pyval \<Rightarrow> string \<Rightarrow> pyfloat option res" where
  "optional_score data key = (case data of
      PDict d \<Rightarrow> if \<not> has_key d key \<or> dget d key = PNone then Inr None
        else catch_conversion None (case py_float (dget d key) of Inl e \<Rightarrow> Inl e | Inr f \<Rightarrow> Inr (Some f))
    | _ \<Rightarrow> Inr None)"

definition unscored :: "string \<Rightarrow> (pyfloat option \<times> dict) res" where
  "unscored reason = Inr (None, [(''unscored_reason'', PStr reason)])"

definition parse_ml_score_payload :: "pyval \<Rightarrow> (pyfloat option \<times> dict) res" where
  "parse_ml_score_payload data = (case data of
      PDict d \<Rightarrow>
        if dget d ''scored'' = PBool False \<or> dget d ''model_version'' = PStr ''disabled'' then unscored ''disabled''
        else (case optional_score data ''score'' of
            Inl e \<Rightarrow> Inl e
          | Inr None \<Rightarrow> unscored ''missing_score''
          | Inr (Some score) \<Rightarrow> Inr (Some score,
              [(''top_factors'', case dget d ''ml_top_factors'' of PList xs \<Rightarrow> PList xs | _ \<Rightarrow> PList []),
               (''summary'', case dget d ''ml_summary'' of PNone \<Rightarrow> PNone | PStr s \<Rightarrow> PStr s | v \<Rightarrow> PStr (take 500 (py_str v))),
               (''model'', case dget d ''model'' of PStr s \<Rightarrow> PStr s | _ \<Rightarrow> PNone)]))
    | _ \<Rightarrow> unscored ''missing_score'')"

definition blend_scores :: "score_settings \<Rightarrow> pyfloat \<Rightarrow> pyfloat option \<Rightarrow> pyfloat" where
  "blend_scores s rule_score ml_score = (case ml_score of
      None \<Rightarrow> clamp_float 0 100 rule_score
    | Some ml \<Rightarrow>
        if ss_blend s = ''rules_only'' then clamp_float 0 100 rule_score
        else if ss_blend s = ''max'' then clamp_float 0 100 (fmax rule_score ml)
        else clamp_float 0 100 (fdiv_rat (fadd rule_score ml) 2))"

section \<open>Policy routing\<close>

definition cohort_digest_hex :: "string \<Rightarrow> string \<Rightarrow> string \<Rightarrow> string" where
  "cohort_digest_hex tenant_id entity_id salt = sha256_hex (tenant_id @ ''|'' @ entity_id @ ''|'' @ salt)"

definition cohort_bucket_0_99 :: "string \<Rightarrow> string \<Rightarrow> string \<Rightarrow> int" where
  "cohort_bucket_0_99 tenant_id entity_id salt = parse_hex (take 8 (cohort_digest_hex tenant_id entity_id salt)) mod 100"

definition build_canary_cohort_audit :: "string \<Rightarrow> string \<Rightarrow> string \<Rightarrow> string option \<Rightarrow> dict" where
  "build_canary_cohort_audit tenant_id entity_id salt_version experiment_id =
     (let digest = cohort_digest_hex tenant_id entity_id salt_version in
      [(''schema_version'', PInt 1), (''cohort_sticky_id'', PStr (take 16 digest)),
       (''cohort_bucket_0_99'', PInt (parse_hex (take 8 digest) mod 100)), (''salt_version'', PStr salt_version)] @
      (case experiment_id of None \<Rightarrow> []
       | Some e \<Rightarrow> if strip e = [] then [] else [(''experiment_id'', PStr (take 128 (strip e)))]))"

definition decision_from_rule_score :: "score_settings \<Rightarrow> pyfloat \<Rightarrow> string" where
  "decision_from_rule_score s rule_score = (if fle (Fin (ss_deny s)) rule_score then ''deny''
     else if fle (Fin (ss_review s)) rule_score then ''review'' else ''allow'')"

fun round4 :: "pyfloat \<Rightarrow> pyfloat" where
  "round4 (Fin q) = Fin (round_to 4 q)"
| "round4 f = f"

definition build_policy_routing_audit ::
  "int \<Rightarrow> string \<Rightarrow> pyfloat \<Rightarrow> pyfloat \<Rightarrow> string \<Rightarrow> string \<Rightarrow> pyfloat option \<Rightarrow> dict" where
  "build_policy_routing_audit bucket salt champion challenger champion_decision challenger_decision ml =
     [(''cohort_bucket_0_99'', PInt bucket), (''cohort_salt'', PStr salt),
      (''champion_rule_score'', PFloat (round4 champion)), (''challenger_rule_score'', PFloat (round4 challenger)),
      (''champion_decision'', PStr champion_decision), (''challenger_decision'', PStr challenger_decision),
      (''decisions_agree'', PBool (champion_decision = challenger_decision)),
      (''ml_score'', case ml of None \<Rightarrow> PNone | Some f \<Rightarrow> PFloat f)]"

section \<open>Contextual tags\<close>

definition safe_int :: "pyval \<Rightarrow> int res" where
  "safe_int v = catch_conversion 0 (py_int v)"

definition safe_float :: "pyval \<Rightarrow> pyfloat res" where
  "safe_float v = catch_conversion (Fin 0) (py_float v)"

definition reason_tags :: "pyval \<Rightarrow> string list" where
  "reason_tags reason = (let r = lower (strip (py_str reason)) in
     if r = [] then []
     else (if contains_str r ''shared_devices'' then [''ring_shared_device''] else []) @
       (if contains_str r ''large_community'' then [''network_large_community''] else []) @
       (if contains_str r ''connected_flagged'' then [''network_flagged_neighbors''] else []))"

definition graph_reason_tags :: "dict \<Rightarrow> string list res" where
  "graph_reason_tags graph_risk = (case py_iter (py_or (dget graph_risk ''risk_factors'') (PList [])) of
      Inl e \<Rightarrow> Inl e | Inr rs \<Rightarrow> Inr (concat (map reason_tags rs)))"

text \<open>\<open>ev1 / max(ev24, 1) > 0.45\<close>: true division raises when the quotient is beyond the floats.\<close>

definition concentrated :: "int \<Rightarrow> int \<Rightarrow> bool res" where
  "concentrated ev1 ev24 = (if ev24 \<le> 0 then Inr False
     else let q = rat_of_int ev1 / rat_of_int (max ev24 1) in
       if \<bar>q\<bar> \<ge> 2 ^ 1024 - 2 ^ 970 then Inl OverflowError else Inr (q > 45 / 100 \<and> ev1 \<ge> 10))"

definition velocity_tags :: "dict \<Rightarrow> string list res" where
  "velocity_tags features = (case safe_int (dget features ''event_count_5m'') of Inl e \<Rightarrow> Inl e | Inr ev5 \<Rightarrow>
     (case safe_int (dget features ''event_count_1h'') of Inl e \<Rightarrow> Inl e | Inr ev1 \<Rightarrow>
     (case safe_int (dget features ''event_count_24h'') of Inl e \<Rightarrow> Inl e | Inr ev24 \<Rightarrow>
     (case concentrated ev1 ev24 of Inl e \<Rightarrow> Inl e | Inr conc \<Rightarrow>
        Inr ((if ev5 \<ge> 5 then [''velocity_high_5m''] else []) @ (if ev1 \<ge> 15 then [''velocity_high_1h''] else []) @
          (if ev24 \<ge> 60 then [''velocity_high_24h''] else []) @ (if conc then [''velocity_concentrated_1h''] else []))))))"

definition signal_rule_tags :: "dict \<Rightarrow> string list \<Rightarrow> string list" where
  "signal_rule_tags features signals =
     (if ''sdk:geo_ip_mismatch'' \<in> set signals \<or> truthy (dget features ''geo_ip_mismatch'') then [''geo_ip_mismatch''] else []) @
     (if ''sdk:geo_tz_mismatch'' \<in> set signals \<or> truthy (dget features ''geo_tz_mismatch'') then [''geo_tz_mismatch''] else []) @
     (if ''sdk:shared_device'' \<in> set signals then [''shared_device_detected''] else []) @
     (if ''ingress:replay_payload'' \<in> set signals then [''replay_payload_detected''] else [])"

definition band_tags :: "string \<Rightarrow> pyfloat \<Rightarrow> string list" where
  "band_tags prefix score = (if fle (Fin 70) score then [prefix @ ''_high'']
     else if fle (Fin 40) score then [prefix @ ''_medium''] else [])"

definition graph_tags :: "pyval \<Rightarrow> string list res" where
  "graph_tags graph_risk = (case graph_risk of
      PDict g \<Rightarrow> (case safe_float (dget g ''risk_score'') of Inl e \<Rightarrow> Inl e | Inr score \<Rightarrow>
        (case graph_reason_tags g of Inl e \<Rightarrow> Inl e | Inr rs \<Rightarrow> Inr (band_tags ''graph_risk'' score @ rs)))
    | _ \<Rightarrow> Inr [])"

definition provider_tags :: "pyval list \<Rightarrow> string list" where
  "provider_tags providers = concat (map (\<lambda>p. let t = lower (strip (py_str p)) in
     if t = [] then [] else [''external_signal:'' @ t]) providers)"

definition external_tags :: "pyval \<Rightarrow> string list res" where
  "external_tags meta = (case meta of
      PDict m \<Rightarrow> (case py_iter (py_or (dget m ''providers'') (PList [])) of Inl e \<Rightarrow> Inl e | Inr ps \<Rightarrow>
        (case safe_float (dget m ''risk_score'') of Inl e \<Rightarrow> Inl e
          | Inr score \<Rightarrow> Inr (provider_tags ps @ band_tags ''external_signal'' score)))
    | _ \<Rightarrow> Inr [])"

definition derive_contextual_tags :: "dict \<Rightarrow> string list \<Rightarrow> pyval \<Rightarrow> pyval \<Rightarrow> string list res" where
  "derive_contextual_tags features signal_tags graph_risk external_signal_meta =
     (case velocity_tags features of Inl e \<Rightarrow> Inl e | Inr vs \<Rightarrow>
     (case graph_tags graph_risk of Inl e \<Rightarrow> Inl e | Inr gs \<Rightarrow>
     (case external_tags external_signal_meta of Inl e \<Rightarrow> Inl e | Inr xs \<Rightarrow>
        Inr (fold add_seen (vs @ signal_rule_tags features signal_tags @ gs @ xs) []))))"

section \<open>Verdict\<close>

definition force_deny_from_degrade_tags :: "string list \<Rightarrow> bool" where
  "force_deny_from_degrade_tags degrade_tags =
     (''feature:catalog_fail_closed'' \<in> set degrade_tags \<or> ''graph:stale_fail_closed'' \<in> set degrade_tags)"

record deltas =
  dl_score :: pyfloat
  dl_consortium :: pyfloat
  dl_graph :: pyfloat
  dl_replayed :: bool
  dl_depth :: pyfloat
  dl_label :: pyfloat

definition base_score :: "deltas \<Rightarrow> string list \<Rightarrow> pyfloat" where
  "base_score d degrade_tags = fadd (fadd (fadd (fadd (fadd (fadd (fadd (Fin 10) (dl_score d)) (dl_consortium d)) (dl_graph d))
     (if dl_replayed d then Fin 20 else Fin 0)) (dl_depth d)) (dl_label d)) (Fin (degrade_skip_score_delta degrade_tags))"

definition final_score :: "score_settings \<Rightarrow> deltas \<Rightarrow> string list \<Rightarrow> pyfloat option \<Rightarrow> pyfloat" where
  "final_score s d degrade_tags ml = blend_scores s (base_score d degrade_tags) ml"

definition pipeline_decision :: "score_settings \<Rightarrow> string list \<Rightarrow> pyfloat \<Rightarrow> string" where
  "pipeline_decision s degrade_tags score = (if force_deny_from_degrade_tags degrade_tags then ''deny''
     else if fle (Fin (ss_deny s)) score then ''deny''
     else if fle (Fin (ss_review s)) score then ''review'' else ''allow'')"

section \<open>Bounds and monotonicity\<close>

fun severity :: "string \<Rightarrow> nat" where
  "severity d = (if d = ''deny'' then 2 else if d = ''review'' then 1 else 0)"

lemma clamp_mono: "fle x y \<Longrightarrow> fle (clamp_float 0 100 x) (clamp_float 0 100 y)"
  by (cases x; cases y) (auto simp: clamp_float_def fmin_def fmax_def fle_def)

lemma clamp_average_mono:
  assumes "fle r r'"
  shows "fle (clamp_float 0 100 (fdiv_rat (fadd r ml) 2)) (clamp_float 0 100 (fdiv_rat (fadd r' ml) 2))"
  using assms by (cases r; cases r'; cases ml) (auto simp: clamp_float_def fmin_def fmax_def fle_def)

lemma clamp_max_mono:
  assumes "fle r r'"
  shows "fle (clamp_float 0 100 (fmax r ml)) (clamp_float 0 100 (fmax r' ml))"
  using assms by (cases r; cases r'; cases ml) (auto simp: clamp_float_def fmin_def fmax_def fle_def)

lemma blend_mono: "fle r r' \<Longrightarrow> fle (blend_scores s r ml) (blend_scores s r' ml)"
  by (cases ml) (simp_all add: blend_scores_def clamp_mono clamp_average_mono clamp_max_mono)

lemma blend_in_range: "in_range 0 100 (blend_scores s r ml)"
  by (simp add: blend_scores_def clamp_float_in_range split: option.split)

lemma decision_mono:
  assumes "fle x y" "ss_review s \<le> ss_deny s"
  shows "severity (pipeline_decision s tags x) \<le> severity (pipeline_decision s tags y)"
  using assms by (cases x; cases y) (auto simp: pipeline_decision_def fle_def)

lemma tag_skip_score_bounds: "0 \<le> tag_skip_score t"
  by (simp add: tag_skip_score_def degrade_skip_score_def)

lemma degrade_delta_bounds: "0 \<le> degrade_skip_score_delta tags \<and> degrade_skip_score_delta tags \<le> 15"
proof -
  have "0 \<le> sum_list (map tag_skip_score tags)" by (intro sum_list_nonneg) (auto simp: tag_skip_score_bounds)
  then show ?thesis by (simp add: degrade_skip_score_delta_def degrade_skip_cap_def)
qed

text \<open>The bucket of an entity is the one its rollout uses, and the champion is judged by the thresholds of the pipeline.\<close>

lemma cohort_bucket_is_pack_bucket: "cohort_bucket_0_99 tenant entity salt = pack_experiment_bucket tenant entity salt"
  by (simp add: cohort_bucket_0_99_def cohort_digest_hex_def pack_experiment_bucket_def)

lemma pipeline_decision_unforced:
  "\<not> force_deny_from_degrade_tags tags \<Longrightarrow> pipeline_decision s tags x = decision_from_rule_score s x"
  by (simp add: pipeline_decision_def decision_from_rule_score_def)

text \<open>\<open>_safe_int\<close> is to turn what is no integer into 0; an infinite count escapes it.\<close>

lemma infinite_count_raises:
  assumes "dget features ''event_count_5m'' = PFloat PInf"
  shows "derive_contextual_tags features signals graph_risk meta = Inl OverflowError"
  by (simp add: derive_contextual_tags_def velocity_tags_def assms safe_int_def catch_conversion_def)

section \<open>Properties\<close>


definition default_settings :: score_settings where
  "default_settings = \<lparr>ss_blend = ''average'', ss_deny = 80, ss_review = 50, ss_urls = []\<rparr>"


text \<open>
  C30: a score that is not a number denies.  An answer of the scoring service whose score is NaN counts as
  scored, and under the default blending (any strategy but the two named ones) the clamp turns the average
  into 100: every request is denied, whatever its rules say, although a missing score is ignored.
\<close>

theorem nan_score_denies:
  assumes "ss_blend s \<noteq> ''rules_only''" and "ss_blend s \<noteq> ''max''" and "ss_deny s \<le> 100"
    and "dget d ''score'' = PFloat NaN" and "dget d ''scored'' \<noteq> PBool False" and "dget d ''model_version'' \<noteq> PStr ''disabled''"
  shows "\<exists>m. parse_ml_score_payload (PDict d) = Inr (Some NaN, m) \<and>
    (\<forall>deltas. pipeline_decision s tags (final_score s deltas tags (Some NaN)) = ''deny'')"
proof -
  have "has_key d ''score''" using dget_not_has_key [of d "''score''"] assms(4) by fastforce
  then have "optional_score (PDict d) ''score'' = Inr (Some NaN)"
    using assms(4) by (simp add: optional_score_def catch_conversion_def)
  then have "\<exists>m. parse_ml_score_payload (PDict d) = Inr (Some NaN, m)" using assms(5, 6) by (simp add: parse_ml_score_payload_def)
  moreover have "fadd x NaN = NaN" for x by (cases x) simp_all
  then have "final_score s deltas tags (Some NaN) = Fin 100" for deltas
    using assms(1, 2) by (simp add: final_score_def blend_scores_def)
  then have "pipeline_decision s tags (final_score s deltas tags (Some NaN)) = ''deny''" for deltas
    using assms(3) by (simp add: pipeline_decision_def)
  ultimately show ?thesis by blast
qed

theorem nan_score_denies_witness:
  "\<exists>m. parse_ml_score_payload (PDict [(''score'', PFloat NaN)]) = Inr (Some NaN, m) \<and>
    pipeline_decision default_settings [] (final_score default_settings
      \<lparr>dl_score = Fin (- 10), dl_consortium = Fin 0, dl_graph = Fin 0, dl_replayed = False, dl_depth = Fin 0, dl_label = Fin 0\<rparr>
      [] (Some NaN)) = ''deny''"
proof -
  let ?d = "[(''score'', PFloat NaN)]"
  have "dget ?d ''score'' = PFloat NaN" "dget ?d ''scored'' \<noteq> PBool False" "dget ?d ''model_version'' \<noteq> PStr ''disabled''"
    by simp_all
  from nan_score_denies [OF _ _ _ this, of default_settings "[]"] show ?thesis
    by (auto simp: default_settings_def)
qed

end
