(* ===== verification/Desk_Provision.thy ===== *)
theory Desk_Provision
  imports Py_Json
begin

text \<open>
  \<open>src/services/shared/desk_provision.py\<close>: the defaults of a named desk, read from the
  environment and from the provision file.  The process environment and the file system are
  the two fields of a \<open>host\<close>; a file is its \<open>json.loads\<close> value, \<open>None\<close> when it
  cannot be read or is not JSON.  The flag that keeps the module from logging twice is not
  part of the model.
\<close>

section \<open>Environment and provision file\<close>

record host =
  host_env :: "(string \<times> string) list"
  host_files :: "(string \<times> pyval option) list"

definition provision_schema_id :: string where
  "provision_schema_id = ''tarka.desk_provision/v1''"

definition env_truthy :: "string \<Rightarrow> bool" where
  "env_truthy raw = (lower (strip raw) \<in> set [''1'', ''true'', ''yes'', ''on''])"

definition env_raw :: "host \<Rightarrow> string \<Rightarrow> string option" where
  "env_raw h n = map_of (host_env h) n"

text \<open>\<open>raw is not None and raw.strip()\<close>: the stripped value when there is one.\<close>

definition env_set :: "host \<Rightarrow> string \<Rightarrow> string option" where
  "env_set h n = (case env_raw h n of None \<Rightarrow> None
     | Some raw \<Rightarrow> if strip raw = [] then None else Some (strip raw))"

text \<open>\<open>os.environ.get(n, "").strip()\<close>.\<close>

definition env_text :: "host \<Rightarrow> string \<Rightarrow> string" where
  "env_text h n = strip (opt_str (env_raw h n))"

definition load_desk_provision :: "host \<Rightarrow> string option \<Rightarrow> dict" where
  "load_desk_provision h path =
     (let raw_path = (case path of Some p \<Rightarrow> p
        | None \<Rightarrow> strip (case env_raw h ''TARKA_DESK_PROVISION_PATH'' of None \<Rightarrow> [] | Some s \<Rightarrow> s))
      in if raw_path = [] then []
         else (case map_of (host_files h) raw_path of
             Some (Some (PDict d)) \<Rightarrow>
               if str_or_empty (dget d ''schema_id'') = provision_schema_id then d else []
           | _ \<Rightarrow> []))"

definition provision_block :: "host \<Rightarrow> string \<Rightarrow> dict option" where
  "provision_block h k = dict_of (dget (load_desk_provision h None) k)"

section \<open>Switches\<close>

definition enforcement_modes :: "string list" where
  "enforcement_modes = [''emit_only'', ''handoff'']"

definition desk_enforcement_mode :: "host \<Rightarrow> string" where
  "desk_enforcement_mode h = (case env_set h ''TARKA_ENFORCEMENT_MODE'' of
      Some raw \<Rightarrow> let token = lower raw
        in if token \<in> set enforcement_modes then token else ''emit_only''
    | None \<Rightarrow> (case provision_block h ''enforcement'' of
          Some block \<Rightarrow> let token = lower (strip (str_or_empty (dget block ''mode'')))
            in if token \<in> set enforcement_modes then token else ''emit_only''
        | None \<Rightarrow> ''emit_only''))"

definition leftover_flag :: "host \<Rightarrow> string \<Rightarrow> string \<Rightarrow> bool" where
  "leftover_flag h env_name provision_key = (case env_set h env_name of
      Some raw \<Rightarrow> env_truthy raw
    | None \<Rightarrow> (case provision_block h ''leftover'' of None \<Rightarrow> False
        | Some b \<Rightarrow> truthy (dget b provision_key)))"

text \<open>\<open>None\<close> when no provision file is loaded: the first-review file alone decides.\<close>

definition observe_auto_promote :: "host \<Rightarrow> bool option" where
  "observe_auto_promote h = (case env_set h ''TARKA_AUTO_PROMOTE'' of
      Some raw \<Rightarrow> Some (env_truthy raw)
    | None \<Rightarrow> if load_desk_provision h None = [] then None
        else (case provision_block h ''observe'' of
            Some b \<Rightarrow> if has_key b ''auto_promote'' then Some (truthy (dget b ''auto_promote''))
              else Some False
          | None \<Rightarrow> Some False))"

definition host_auto_promote :: "host \<Rightarrow> bool \<Rightarrow> bool" where
  "host_auto_promote h file_flag = (if observe_auto_promote h = Some False then False else file_flag)"

definition hunt_enabled :: "host \<Rightarrow> bool" where
  "hunt_enabled h = (case env_set h ''TARKA_HUNT_ENABLED'' of
      Some raw \<Rightarrow> env_truthy raw
    | None \<Rightarrow> (case provision_block h ''hunt'' of
          Some b \<Rightarrow> if has_key b ''enabled'' then truthy (dget b ''enabled'') else True
        | None \<Rightarrow> True))"

definition graph_service_url :: "host \<Rightarrow> string" where
  "graph_service_url h = (case env_raw h ''GRAPH_SERVICE_URL'' of
      Some raw \<Rightarrow> strip raw
    | None \<Rightarrow> (case provision_block h ''graph'' of None \<Rightarrow> []
        | Some b \<Rightarrow> strip (str_or_empty (dget b ''service_url''))))"

section \<open>Webhooks\<close>

definition hook_url_env :: "(string \<times> string) list" where
  "hook_url_env =
    [(''enforcement'', ''TARKA_ENFORCEMENT_WEBHOOK_URL''),
     (''observe_notify'', ''TARKA_OBSERVE_NOTIFY_WEBHOOK_URL''),
     (''queue'', ''QUEUE_WEBHOOK_URL'')]"

definition hook_secret_env :: "(string \<times> string) list" where
  "hook_secret_env =
    [(''enforcement'', ''TARKA_ENFORCEMENT_WEBHOOK_SECRET''),
     (''observe_notify'', ''TARKA_OBSERVE_NOTIFY_WEBHOOK_SECRET''),
     (''queue'', ''QUEUE_WEBHOOK_SECRET'')]"

definition hook_block :: "host \<Rightarrow> string \<Rightarrow> dict option" where
  "hook_block h kind = (case provision_block h ''hooks'' of None \<Rightarrow> None
     | Some hooks \<Rightarrow> dict_of (dget hooks kind))"

definition hook_url :: "host \<Rightarrow> string \<Rightarrow> string" where
  "hook_url h kind = (case map_of hook_url_env kind of None \<Rightarrow> []
     | Some n \<Rightarrow> (case env_raw h n of Some raw \<Rightarrow> strip raw
        | None \<Rightarrow> (case hook_block h kind of None \<Rightarrow> []
            | Some b \<Rightarrow> strip (str_or_empty (dget b ''url'')))))"

definition hook_secret :: "host \<Rightarrow> string \<Rightarrow> string" where
  "hook_secret h kind = (case map_of hook_secret_env kind of None \<Rightarrow> []
     | Some default_env \<Rightarrow> (case env_set h default_env of Some s \<Rightarrow> s
        | None \<Rightarrow>
            let secret_env = (case hook_block h kind of None \<Rightarrow> default_env
              | Some b \<Rightarrow> if strip (str_or_empty (dget b ''secret_env'')) = [] then default_env
                  else strip (str_or_empty (dget b ''secret_env'')))
            in strip (case env_raw h secret_env of None \<Rightarrow> [] | Some s \<Rightarrow> s)))"

section \<open>Stores and agents\<close>

definition observe_notify_store :: "host \<Rightarrow> string" where
  "observe_notify_store h = (case env_set h ''TARKA_OBSERVE_NOTIFY_STORE'' of
      Some raw \<Rightarrow> if lower raw \<in> set [''postgres'', ''file''] then lower raw else ''file''
    | None \<Rightarrow> if lower (strip (str_or_empty (dget (load_desk_provision h None) ''profile''))) = ''product''
        then ''postgres'' else ''file'')"

definition shadow_agent_should_start :: "host \<Rightarrow> string option \<Rightarrow> string option \<Rightarrow> bool" where
  "shadow_agent_should_start h llm_url desk_profile =
     (if lower (strip (case desk_profile of None \<Rightarrow> [] | Some p \<Rightarrow> p)) = ''demo'' then False
      else if strip (case llm_url of Some u \<Rightarrow> u
          | None \<Rightarrow> (case env_raw h ''OPENAI_BASE_URL'' of None \<Rightarrow> [] | Some s \<Rightarrow> s)) = [] then False
      else (case provision_block h ''shadow_agent'' of
          Some b \<Rightarrow> if has_key b ''start_when_llm_url'' then truthy (dget b ''start_when_llm_url'') else True
        | None \<Rightarrow> True))"

section \<open>Lemmas\<close>

lemma env_truthy_strip [simp]: "env_truthy (strip raw) = env_truthy raw"
  by (simp add: env_truthy_def)

lemma desk_enforcement_mode_cases: "desk_enforcement_mode h \<in> {''emit_only'', ''handoff''}"
  by (auto simp: desk_enforcement_mode_def enforcement_modes_def Let_def split: option.splits)

lemma hook_url_stripped [simp]: "strip (hook_url h kind) = hook_url h kind"
  by (simp add: hook_url_def split: option.split)

lemma hook_secret_stripped [simp]: "strip (hook_secret h kind) = hook_secret h kind"
  by (auto simp: hook_secret_def env_set_def Let_def split: option.split)

end
