(* ===== verification/Enforcement.thy ===== *)
theory Enforcement
  imports Desk_Provision Sha256
begin

text \<open>
  \<open>src/services/decision-api/src/decision_api/enforcement.py\<close>: the enforcement verb of a
  decision, its idempotent action id, the signed webhook with three in-process attempts, the
  append-only delivery journal and the queries over it.

  The journal file is the list of its lines, each blank, not JSON, or the decoded value; no
  file is \<open>None\<close>.  What the adapters write are flat objects of strings, integers and
  \<open>None\<close>, which \<open>json.dumps\<close> and \<open>json.loads\<close> carry unchanged (with the keys
  sorted).  The HTTP client is a parameter: what the \<open>k\<close>-th \<open>post\<close> returns or raises;
  the wall clock is one too: the time stamp of the \<open>k\<close>-th attempt.
\<close>

section \<open>Verbs and action ids\<close>

datatype enforcement_action = EAllow | EStepUp | EBlock

fun action_name :: "enforcement_action \<Rightarrow> string" where
  "action_name EAllow = ''allow''"
| "action_name EStepUp = ''step_up''"
| "action_name EBlock = ''block''"

definition retry_attempts :: nat where
  "retry_attempts = 3"

definition step_up_actions :: "string list" where
  "step_up_actions = [''step_up_mfa'', ''step_up_attestation'', ''step_up_auth'', ''challenge'',
     ''step_up'', ''step-up'', ''step-up-mfa'', ''step-up-attestation'']"

definition enforcement_mode :: "host \<Rightarrow> string" where
  "enforcement_mode h =
     (let env = lower (strip (opt_str (env_raw h ''TARKA_ENFORCEMENT_MODE'')))
      in if env \<in> set enforcement_modes then env else desk_enforcement_mode h)"

definition line_feed :: string where
  "line_feed = [CHR 0x0A]"

definition action_material :: "string \<Rightarrow> string \<Rightarrow> string \<Rightarrow> string \<Rightarrow> string" where
  "action_material tenant_id trace_id action pack_hash = join_str line_feed
     [''tarka.action_id/v1'', strip tenant_id, strip trace_id, lower (strip action), strip pack_hash]"

definition idempotent_action_id :: "string \<Rightarrow> string \<Rightarrow> string \<Rightarrow> string \<Rightarrow> string" where
  "idempotent_action_id tenant_id trace_id action pack_hash =
     sha256_hex (action_material tenant_id trace_id action pack_hash)"

definition action_ids_for :: "string list \<Rightarrow> string \<Rightarrow> string \<Rightarrow> string \<Rightarrow> (string \<times> string) list" where
  "action_ids_for tokens tenant_id trace_id pack_hash =
     fold (\<lambda>t ids. dset t (idempotent_action_id tenant_id trace_id t pack_hash) ids) tokens []"

definition delivery_action_id ::
  "string list \<Rightarrow> (string \<times> string) list \<Rightarrow> string \<Rightarrow> string \<Rightarrow> string \<Rightarrow> string" where
  "delivery_action_id tokens ids tenant_id trace_id pack_hash = (case tokens of
      t # _ \<Rightarrow> the (map_of ids t)
    | [] \<Rightarrow> idempotent_action_id tenant_id trace_id [] pack_hash)"

definition is_step_up_recommended :: "string option \<Rightarrow> bool" where
  "is_step_up_recommended recommended_action =
     (let r = replace_char CHR ''-'' CHR ''_'' (replace_char CHR '' '' CHR ''_''
            (lower (strip (opt_str recommended_action))))
      in r \<noteq> [] \<and> (r \<in> set step_up_actions \<or> startswith r ''step_up'' \<or> startswith r ''challenge''))"

definition suggested_actions :: "string \<Rightarrow> string option \<Rightarrow> string list" where
  "suggested_actions decision recommended_action =
     (let d = lower (strip decision); r = lower (strip (opt_str recommended_action)) in
      (if d \<in> {''deny'', ''block''} then [''deny''] else []) @
      (if d \<in> {''review'', ''flag''} then [if d = ''review'' then ''review'' else ''flag''] else []) @
      (if contains_str r ''payout'' \<or> contains_str r ''hold'' then [''hold_payout''] else []) @
      (if contains_str r ''promo'' then [''deny_promo''] else []) @
      (if contains_str r ''courier'' then [''suspend_courier''] else []) @
      (if is_step_up_recommended recommended_action then [''step_up''] else []))"

definition resolve_enforcement_action :: "string \<Rightarrow> string option \<Rightarrow> enforcement_action" where
  "resolve_enforcement_action decision recommended_action =
     (if lower (strip decision) = ''deny'' then EBlock
      else if is_step_up_recommended recommended_action then EStepUp else EAllow)"

record intent =
  in_action :: enforcement_action
  in_decision :: string
  in_recommended :: "string option"

definition resolve_enforcement_intent :: "string \<Rightarrow> string option \<Rightarrow> intent" where
  "resolve_enforcement_intent decision recommended_action =
     \<lparr>in_action = resolve_enforcement_action decision recommended_action,
      in_decision = lower (strip decision), in_recommended = recommended_action\<rparr>"

section \<open>The delivery journal\<close>

datatype jline = JBlank | JBad | JRow pyval

record journal =
  jlines :: "jline list option"
  jwritable :: bool
  jreadable :: bool

fun line_dict :: "jline \<Rightarrow> dict option" where
  "line_dict (JRow v) = dict_of v"
| "line_dict _ = None"

definition append_enforcement_journal :: "dict \<Rightarrow> journal \<Rightarrow> journal" where
  "append_enforcement_journal row j = (if jwritable j
     then j\<lparr>jlines := Some ((case jlines j of None \<Rightarrow> [] | Some ls \<Rightarrow> ls) @ [JRow (PDict (sort_key fst row))])\<rparr>
     else j)"

text \<open>The lines a reader sees: none when there is no file or it cannot be opened.\<close>

definition readable_lines :: "journal \<Rightarrow> jline list" where
  "readable_lines j = (case jlines j of None \<Rightarrow> [] | Some ls \<Rightarrow> if jreadable j then ls else [])"

definition journal_rows :: "journal \<Rightarrow> dict list" where
  "journal_rows j = List.map_filter line_dict (readable_lines j)"

definition enforcement_journal_line_count :: "journal \<Rightarrow> int" where
  "enforcement_journal_line_count j = int (length (filter (\<lambda>l. l \<noteq> JBlank) (readable_lines j)))"

definition read_enforcement_journal :: "int \<Rightarrow> journal \<Rightarrow> dict list" where
  "read_enforcement_journal limit j =
     (let lim = nat (max 1 (min limit 500)); ls = filter (\<lambda>l. l \<noteq> JBlank) (readable_lines j)
      in List.map_filter line_dict (drop (length ls - lim) ls))"

definition row_matches :: "string \<Rightarrow> dict \<Rightarrow> bool" where
  "row_matches key row = (lower (strip (str_or_empty (dget row ''action_id''))) = key \<or>
     lower (strip (str_or_empty (dget row ''idempotency_key''))) = key)"

definition row_attempts :: "dict \<Rightarrow> int res" where
  "row_attempts row = (let raw = dget row ''attempt_count'' in
     if raw = PNone then Inr 1
     else (case py_int raw of Inl OverflowError \<Rightarrow> Inl OverflowError | r \<Rightarrow> Inr (or_default 1 r)))"

definition logical_row :: "string \<Rightarrow> int \<Rightarrow> dict \<Rightarrow> dict" where
  "logical_row key attempts r =
     [(''action_id'', PStr key), (''idempotency_key'', PStr key), (''attempt_count'', PInt attempts),
      (''status'', dget r ''status''), (''trace_id'', dget r ''trace_id''),
      (''tenant_id'', dget r ''tenant_id''),
      (''last_error'', py_or (dget r ''last_error'') (dget r ''error'')),
      (''ts'', dget r ''ts''), (''reason'', dget r ''reason'')]"

definition logical_enforcement_delivery :: "journal \<Rightarrow> string \<Rightarrow> dict option res" where
  "logical_enforcement_delivery j action_id = (let key = lower (strip action_id) in
     if key = [] then Inr None
     else let rows = filter (row_matches key) (journal_rows j) in
       if rows = [] then Inr None
       else (case res_map row_attempts rows of Inl e \<Rightarrow> Inl e
         | Inr ns \<Rightarrow> Inr (Some (logical_row key (fold max ns 1) (last rows)))))"

definition map_journal_query_status :: "string \<Rightarrow> string \<Rightarrow> string" where
  "map_journal_query_status status reason =
     (let raw = lower (strip status); why = lower (strip reason) in
      if raw = ''skipped'' \<or> why = ''webhook_unset'' then ''not_configured''
      else if raw \<in> {''retrying'', ''dead_lettered''} then raw
      else if raw = ''acked'' then ''emitted''
      else if raw = [] then ''emitted'' else raw)"

definition row_action_id :: "dict \<Rightarrow> string" where
  "row_action_id row = lower (strip (str_or_empty (py_or (dget row ''action_id'') (dget row ''idempotency_key''))))"

definition add_action_id :: "string \<Rightarrow> string \<Rightarrow> string \<Rightarrow> dict \<Rightarrow> string list \<Rightarrow> string list" where
  "add_action_id tid ten wanted row seen = (let aid = row_action_id row in
     if str_or_empty (dget row ''trace_id'') \<noteq> tid \<or> str_or_empty (dget row ''tenant_id'') \<noteq> ten
        \<or> aid = [] \<or> (wanted \<noteq> [] \<and> aid \<noteq> wanted) \<or> aid \<in> set seen
     then seen else seen @ [aid])"

definition action_ids_for_query :: "journal \<Rightarrow> string \<Rightarrow> string \<Rightarrow> string option \<Rightarrow> string list" where
  "action_ids_for_query j trace_id tenant_id action_id =
     (let tid = strip trace_id; ten = strip tenant_id; wanted = lower (strip (opt_str action_id)) in
      if tid = [] \<or> ten = [] then []
      else fold (add_action_id tid ten wanted) (journal_rows j) [])"

definition logical_to_query_row :: "dict \<Rightarrow> dict res" where
  "logical_to_query_row l =
     (let raw = lower (strip (str_or_empty (dget l ''status'')));
          reason = lower (strip (str_or_empty (dget l ''reason'')));
          err = dget l ''last_error'';
          ts = strip (str_or_empty (dget l ''ts''))
      in case py_int (py_or (dget l ''attempt_count'') (PInt 1)) of Inl e \<Rightarrow> Inl e
       | Inr n \<Rightarrow> Inr [(''trace_id'', dget l ''trace_id''), (''tenant_id'', dget l ''tenant_id''),
           (''action_id'', dget l ''action_id''), (''attempt_count'', PInt n),
           (''last_status'', PStr (map_journal_query_status raw reason)),
           (''last_error'', if truthy err then PStr (strip (py_str err)) else PNone),
           (''acked_at'', if raw = ''acked'' \<and> ts \<noteq> [] then PStr ts else PNone)])"

definition query_one :: "journal \<Rightarrow> string \<Rightarrow> string \<Rightarrow> string \<Rightarrow> string \<Rightarrow> dict list res" where
  "query_one j tid ten want_status aid = (case logical_enforcement_delivery j aid of
      Inl e \<Rightarrow> Inl e
    | Inr None \<Rightarrow> Inr []
    | Inr (Some l) \<Rightarrow>
        if str_or_empty (dget l ''tenant_id'') \<noteq> ten \<or> str_or_empty (dget l ''trace_id'') \<noteq> tid
        then Inr []
        else (case logical_to_query_row l of Inl e \<Rightarrow> Inl e
          | Inr row \<Rightarrow> if want_status \<noteq> [] \<and> dget row ''last_status'' \<noteq> PStr want_status
              then Inr [] else Inr [row]))"

definition query_enforcement_deliveries ::
  "journal \<Rightarrow> string \<Rightarrow> string \<Rightarrow> string option \<Rightarrow> string option \<Rightarrow> dict list res" where
  "query_enforcement_deliveries j trace_id tenant_id action_id status =
     (let tid = strip trace_id; ten = strip tenant_id; want_status = lower (strip (opt_str status)) in
      if tid = [] \<or> ten = [] then Inr []
      else (case res_map (query_one j tid ten want_status) (action_ids_for_query j tid ten action_id) of
          Inl e \<Rightarrow> Inl e | Inr rs \<Rightarrow> Inr (concat rs)))"

section \<open>The webhook\<close>

text \<open>\<open>json.dumps(v, sort_keys=True)\<close> with the default separators.\<close>

fun json_dumps_sorted :: "pyval \<Rightarrow> string" where
  "json_dumps_sorted (PList xs) = ''['' @ join_str '', '' (map json_dumps_sorted xs) @ '']''"
| "json_dumps_sorted (PDict d) = ''{'' @ join_str '', ''
     (map snd (sort_key fst (map (\<lambda>(k, v). (k, json_str True k @ '': '' @ json_dumps_sorted v)) d))) @ ''}''"
| "json_dumps_sorted v = json_dumps True True v"

definition sign_body :: "nat list \<Rightarrow> string \<Rightarrow> string" where
  "sign_body body secret = hmac_sha256_hex secret body"

datatype http_outcome = Responds "int option" | Raises string

record enforcement_request =
  er_trace :: string
  er_tenant :: string
  er_entity :: string
  er_event :: string
  er_decision :: string
  er_score :: pyfloat
  er_tags :: "string list"
  er_recommended :: "string option"
  er_challenge :: "dict option"
  er_pack_hash :: string

definition opt_pstr :: "string option \<Rightarrow> pyval" where
  "opt_pstr x = (case x of None \<Rightarrow> PNone | Some s \<Rightarrow> PStr s)"

definition opt_pint :: "int option \<Rightarrow> pyval" where
  "opt_pint x = (case x of None \<Rightarrow> PNone | Some i \<Rightarrow> PInt i)"

definition request_hints :: "enforcement_request \<Rightarrow> string list" where
  "request_hints r = suggested_actions (er_decision r) (er_recommended r)"

definition request_ids :: "enforcement_request \<Rightarrow> (string \<times> string) list" where
  "request_ids r = action_ids_for (request_hints r) (er_tenant r) (er_trace r) (er_pack_hash r)"

definition delivery_id :: "enforcement_request \<Rightarrow> string" where
  "delivery_id r = delivery_action_id (request_hints r) (request_ids r)
     (er_tenant r) (er_trace r) (er_pack_hash r)"

definition webhook_event :: "string \<Rightarrow> string" where
  "webhook_event mode = (if mode = ''handoff'' then ''decision.enforced'' else ''decision.emitted'')"

definition build_payload :: "host \<Rightarrow> intent \<Rightarrow> enforcement_request \<Rightarrow> dict" where
  "build_payload h i r =
     (let hints = suggested_actions (in_decision i) (in_recommended i);
          ids = action_ids_for hints (er_tenant r) (er_trace r) (er_pack_hash r);
          did = delivery_action_id hints ids (er_tenant r) (er_trace r) (er_pack_hash r)
      in [(''schema_id'', PStr ''tarka.enforcement/v1''),
          (''enforcement_action'', PStr (action_name (in_action i))),
          (''trace_id'', PStr (er_trace r)), (''tenant_id'', PStr (er_tenant r)),
          (''entity_id'', PStr (er_entity r)), (''event_type'', PStr (er_event r)),
          (''decision'', PStr (in_decision i)), (''recommended_action'', opt_pstr (in_recommended i)),
          (''score'', PFloat (er_score r)), (''tags'', PList (map PStr (er_tags r))),
          (''challenge_metadata'', PDict (case er_challenge r of None \<Rightarrow> [] | Some d \<Rightarrow> d)),
          (''suggested_actions'', PList (map PStr hints)),
          (''action_id'', PStr did), (''idempotency_key'', PStr did),
          (''action_ids'', PDict (map (\<lambda>(k, v). (k, PStr v)) ids)),
          (''enforcement_mode'', PStr (enforcement_mode h)),
          (''authority'', PBool (enforcement_mode h = ''handoff'')),
          (''webhook_event'', PStr (webhook_event (enforcement_mode h)))])"

definition retryable :: "int option \<Rightarrow> string option \<Rightarrow> bool" where
  "retryable status error = (if opt_str error \<noteq> [] then True
     else (case status of None \<Rightarrow> True | Some code \<Rightarrow> code \<ge> 500 \<or> code = 429))"

record webhook_info =
  wh_ok :: bool
  wh_status :: "int option"
  wh_error :: "string option"

record summary =
  su_action :: enforcement_action
  su_mode :: string
  su_authority :: bool
  su_suggested :: "string list"
  su_action_id :: string
  su_idempotency_key :: string
  su_action_ids :: "(string \<times> string) list"
  su_webhook :: "webhook_info option"
  su_event :: string
  su_journal :: "string option"

record sent_post =
  sp_url :: string
  sp_body :: "nat list"
  sp_headers :: "(string \<times> string) list"

record delivery_state =
  ds_summary :: summary
  ds_journal :: journal
  ds_sent :: "sent_post list"
  ds_metrics :: "string list"

record delivery_ctx =
  dc_post :: sent_post
  dc_base :: dict
  dc_http :: "nat \<Rightarrow> http_outcome"
  dc_clock :: "nat \<Rightarrow> string"

definition post_status :: "http_outcome \<Rightarrow> int option" where
  "post_status res = (case res of Responds s \<Rightarrow> s | Raises _ \<Rightarrow> None)"

definition post_error :: "http_outcome \<Rightarrow> string option" where
  "post_error res = (case res of Responds _ \<Rightarrow> None | Raises e \<Rightarrow> Some (take 200 e))"

definition post_ok :: "http_outcome \<Rightarrow> bool" where
  "post_ok res = (case post_status res of None \<Rightarrow> False | Some c \<Rightarrow> 200 \<le> c \<and> c < 300)"

definition attempt_journal :: "delivery_ctx \<Rightarrow> nat \<Rightarrow> dict" where
  "attempt_journal c k = dset ''attempt_count'' (PInt (int k)) (dset ''ts'' (PStr (dc_clock c k)) (dc_base c))"

definition retry_row :: "dict \<Rightarrow> http_outcome \<Rightarrow> dict" where
  "retry_row row res = (let row' = dset ''status'' (PStr ''retrying'') row in
     if opt_str (post_error res) \<noteq> [] then dset ''error'' (opt_pstr (post_error res)) row'
     else dset ''http_status'' (opt_pint (post_status res)) row')"

definition http_label :: "int option \<Rightarrow> string" where
  "http_label s = ''http_'' @ (case s of None \<Rightarrow> ''None'' | Some c \<Rightarrow> int_str c)"

text \<open>The journal row and the journal status of a delivery that is given up.\<close>

definition final_row :: "dict \<Rightarrow> http_outcome \<Rightarrow> dict \<times> string" where
  "final_row row res =
     (let err = opt_str (post_error res); status = post_status res in
      if retryable status (post_error res) then
        (dset ''http_status'' (opt_pint status)
          (dset ''last_error'' (PStr (if err \<noteq> [] then err else http_label status))
            (dset ''status'' (PStr ''dead_lettered'') row)), ''dead_lettered'')
      else if err \<noteq> [] then
        (dset ''error'' (PStr err) (dset ''status'' (PStr ''error'') row), ''error'')
      else (dset ''http_status'' (opt_pint status) (dset ''status'' (PStr ''non_2xx'') row), ''non_2xx''))"

definition failed_webhook :: "http_outcome \<Rightarrow> webhook_info" where
  "failed_webhook res = \<lparr>wh_ok = False, wh_status = post_status res,
     wh_error = (if opt_str (post_error res) \<noteq> [] then post_error res else None)\<rparr>"

text \<open>\<open>for attempt in range(1, ENFORCEMENT_RETRY_ATTEMPTS + 1)\<close>: \<open>left\<close> attempts remain.\<close>

fun delivery_loop :: "delivery_ctx \<Rightarrow> nat \<Rightarrow> nat \<Rightarrow> delivery_state \<Rightarrow> delivery_state" where
  "delivery_loop c 0 k st = st"
| "delivery_loop c (Suc left) k st =
     (let res = dc_http c k; row = attempt_journal c k;
          st1 = st\<lparr>ds_sent := ds_sent st @ [dc_post c]\<rparr>
      in if post_ok res then
           st1\<lparr>ds_summary := (ds_summary st1)\<lparr>su_webhook := Some \<lparr>wh_ok = True, wh_status = post_status res, wh_error = None\<rparr>,
                 su_journal := Some ''acked''\<rparr>,
               ds_journal := append_enforcement_journal
                 (dset ''http_status'' (opt_pint (post_status res)) (dset ''status'' (PStr ''acked'') row)) (ds_journal st1)\<rparr>
         else if k < retry_attempts \<and> retryable (post_status res) (post_error res) then
           delivery_loop c left (Suc k)
             (st1\<lparr>ds_journal := append_enforcement_journal (retry_row row res) (ds_journal st1)\<rparr>)
         else (case final_row row res of (frow, fstatus) \<Rightarrow>
           st1\<lparr>ds_summary := (ds_summary st1)\<lparr>su_webhook := Some (failed_webhook res), su_journal := Some fstatus\<rparr>,
               ds_journal := append_enforcement_journal frow (ds_journal st1)\<rparr>))"

definition base_journal :: "host \<Rightarrow> (nat \<Rightarrow> string) \<Rightarrow> enforcement_request \<Rightarrow> dict" where
  "base_journal h clock r =
     (let i = resolve_enforcement_intent (er_decision r) (er_recommended r) in
      [(''schema_id'', PStr ''tarka.enforcement_delivery/v1''), (''ts'', PStr (clock 0)),
       (''trace_id'', PStr (er_trace r)), (''tenant_id'', PStr (er_tenant r)),
       (''entity_id'', PStr (er_entity r)), (''enforcement_action'', PStr (action_name (in_action i))),
       (''decision'', PStr (in_decision i)), (''recommended_action'', opt_pstr (in_recommended i)),
       (''enforcement_mode'', PStr (enforcement_mode h)),
       (''webhook_event'', PStr (webhook_event (enforcement_mode h))),
       (''action_id'', PStr (delivery_id r)), (''idempotency_key'', PStr (delivery_id r))])"

definition initial_summary :: "host \<Rightarrow> enforcement_request \<Rightarrow> summary" where
  "initial_summary h r =
     \<lparr>su_action = resolve_enforcement_action (er_decision r) (er_recommended r),
      su_mode = enforcement_mode h, su_authority = (enforcement_mode h = ''handoff''),
      su_suggested = request_hints r, su_action_id = delivery_id r, su_idempotency_key = delivery_id r,
      su_action_ids = request_ids r, su_webhook = None,
      su_event = webhook_event (enforcement_mode h), su_journal = None\<rparr>"

definition webhook_post :: "host \<Rightarrow> enforcement_request \<Rightarrow> sent_post" where
  "webhook_post h r =
     (let i = resolve_enforcement_intent (er_decision r) (er_recommended r);
          raw = utf8 (json_dumps_sorted (PDict (build_payload h i r)));
          hdrs = [(''content-type'', ''application/json''),
                  (''x-tarka-enforcement-event'', action_name (in_action i))];
          secret = hook_secret h ''enforcement''
      in \<lparr>sp_url = hook_url h ''enforcement'', sp_body = raw,
          sp_headers = (if secret \<noteq> [] then dset ''x-tarka-signature'' (sign_body raw secret) hdrs else hdrs)\<rparr>)"

text \<open>
  The metrics callback: absent, accepting \<open>trace_id\<close>, refusing that keyword with a
  \<open>TypeError\<close> (then called without it), or failing.
\<close>

datatype metrics_api = NoMetrics | WithTrace | WithoutTrace | Failing

definition enforcement_metrics :: "metrics_api \<Rightarrow> enforcement_action \<Rightarrow> string list" where
  "enforcement_metrics m a = (if m = WithTrace \<or> m = WithoutTrace
     then [''tarka_enforcement_'' @ action_name a @ ''_total'', ''tarka_enforcement_total''] else [])"

definition apply_enforcement_adapters ::
  "host \<Rightarrow> metrics_api \<Rightarrow> (nat \<Rightarrow> http_outcome) \<Rightarrow> (nat \<Rightarrow> string) \<Rightarrow> enforcement_request \<Rightarrow> journal \<Rightarrow> delivery_state" where
  "apply_enforcement_adapters h m http clock r j =
     (let base = base_journal h clock r;
          st = \<lparr>ds_summary = initial_summary h r, ds_journal = j, ds_sent = [],
                ds_metrics = enforcement_metrics m (resolve_enforcement_action (er_decision r) (er_recommended r))\<rparr>
      in if hook_url h ''enforcement'' = [] then
           st\<lparr>ds_journal := append_enforcement_journal
                 (dset ''reason'' (PStr ''webhook_unset'') (dset ''status'' (PStr ''skipped'') base)) j,
              ds_summary := (ds_summary st)\<lparr>su_journal := Some ''skipped''\<rparr>\<rparr>
         else delivery_loop \<lparr>dc_post = webhook_post h r, dc_base = base, dc_http = http, dc_clock = clock\<rparr>
           retry_attempts 1 st)"

section \<open>Mode and ids\<close>

lemma enforcement_mode_agrees: "enforcement_mode h = desk_enforcement_mode h"
proof -
  have "lower (strip []) \<notin> set enforcement_modes" by (simp add: enforcement_modes_def)
  then show ?thesis
    by (auto simp: enforcement_mode_def desk_enforcement_mode_def env_set_def opt_str_def Let_def
        split: option.splits)
qed

lemma hex_chars_plain: "c \<in> hex_chars \<Longrightarrow> lower_char c = c \<and> \<not> is_space c"
proof -
  have "\<forall>c \<in> set ''0123456789abcdef''. lower_char c = c \<and> \<not> is_space c" by code_simp
  then show "c \<in> hex_chars \<Longrightarrow> ?thesis" by (auto simp: hex_chars_def)
qed

lemma hex64_strip: "is_hex64 s \<Longrightarrow> strip s = s"
proof (rule strip_eqI)
  assume s: "is_hex64 s"
  show "s = [] \<or> \<not> is_space (hd s) \<and> \<not> is_space (last s)"
  proof (cases "s = []")
    case False
    then have "hd s \<in> hex_chars" "last s \<in> hex_chars" using s by (auto simp: is_hex64_def)
    then show ?thesis using hex_chars_plain by blast
  qed simp
qed

lemma hex64_lower: "is_hex64 s \<Longrightarrow> lower s = s"
  unfolding lower_def is_hex64_def using hex_chars_plain by (auto intro!: map_idI)

lemma hex64_not_Nil: "is_hex64 s \<Longrightarrow> s \<noteq> []"
  by (auto simp: is_hex64_def)

lemmas hex64_simps = hex64_strip hex64_lower hex64_not_Nil

lemma action_ids_for_lookup:
  "t \<in> set tokens \<Longrightarrow> map_of (action_ids_for tokens tn tr ph) t = Some (idempotent_action_id tn tr t ph)"
proof -
  have "map_of (fold (\<lambda>t ids. dset t (idempotent_action_id tn tr t ph) ids) ts ids) t =
      (if t \<in> set ts then Some (idempotent_action_id tn tr t ph) else map_of ids t)" for ts ids
    by (induction ts arbitrary: ids) (auto simp: update_conv')
  then show "t \<in> set tokens \<Longrightarrow> ?thesis" by (simp add: action_ids_for_def)
qed

lemma delivery_id_eq: "delivery_id r = idempotent_action_id (er_tenant r) (er_trace r)
    (case request_hints r of [] \<Rightarrow> [] | t # _ \<Rightarrow> t) (er_pack_hash r)"
  by (auto simp: delivery_id_def delivery_action_id_def request_ids_def action_ids_for_lookup split: list.split)

lemma delivery_id_hex64 [simp]: "is_hex64 (delivery_id r)"
  by (simp add: delivery_id_eq idempotent_action_id_def sha256_hex_is_hex64)

section \<open>The journal as a list of rows\<close>

lemma map_of_sorted: "distinct (map fst d) \<Longrightarrow> map_of (sort_key fst d) = map_of d"
  by (subst map_of_inject_set) (simp_all add: distinct_map)

lemma dget_sorted: "distinct (map fst d) \<Longrightarrow> dget (sort_key fst d) k = dget d k"
  by (simp add: dget_def map_of_sorted)

text \<open>A row as its reader sees it.\<close>

abbreviation stored_row :: "dict \<Rightarrow> dict" where
  "stored_row row \<equiv> sort_key fst row"

lemma append_flags [simp]:
  "jwritable (append_enforcement_journal row j) = jwritable j"
  "jreadable (append_enforcement_journal row j) = jreadable j"
  by (simp_all add: append_enforcement_journal_def)

lemma journal_rows_append:
  "jwritable j \<Longrightarrow> jreadable j \<Longrightarrow>
   journal_rows (append_enforcement_journal row j) = journal_rows j @ [stored_row row]"
  by (auto simp: journal_rows_def readable_lines_def append_enforcement_journal_def
      List.map_filter_def split: option.split)

text \<open>
  The interface of a JSON-lines file: while it can be written and read, appending a record adds
  its decoded form at the end.
\<close>

locale append_log =
  fixes app :: "'r \<Rightarrow> 'j \<Rightarrow> 'j"
    and rows :: "'j \<Rightarrow> 's list"
    and usable :: "'j \<Rightarrow> bool"
    and stored :: "'r \<Rightarrow> 's"
  assumes rows_app: "usable j \<Longrightarrow> rows (app r j) = rows j @ [stored r]"
    and usable_app: "usable j \<Longrightarrow> usable (app r j)"
begin

lemma usable_fold: "usable j \<Longrightarrow> usable (fold app rs j)"
  by (induction rs arbitrary: j) (simp_all add: usable_app)

lemma rows_fold: "usable j \<Longrightarrow> rows (fold app rs j) = rows j @ map stored rs"
  by (induction rs arbitrary: j) (simp_all add: usable_app rows_app)

lemma select_fresh:
  assumes "usable j" and "filter P (rows j) = []" and "\<And>r. r \<in> set rs \<Longrightarrow> P (stored r)"
  shows "filter P (rows (fold app rs j)) = map stored rs"
proof -
  have "filter P (map stored rs) = map stored rs" using assms(3) by (simp add: filter_id_conv)
  then show ?thesis using assms(1, 2) by (simp add: rows_fold)
qed

end

definition journal_usable :: "journal \<Rightarrow> bool" where
  "journal_usable j = (jwritable j \<and> jreadable j)"

interpretation ej: append_log append_enforcement_journal journal_rows journal_usable "sort_key fst"
  by unfold_locales (simp_all add: journal_usable_def journal_rows_append)

text \<open>Appending never loses a line.\<close>

definition lines_of :: "journal \<Rightarrow> jline list" where
  "lines_of j = (case jlines j of None \<Rightarrow> [] | Some ls \<Rightarrow> ls)"

lemma fold_append_extends: "\<exists>new. lines_of (fold append_enforcement_journal rows j) = lines_of j @ new"
proof (induction rows arbitrary: j)
  case (Cons row rows)
  have "\<exists>new. lines_of (append_enforcement_journal row j) = lines_of j @ new"
    by (auto simp: append_enforcement_journal_def lines_of_def)
  then show ?case using Cons.IH [of "append_enforcement_journal row j"] by auto
qed simp

section \<open>The delivery loop\<close>

text \<open>
  What the three attempts amount to: the loop stops at the first outcome that is not
  transient, at the third attempt otherwise.
\<close>

definition transient :: "http_outcome \<Rightarrow> bool" where
  "transient res = (\<not> post_ok res \<and> retryable (post_status res) (post_error res))"

definition attempts_made :: "(nat \<Rightarrow> http_outcome) \<Rightarrow> nat" where
  "attempts_made http = (if \<not> transient (http 1) then 1 else if \<not> transient (http 2) then 2 else 3)"

definition verdict :: "http_outcome \<Rightarrow> string" where
  "verdict res = (if post_ok res then ''acked'' else if transient res then ''dead_lettered'' else ''non_2xx'')"

definition end_row :: "dict \<Rightarrow> http_outcome \<Rightarrow> dict" where
  "end_row row res = (if post_ok res
     then dset ''http_status'' (opt_pint (post_status res)) (dset ''status'' (PStr ''acked'') row)
     else fst (final_row row res))"

definition end_webhook :: "http_outcome \<Rightarrow> webhook_info" where
  "end_webhook res = (if post_ok res then \<lparr>wh_ok = True, wh_status = post_status res, wh_error = None\<rparr>
     else failed_webhook res)"

definition attempt_rows :: "delivery_ctx \<Rightarrow> nat \<Rightarrow> dict list" where
  "attempt_rows c n = map (\<lambda>k. retry_row (attempt_journal c k) (dc_http c k)) [1..<n] @
     [end_row (attempt_journal c n) (dc_http c n)]"

lemma final_row_verdict: "\<not> post_ok res \<Longrightarrow> snd (final_row row res) = verdict res"
  by (auto simp: final_row_def verdict_def transient_def retryable_def Let_def)

lemma delivery_loop_stop:
  assumes "k \<ge> retry_attempts \<or> \<not> transient (dc_http c k)"
  shows "delivery_loop c (Suc left) k st = st\<lparr>ds_sent := ds_sent st @ [dc_post c],
      ds_journal := append_enforcement_journal (end_row (attempt_journal c k) (dc_http c k)) (ds_journal st),
      ds_summary := (ds_summary st)\<lparr>su_webhook := Some (end_webhook (dc_http c k)),
        su_journal := Some (verdict (dc_http c k))\<rparr>\<rparr>"
proof (cases "post_ok (dc_http c k)")
  case True
  then show ?thesis by (simp add: end_row_def end_webhook_def verdict_def Let_def)
next
  case False
  then have n: "\<not> (k < retry_attempts \<and> retryable (post_status (dc_http c k)) (post_error (dc_http c k)))"
    using assms by (auto simp: transient_def)
  show ?thesis using False final_row_verdict [OF False, of "attempt_journal c k"]
    unfolding delivery_loop.simps Let_def if_not_P [OF False] if_not_P [OF n]
    by (simp add: end_row_def end_webhook_def case_prod_beta)
qed

lemma delivery_loop_go:
  "k < retry_attempts \<Longrightarrow> transient (dc_http c k) \<Longrightarrow>
   delivery_loop c (Suc left) k st = delivery_loop c left (Suc k) (st\<lparr>ds_sent := ds_sent st @ [dc_post c],
      ds_journal := append_enforcement_journal (retry_row (attempt_journal c k) (dc_http c k)) (ds_journal st)\<rparr>)"
  by (simp add: transient_def Let_def)

lemma delivery_loop_eq:
  "delivery_loop c retry_attempts 1 st = (let n = attempts_made (dc_http c) in
     st\<lparr>ds_sent := ds_sent st @ replicate n (dc_post c),
        ds_journal := fold append_enforcement_journal (attempt_rows c n) (ds_journal st),
        ds_summary := (ds_summary st)\<lparr>su_webhook := Some (end_webhook (dc_http c n)),
          su_journal := Some (verdict (dc_http c n))\<rparr>\<rparr>)"
proof -
  note steps = delivery_loop_stop delivery_loop_go attempts_made_def attempt_rows_def
    retry_attempts_def numeral_eq_Suc
  consider "\<not> transient (dc_http c 1)" | "transient (dc_http c 1)" "\<not> transient (dc_http c 2)"
    | "transient (dc_http c 1)" "transient (dc_http c 2)" by blast
  then show ?thesis
    by cases (simp_all add: steps del: delivery_loop.simps)
qed

section \<open>What the attempts leave in the journal\<close>

definition outcome_keys :: "string set" where
  "outcome_keys = {''status'', ''error'', ''http_status'', ''last_error''}"

lemma outcome_row_fields:
  assumes "k \<notin> outcome_keys"
  shows "dget (retry_row row res) k = dget row k" and "dget (end_row row res) k = dget row k"
proof -
  have ne: "k \<noteq> ''status''" "k \<noteq> ''error''" "k \<noteq> ''http_status''" "k \<noteq> ''last_error''"
    using assms by (auto simp: outcome_keys_def)
  show "dget (retry_row row res) k = dget row k" by (simp add: retry_row_def Let_def ne)
  show "dget (end_row row res) k = dget row k" by (simp add: end_row_def final_row_def Let_def ne)
qed

lemma outcome_row_status:
  "dget (retry_row row res) ''status'' = PStr ''retrying''"
  "dget (end_row row res) ''status'' = PStr (verdict res)"
  by (simp_all add: retry_row_def end_row_def final_row_def verdict_def transient_def retryable_def Let_def)

lemma outcome_row_distinct:
  assumes "distinct (map fst row)"
  shows "distinct (map fst (retry_row row res))" and "distinct (map fst (end_row row res))"
  using assms by (simp_all add: retry_row_def end_row_def final_row_def Let_def distinct_update)

lemma base_journal_distinct: "distinct (map fst (base_journal h clock r))"
  by (simp add: base_journal_def Let_def)

lemma base_journal_fields:
  "dget (base_journal h clock r) ''action_id'' = PStr (delivery_id r)"
  "dget (base_journal h clock r) ''trace_id'' = PStr (er_trace r)"
  "dget (base_journal h clock r) ''tenant_id'' = PStr (er_tenant r)"
  "dget (base_journal h clock r) ''reason'' = PNone"
  "dget (base_journal h clock r) ''status'' = PNone"
  by (simp_all add: base_journal_def Let_def)

abbreviation delivery_ctx_of ::
  "host \<Rightarrow> (nat \<Rightarrow> http_outcome) \<Rightarrow> (nat \<Rightarrow> string) \<Rightarrow> enforcement_request \<Rightarrow> delivery_ctx" where
  "delivery_ctx_of h http clock r \<equiv> \<lparr>dc_post = webhook_post h r, dc_base = base_journal h clock r,
     dc_http = http, dc_clock = clock\<rparr>"

lemma attempt_journal_facts:
  fixes h http clock r
  defines "row \<equiv> attempt_journal (delivery_ctx_of h http clock r)"
  shows "distinct (map fst (row k))" and "dget (row k) ''attempt_count'' = PInt (int k)"
    and "dget (row k) ''ts'' = PStr (clock k)"
    and "dget (row k) ''action_id'' = PStr (delivery_id r)"
    and "dget (row k) ''trace_id'' = PStr (er_trace r)"
    and "dget (row k) ''tenant_id'' = PStr (er_tenant r)"
    and "dget (row k) ''reason'' = PNone"
  by (simp_all add: row_def attempt_journal_def distinct_update base_journal_distinct base_journal_fields)

text \<open>The row of attempt \<open>k\<close> of \<open>n\<close>, as a reader of the file sees it.\<close>

definition seen_row :: "delivery_ctx \<Rightarrow> nat \<Rightarrow> nat \<Rightarrow> dict" where
  "seen_row c n k = sort_key fst (if k < n then retry_row (attempt_journal c k) (dc_http c k)
     else end_row (attempt_journal c k) (dc_http c k))"

lemma stored_attempt_rows:
  "1 \<le> n \<Longrightarrow> map (sort_key fst) (attempt_rows c n) = map (seen_row c n) [1..<Suc n]"
  by (simp add: attempt_rows_def seen_row_def)

lemma seen_row_facts:
  fixes h http clock r n k
  defines "row \<equiv> seen_row (delivery_ctx_of h http clock r) n k"
  shows "dget row ''attempt_count'' = PInt (int k)" and "dget row ''ts'' = PStr (clock k)"
    and "dget row ''action_id'' = PStr (delivery_id r)"
    and "dget row ''trace_id'' = PStr (er_trace r)" and "dget row ''tenant_id'' = PStr (er_tenant r)"
    and "dget row ''reason'' = PNone"
    and "dget row ''status'' = PStr (if k < n then ''retrying'' else verdict (http k))"
  by (simp_all add: row_def seen_row_def dget_sorted outcome_row_distinct attempt_journal_facts
      outcome_row_status outcome_row_fields outcome_keys_def)

lemma attempts_made_bounds: "1 \<le> attempts_made http" "attempts_made http \<le> 3"
  by (simp_all add: attempts_made_def)

lemma apply_webhook:
  fixes h m http clock r j
  defines "n \<equiv> attempts_made http"
  assumes "hook_url h ''enforcement'' \<noteq> []"
  shows "apply_enforcement_adapters h m http clock r j =
    \<lparr>ds_summary = (initial_summary h r)\<lparr>su_webhook := Some (end_webhook (http n)), su_journal := Some (verdict (http n))\<rparr>,
     ds_journal = fold append_enforcement_journal (attempt_rows (delivery_ctx_of h http clock r) n) j,
     ds_sent = replicate n (webhook_post h r),
     ds_metrics = enforcement_metrics m (resolve_enforcement_action (er_decision r) (er_recommended r))\<rparr>"
  using assms(2) unfolding apply_enforcement_adapters_def Let_def delivery_loop_eq
  by (simp add: n_def Let_def)

lemma apply_skipped:
  assumes "hook_url h ''enforcement'' = []"
  shows "apply_enforcement_adapters h m http clock r j =
    \<lparr>ds_summary = (initial_summary h r)\<lparr>su_journal := Some ''skipped''\<rparr>,
     ds_journal = append_enforcement_journal (dset ''reason'' (PStr ''webhook_unset'')
       (dset ''status'' (PStr ''skipped'') (base_journal h clock r))) j,
     ds_sent = [],
     ds_metrics = enforcement_metrics m (resolve_enforcement_action (er_decision r) (er_recommended r))\<rparr>"
  using assms by (simp add: apply_enforcement_adapters_def Let_def)

lemma fold_max_upt: "1 \<le> n \<Longrightarrow> fold max (map int [1..<Suc n]) 1 = int n"
proof (induction n rule: nat_induct_at_least)
  case base
  show ?case by simp
next
  case (Suc n)
  have "[1..<Suc (Suc n)] = [1..<Suc n] @ [Suc n]" using Suc.hyps by simp
  then have "fold max (map int [1..<Suc (Suc n)]) 1 = max (int (Suc n)) (fold max (map int [1..<Suc n]) 1)"
    by simp
  then show ?case unfolding Suc.IH by simp
qed

lemma res_map_Inr: "(\<And>x. x \<in> set xs \<Longrightarrow> f x = Inr (g x)) \<Longrightarrow> res_map f xs = Inr (map g xs)"
  by (induction xs) simp_all

text \<open>No row of the journal belongs to the action id.\<close>

definition fresh_id :: "string \<Rightarrow> journal \<Rightarrow> bool" where
  "fresh_id key j = (filter (row_matches key) (journal_rows j) = [])"

lemma logical_after_delivery:
  fixes h m http clock r j
  defines "n \<equiv> attempts_made http" and "j' \<equiv> ds_journal (apply_enforcement_adapters h m http clock r j)"
  assumes url: "hook_url h ''enforcement'' \<noteq> []" and ok: "journal_usable j" and fresh: "fresh_id (delivery_id r) j"
  shows "logical_enforcement_delivery j' (delivery_id r) =
    Inr (Some (logical_row (delivery_id r) (int n) (seen_row (delivery_ctx_of h http clock r) n n)))"
proof -
  let ?c = "delivery_ctx_of h http clock r" and ?key = "delivery_id r"
  have key: "lower (strip ?key) = ?key" "?key \<noteq> []" by (simp_all add: hex64_simps)
  have n1: "1 \<le> n" unfolding n_def by (rule attempts_made_bounds)
  note seen = stored_attempt_rows [OF n1, of ?c]
  have match: "row_matches ?key (seen_row ?c n k)" for k
    by (simp add: row_matches_def seen_row_facts key)
  have "row_matches ?key (sort_key fst row)" if "row \<in> set (attempt_rows ?c n)" for row
  proof -
    have "sort_key fst row \<in> set (map (seen_row ?c n) [1..<Suc n])"
      using that unfolding seen [symmetric] by simp
    then show ?thesis using match by auto
  qed
  then have rows: "filter (row_matches ?key) (journal_rows j') = map (seen_row ?c n) [1..<Suc n]"
    using ej.select_fresh [OF ok fresh [unfolded fresh_id_def], of "attempt_rows ?c n"]
    unfolding j'_def apply_webhook [OF url] n_def [symmetric] seen by simp
  have "res_map row_attempts (map (seen_row ?c n) [1..<Suc n]) = Inr (map int [1..<Suc n])"
  proof -
    have "row_attempts (seen_row ?c n k) = Inr (int k)" for k
      by (simp add: row_attempts_def seen_row_facts)
    then have "res_map row_attempts xs = Inr (map int ks)" if "xs = map (seen_row ?c n) ks" for xs ks
      unfolding that by (induction ks) simp_all
    then show ?thesis by blast
  qed
  moreover have "last (map (seen_row ?c n) [1..<Suc n]) = seen_row ?c n n" using n1 by simp
  ultimately show ?thesis
    unfolding logical_enforcement_delivery_def Let_def key(1) rows
    using key(2) n1 fold_max_upt [OF n1] by (simp del: upt_Suc)
qed

section \<open>The query over the journal\<close>

lemma row_action_id_matches: "key \<noteq> [] \<Longrightarrow> row_action_id row = key \<Longrightarrow> row_matches key row"
  by (auto simp: row_action_id_def row_matches_def py_or_def str_or_empty_def split: if_splits)

lemma add_wanted_id:
  assumes "key \<noteq> []" and "set seen \<subseteq> {key}" and "distinct seen"
  shows "set (add_action_id tid ten key row seen) \<subseteq> {key} \<and> distinct (add_action_id tid ten key row seen) \<and>
    (key \<in> set (add_action_id tid ten key row seen) \<longleftrightarrow> key \<in> set seen \<or>
      (str_or_empty (dget row ''trace_id'') = tid \<and> str_or_empty (dget row ''tenant_id'') = ten \<and> row_action_id row = key))"
  using assms by (auto simp: add_action_id_def Let_def)

lemma fold_wanted_id:
  assumes "key \<noteq> []" and "set seen \<subseteq> {key}" and "distinct seen"
  shows "set (fold (add_action_id tid ten key) rows seen) \<subseteq> {key} \<and>
    distinct (fold (add_action_id tid ten key) rows seen) \<and>
    (key \<in> set (fold (add_action_id tid ten key) rows seen) \<longleftrightarrow> key \<in> set seen \<or>
      (\<exists>row \<in> set rows. str_or_empty (dget row ''trace_id'') = tid \<and>
        str_or_empty (dget row ''tenant_id'') = ten \<and> row_action_id row = key))"
  using assms
proof (induction rows arbitrary: seen)
  case (Cons row rows)
  show ?case using add_wanted_id [OF Cons.prems, of tid ten row] Cons.IH [of "add_action_id tid ten key row seen"] Cons.prems(1)
    by auto
qed simp

lemma singleton_list: "set xs \<subseteq> {x} \<Longrightarrow> distinct xs \<Longrightarrow> xs = (if x \<in> set xs then [x] else [])"
  by (cases xs; cases "tl xs") auto

lemma action_ids_after_delivery:
  fixes h m http clock r j
  defines "j' \<equiv> ds_journal (apply_enforcement_adapters h m http clock r j)"
  assumes url: "hook_url h ''enforcement'' \<noteq> []" and ok: "journal_usable j"
    and ids: "strip (er_trace r) = er_trace r" "er_trace r \<noteq> []" "strip (er_tenant r) = er_tenant r" "er_tenant r \<noteq> []"
  shows "action_ids_for_query j' (er_trace r) (er_tenant r) (Some (delivery_id r)) = [delivery_id r]"
proof -
  let ?n = "attempts_made http" and ?c = "delivery_ctx_of h http clock r" and ?key = "delivery_id r"
  have key: "lower (strip ?key) = ?key" "?key \<noteq> []" by (simp_all add: hex64_simps)
  have "journal_rows j' = journal_rows j @ map (seen_row ?c ?n) [1..<Suc ?n]"
    unfolding j'_def apply_webhook [OF url] stored_attempt_rows [OF attempts_made_bounds(1), symmetric]
    by (simp add: ej.rows_fold [OF ok])
  then have "seen_row ?c ?n ?n \<in> set (journal_rows j')" using attempts_made_bounds(1) [of http] by simp
  moreover have "row_action_id (seen_row ?c ?n ?n) = ?key"
    by (simp add: row_action_id_def seen_row_facts key)
  ultimately have "?key \<in> set (fold (add_action_id (er_trace r) (er_tenant r) ?key) (journal_rows j') [])"
    using fold_wanted_id [OF key(2), of "[]" "er_trace r" "er_tenant r" "journal_rows j'"]
    by (auto simp: seen_row_facts)
  then show ?thesis
    using fold_wanted_id [OF key(2), of "[]" "er_trace r" "er_tenant r" "journal_rows j'"]
      singleton_list [of "fold (add_action_id (er_trace r) (er_tenant r) ?key) (journal_rows j') []" ?key]
    by (simp add: action_ids_for_query_def Let_def opt_str_def key ids)
qed

lemma verdict_texts:
  "lower (strip (verdict res)) = verdict res"
  "map_journal_query_status (verdict res) [] = (if verdict res = ''acked'' then ''emitted'' else verdict res)"
proof -
  have "verdict res \<in> set [''acked'', ''dead_lettered'', ''non_2xx'']" by (simp add: verdict_def)
  moreover have "\<forall>v \<in> set [''acked'', ''dead_lettered'', ''non_2xx'']. lower (strip v) = v \<and>
      map_journal_query_status v [] = (if v = ''acked'' then ''emitted'' else v)" by code_simp
  ultimately show "lower (strip (verdict res)) = verdict res"
    "map_journal_query_status (verdict res) [] = (if verdict res = ''acked'' then ''emitted'' else verdict res)" by blast+
qed

lemma query_after_delivery:
  fixes http :: "nat \<Rightarrow> http_outcome"
  defines "n \<equiv> attempts_made http"
  assumes url: "hook_url h ''enforcement'' \<noteq> []" and ok: "journal_usable j" and fresh: "fresh_id (delivery_id r) j"
    and ids: "strip (er_trace r) = er_trace r" "er_trace r \<noteq> []" "strip (er_tenant r) = er_tenant r" "er_tenant r \<noteq> []"
  shows "\<exists>row. query_enforcement_deliveries (ds_journal (apply_enforcement_adapters h m http clock r j))
         (er_trace r) (er_tenant r) (Some (delivery_id r)) None = Inr [row] \<and>
       dget row ''action_id'' = PStr (delivery_id r) \<and> dget row ''attempt_count'' = PInt (int n) \<and>
       dget row ''trace_id'' = PStr (er_trace r) \<and> dget row ''tenant_id'' = PStr (er_tenant r) \<and>
       dget row ''last_status'' = PStr (if verdict (http n) = ''acked'' then ''emitted'' else verdict (http n)) \<and>
       dget row ''acked_at'' = (if verdict (http n) = ''acked'' \<and> strip (clock n) \<noteq> [] then PStr (strip (clock n)) else PNone)"
proof -
  let ?d = "apply_enforcement_adapters h m http clock r j"
  let ?l = "logical_row (delivery_id r) (int n) (seen_row (delivery_ctx_of h http clock r) n n)"
  have n1: "int n \<noteq> 0" using attempts_made_bounds(1) [of http] by (simp add: n_def)
  have fields: "dget ?l ''tenant_id'' = PStr (er_tenant r)" "dget ?l ''trace_id'' = PStr (er_trace r)"
    "dget ?l ''status'' = PStr (verdict (http n))" "dget ?l ''reason'' = PNone" "dget ?l ''ts'' = PStr (clock n)"
    "dget ?l ''action_id'' = PStr (delivery_id r)" "dget ?l ''attempt_count'' = PInt (int n)"
    by (simp_all add: logical_row_def seen_row_facts)
  obtain row where row: "logical_to_query_row ?l = Inr row" "dget row ''action_id'' = PStr (delivery_id r)"
    "dget row ''attempt_count'' = PInt (int n)"
    "dget row ''last_status'' = PStr (if verdict (http n) = ''acked'' then ''emitted'' else verdict (http n))"
    "dget row ''trace_id'' = PStr (er_trace r)" "dget row ''tenant_id'' = PStr (er_tenant r)"
    "dget row ''acked_at'' = (if verdict (http n) = ''acked'' \<and> strip (clock n) \<noteq> [] then PStr (strip (clock n)) else PNone)"
    using n1 unfolding logical_to_query_row_def Let_def fields by (simp add: verdict_texts)
  have "query_enforcement_deliveries (ds_journal ?d) (er_trace r) (er_tenant r) (Some (delivery_id r)) None = Inr [row]"
    using row(1) fields
    by (simp add: query_enforcement_deliveries_def query_one_def Let_def ids opt_str_def
        action_ids_after_delivery [OF url ok ids] logical_after_delivery [OF url ok fresh] n_def)
  with row(2-7) show ?thesis by blast
qed

lemma res_map_mem: "res_map f xs = Inr ys \<Longrightarrow> y \<in> set ys \<Longrightarrow> \<exists>x \<in> set xs. f x = Inr y"
  by (induction xs arbitrary: ys) (auto split: sum.splits)

lemma map_status_not_acked: "map_journal_query_status s w \<noteq> ''acked''"
  by (simp add: map_journal_query_status_def Let_def)

lemma query_one_scoped:
  assumes "query_one j tid ten want aid = Inr rows" and "row \<in> set rows"
  shows "str_or_empty (dget row ''tenant_id'') = ten \<and> str_or_empty (dget row ''trace_id'') = tid \<and>
    dget row ''last_status'' \<noteq> PStr ''acked''"
  using assms by (auto simp: query_one_def logical_to_query_row_def Let_def map_status_not_acked
      split: sum.splits option.splits if_splits)

lemma query_scoped:
  assumes "query_enforcement_deliveries j trace_id tenant_id action_id status = Inr rows" and "row \<in> set rows"
  shows "str_or_empty (dget row ''tenant_id'') = strip tenant_id \<and>
    str_or_empty (dget row ''trace_id'') = strip trace_id \<and> dget row ''last_status'' \<noteq> PStr ''acked''"
proof -
  let ?q = "query_one j (strip trace_id) (strip tenant_id) (lower (strip (opt_str status)))"
  let ?ids = "action_ids_for_query j (strip trace_id) (strip tenant_id) action_id"
  have "\<not> (strip trace_id = [] \<or> strip tenant_id = [])"
    using assms by (auto simp: query_enforcement_deliveries_def)
  then obtain rs where rs: "res_map ?q ?ids = Inr rs" "rows = concat rs"
    using assms(1) by (auto simp: query_enforcement_deliveries_def Let_def split: sum.splits)
  then obtain part where "part \<in> set rs" "row \<in> set part" using assms(2) by auto
  then show ?thesis using res_map_mem [OF rs(1)] query_one_scoped by blast
qed

section \<open>Properties\<close>

text \<open>
  Handing over authority is opt-in.  The enforcement mode is \<open>handoff\<close> exactly when the
  environment variable says so, or it is unset or blank and the provision file of the desk says
  so; every other setting, an unknown token or an unreadable file included, is
  \<open>emit_only\<close>, and only in \<open>handoff\<close> does a delivery claim authority.
\<close>

theorem handoff_only_when_configured:
  "(enforcement_mode h = ''handoff'' \<longleftrightarrow>
      env_set h ''TARKA_ENFORCEMENT_MODE'' \<in> {Some v | v. lower v = ''handoff''} \<or>
      (env_set h ''TARKA_ENFORCEMENT_MODE'' = None \<and>
       (\<exists>block. dget (load_desk_provision h None) ''enforcement'' = PDict block \<and>
          lower (strip (str_or_empty (dget block ''mode''))) = ''handoff''))) \<and>
   (enforcement_mode h = ''handoff'' \<or> enforcement_mode h = ''emit_only'') \<and>
   su_authority (ds_summary (apply_enforcement_adapters h m http clock r j)) = (enforcement_mode h = ''handoff'')"
proof -
  have auth: "su_authority (ds_summary (apply_enforcement_adapters h m http clock r j)) = (enforcement_mode h = ''handoff'')"
    by (cases "hook_url h ''enforcement'' = []") (simp_all add: apply_skipped apply_webhook initial_summary_def)
  have dict: "dict_of v = Some b \<longleftrightarrow> v = PDict b" for v b by (cases v) auto
  have "enforcement_mode h = ''handoff'' \<longleftrightarrow>
      env_set h ''TARKA_ENFORCEMENT_MODE'' \<in> {Some v | v. lower v = ''handoff''} \<or>
      (env_set h ''TARKA_ENFORCEMENT_MODE'' = None \<and>
       (\<exists>block. provision_block h ''enforcement'' = Some block \<and>
          lower (strip (str_or_empty (dget block ''mode''))) = ''handoff''))"
    by (auto simp: enforcement_mode_agrees desk_enforcement_mode_def enforcement_modes_def Let_def split: option.splits)
  with auth show ?thesis
    using desk_enforcement_mode_cases [of h] by (auto simp: provision_block_def dict enforcement_mode_agrees)
qed

text \<open>
  Delivery fails soft.  Whatever the webhook answers and whether or not the journal can be
  written, the adapters return, the enforcement verb is the one the decision resolves to, at
  most three posts are made, all with the same body, signature and action id, and no line of
  the journal is lost or changed.
\<close>

theorem delivery_fails_soft:
  "let d = apply_enforcement_adapters h m http clock r j in
     su_action (ds_summary d) = resolve_enforcement_action (er_decision r) (er_recommended r) \<and>
     su_journal (ds_summary d) \<noteq> None \<and>
     length (ds_sent d) \<le> 3 \<and> set (ds_sent d) \<subseteq> {webhook_post h r} \<and>
     su_idempotency_key (ds_summary d) = delivery_id r \<and> is_hex64 (delivery_id r) \<and>
     (\<exists>new. lines_of (ds_journal d) = lines_of j @ new)"
proof (cases "hook_url h ''enforcement'' = []")
  case True
  then show ?thesis
    by (auto simp: apply_skipped initial_summary_def append_enforcement_journal_def lines_of_def split: option.split)
next
  case False
  then show ?thesis
    using fold_append_extends [of _ j] attempts_made_bounds [of http]
    by (auto simp: apply_webhook initial_summary_def Let_def)
qed

text \<open>
  C23: the journal tells what happened.  With a webhook configured, a usable journal and a new
  action id, the delivery makes attempts until one is acknowledged, is refused for good, or
  three have failed, and the tenant's query for that action id returns one row: the number of
  attempts made, and \<open>emitted\<close> for an acknowledged delivery (with its time), and the journal status
  \<open>dead_lettered\<close> or \<open>non_2xx\<close> for a lost one.
\<close>

theorem delivery_journal_roundtrip:
  fixes http :: "nat \<Rightarrow> http_outcome"
  defines "n \<equiv> attempts_made http"
  assumes url: "hook_url h ''enforcement'' \<noteq> []" and ok: "journal_usable j" and fresh: "fresh_id (delivery_id r) j"
    and ids: "strip (er_trace r) = er_trace r" "er_trace r \<noteq> []" "strip (er_tenant r) = er_tenant r" "er_tenant r \<noteq> []"
  shows "let d = apply_enforcement_adapters h m http clock r j in
    length (ds_sent d) = n \<and> su_journal (ds_summary d) = Some (verdict (http n)) \<and>
    (\<exists>row. query_enforcement_deliveries (ds_journal d) (er_trace r) (er_tenant r) (Some (delivery_id r)) None = Inr [row] \<and>
       dget row ''action_id'' = PStr (delivery_id r) \<and> dget row ''attempt_count'' = PInt (int n) \<and>
       dget row ''last_status'' = PStr (if verdict (http n) = ''acked'' then ''emitted'' else verdict (http n)) \<and>
       dget row ''acked_at'' = (if verdict (http n) = ''acked'' \<and> strip (clock n) \<noteq> [] then PStr (strip (clock n)) else PNone))"
  using query_after_delivery [OF url ok fresh ids, of m http clock]
  by (auto simp: Let_def apply_webhook [OF url] n_def)

definition demo_host :: host where
  "demo_host = \<lparr>host_env = [(''TARKA_ENFORCEMENT_WEBHOOK_URL'', ''https://buyer/hook''),
     (''TARKA_ENFORCEMENT_WEBHOOK_SECRET'', ''s3cret'')], host_files = []\<rparr>"

definition demo_request :: enforcement_request where
  "demo_request = \<lparr>er_trace = ''t-1'', er_tenant = ''acme'', er_entity = ''u7'', er_event = ''payment'',
     er_decision = ''deny'', er_score = Fin 91, er_tags = [], er_recommended = None,
     er_challenge = None, er_pack_hash = ''''\<rparr>"

definition no_journal :: journal where
  "no_journal = \<lparr>jlines = None, jwritable = True, jreadable = True\<rparr>"

definition flaky_http :: "nat \<Rightarrow> http_outcome" where
  "flaky_http k = Responds (Some (if k = 1 then 503 else 200))"

lemma no_journal_facts: "journal_usable no_journal" "fresh_id key no_journal"
  by (simp_all add: journal_usable_def no_journal_def fresh_id_def journal_rows_def readable_lines_def List.map_filter_def)

lemma demo_facts:
  "hook_url demo_host ''enforcement'' = ''https://buyer/hook''"
  "hook_secret demo_host ''enforcement'' = ''s3cret''"
  "strip (er_trace demo_request) = er_trace demo_request" "er_trace demo_request \<noteq> []"
  "strip (er_tenant demo_request) = er_tenant demo_request" "er_tenant demo_request \<noteq> []"
  by code_simp+

lemma flaky_facts: "attempts_made flaky_http = 2" "verdict (flaky_http 2) = ''acked''"
  by code_simp+

theorem delivery_journal_roundtrip_witness:
  "\<exists>row. query_enforcement_deliveries
      (ds_journal (apply_enforcement_adapters demo_host NoMetrics flaky_http (\<lambda>_. ''2026-01-01T00:00:00Z'') demo_request no_journal))
      ''t-1'' ''acme'' (Some (delivery_id demo_request)) None = Inr [row] \<and>
    dget row ''attempt_count'' = PInt 2 \<and> dget row ''last_status'' = PStr ''emitted''"
proof -
  have req: "er_trace demo_request = ''t-1''" "er_tenant demo_request = ''acme''" by (simp_all add: demo_request_def)
  have "hook_url demo_host ''enforcement'' \<noteq> []" by (simp add: demo_facts)
  from delivery_journal_roundtrip [OF this no_journal_facts demo_facts(3-6), of NoMetrics flaky_http "\<lambda>_. ''2026-01-01T00:00:00Z''"]
  show ?thesis by (auto simp: Let_def flaky_facts req)
qed

end
