(* ===== verification/Decision_Outcome.thy ===== *)
theory Decision_Outcome
  imports Decision_Score Enforcement
begin

text \<open>
  What follows a decision: \<open>decision_api/decision_outcome.py\<close> (which side effects are scheduled),
  \<open>degraded_decision_metrics.py\<close>, \<open>queue_seam.py\<close> (the buyer's queue) and the three bridges to the integration
  ingress, \<open>payout_hold_bridge.py\<close>, \<open>promo_redemption_bridge.py\<close> and \<open>seller_integrity_bridge.py\<close>.

  A scheduled task is a value; what it sends when it runs is a function of the decision.  The answers
  of HTTP calls and the time are arguments.  The counters the bridges and the wrapped tasks use do not raise.
\<close>

section \<open>Metrics of degraded decisions\<close>

definition tag_metric_keys :: "(string \<times> string) list" where
  "tag_metric_keys =
    [(''circuit_open'', ''circuit_open''), (''load_shedding:active'', ''load_shed''), (''feature:missing_'', ''missing_feature''),
     (''feature:catalog_fail_closed'', ''catalog_fail_closed''), (''graph:stale_skipped'', ''graph_stale_skipped''),
     (''graph:stale_fail_closed'', ''graph_stale_fail_closed''), (''graph:unavailable'', ''graph_unavailable''),
     (''graph:unconfigured'', ''graph_unconfigured''), (''enrichment:unavailable'', ''enrichment_unavailable''),
     (''ml:unavailable'', ''ml_unavailable''), (''lists:unavailable'', ''lists_unavailable''),
     (''opa:unavailable'', ''opa_unavailable''), (''async_enrich:stale'', ''async_enrich_stale'')]"

definition reason_for_tag :: "string \<Rightarrow> string option" where
  "reason_for_tag tag = (let t = strip tag in if t = [] then None
     else (case find (\<lambda>(prefix, reason). startswith t prefix) tag_metric_keys of
         Some (_, reason) \<Rightarrow> Some reason
       | None \<Rightarrow> if startswith t ''feature:missing_'' then Some ''missing_feature'' else None))"

definition add_reason :: "string \<Rightarrow> string list \<Rightarrow> string list" where
  "add_reason tag emitted = (case reason_for_tag tag of None \<Rightarrow> emitted | Some r \<Rightarrow> add_seen r emitted)"

text \<open>The reasons returned and the counters incremented.\<close>

definition record_degraded_decision_metrics :: "metrics_api \<Rightarrow> string list \<Rightarrow> string list \<times> string list" where
  "record_degraded_decision_metrics m degrade_tags = (if degrade_tags = [] \<or> m = NoMetrics then ([], [])
     else let emitted = fold add_reason degrade_tags [] in
       (emitted, if m = Failing then [] else concat (map (\<lambda>r. [''tarka_degraded_decision_total'',
         ''tarka_degraded_decision_'' @ r @ ''_total'']) emitted)))"

section \<open>Bridges\<close>

record bridge_post =
  bp_url :: string
  bp_token :: string
  bp_body :: dict

definition rstrip_slash :: "string \<Rightarrow> string" where
  "rstrip_slash s = rev (dropWhile (\<lambda>c. c = CHR ''/'') (rev s))"

text \<open>One post with the internal token, or none when the ingress is not configured; and the counters.\<close>

definition ingress_post :: "string \<Rightarrow> string \<Rightarrow> string \<Rightarrow> string \<Rightarrow> dict \<Rightarrow> bool \<Rightarrow> bridge_post option \<times> string list" where
  "ingress_post path counter base_url token payload succeeds = (if strip base_url = [] \<or> strip token = [] then (None, [])
     else (Some \<lparr>bp_url = rstrip_slash (strip base_url) @ path, bp_token = strip token, bp_body = payload\<rparr>,
       if succeeds then [] else [counter]))"

text \<open>A metadata field that \<open>float\<close> accepts is copied; only \<open>TypeError\<close> and \<open>ValueError\<close> are caught.\<close>

definition copy_float :: "dict \<Rightarrow> string \<Rightarrow> dict \<Rightarrow> dict res" where
  "copy_float meta key body = (if dget meta key = PNone then Inr body
     else (case py_float (dget meta key) of Inr f \<Rightarrow> Inr (dset key (PFloat f) body)
       | Inl TypeError \<Rightarrow> Inr body | Inl ValueError \<Rightarrow> Inr body | Inl e \<Rightarrow> Inl e))"

definition copy_text :: "dict \<Rightarrow> string \<Rightarrow> dict \<Rightarrow> dict" where
  "copy_text meta key body = (case dget meta key of PStr s \<Rightarrow> if strip s = [] then body else dset key (PStr (strip s)) body | _ \<Rightarrow> body)"

definition fill_from :: "dict \<Rightarrow> string \<Rightarrow> dict \<Rightarrow> dict" where
  "fill_from pl key meta = (if \<not> has_key meta key \<and> has_key pl key then dset key (dget pl key) meta else meta)"

definition meta_text :: "dict \<Rightarrow> string \<Rightarrow> string" where
  "meta_text meta key = strip (str_or_empty (dget meta key))"

record evaluated =
  ev_tenant :: string
  ev_entity :: string
  ev_event :: string
  ev_trace :: string
  ev_tags :: "string list"
  ev_meta :: dict
  ev_payload :: dict

subsection \<open>Payout holds\<close>

definition action_tags :: "string list" where
  "action_tags = [''action:payout_hold'', ''action:payout_delay'']"

definition hold_checkpoints :: "string list" where
  "hold_checkpoints = [''payout'', ''dispatch'', ''deliver'', ''delivery'']"

definition spoof_risk_tags :: "string list" where
  "spoof_risk_tags = [''risk:courier_spoof'', ''action:payout_hold'']"

definition resolve_checkpoint :: "dict \<Rightarrow> string \<Rightarrow> string" where
  "resolve_checkpoint meta event_type = (let c = lower (meta_text meta ''checkpoint'') in
     if c \<noteq> [] then c else lower (strip event_type))"

definition has_spoof_risk_tag :: "string list \<Rightarrow> bool" where
  "has_spoof_risk_tag tags = list_ex (\<lambda>t. t \<in> set spoof_risk_tags \<or> startswith t ''vendor:incognia'') tags"

definition resolve_payout_id :: "dict \<Rightarrow> string" where
  "resolve_payout_id meta = (case filter (\<lambda>v. v \<noteq> []) (map (meta_text meta) [''payout_id'', ''courier_payout_id'', ''transfer_id'']) of
     [] \<Rightarrow> [] | v # _ \<Rightarrow> v)"

definition should_create_payout_hold :: "dict \<Rightarrow> string list \<Rightarrow> string \<Rightarrow> bool" where
  "should_create_payout_hold meta tags event_type = (let checkpoint = resolve_checkpoint meta event_type in
     if checkpoint \<notin> set hold_checkpoints then False
     else if checkpoint = ''payout'' then list_ex (\<lambda>t. t \<in> set action_tags) tags
     else has_spoof_risk_tag tags)"

definition resolve_hold_status_and_hours :: "string list \<Rightarrow> string \<times> int" where
  "resolve_hold_status_and_hours tags = (if ''action:payout_hold'' \<in> set tags then (''held'', 72)
     else if ''action:payout_delay'' \<in> set tags then (''pending'', 24) else (''held'', 72))"

definition hold_reason_from_tags :: "string list \<Rightarrow> string" where
  "hold_reason_from_tags tags = (case find (\<lambda>t. t \<in> set action_tags) tags of
      Some t \<Rightarrow> ''tag:'' @ t
    | None \<Rightarrow> (case find (\<lambda>t. startswith t ''action:payout_'') tags of
        Some t \<Rightarrow> ''tag:'' @ t | None \<Rightarrow> ''tag:action:payout_hold''))"

definition build_hold_payload :: "evaluated \<Rightarrow> dict res" where
  "build_hold_payload e = (let meta = ev_meta e; pid = resolve_payout_id meta in
     if pid = [] then Inl ValueError
     else (case resolve_hold_status_and_hours (ev_tags e) of (status, hours) \<Rightarrow>
       (case copy_float meta ''amount''
          [(''tenant_id'', PStr (ev_tenant e)), (''payout_id'', PStr pid), (''entity_id'', PStr (ev_entity e)),
           (''status'', PStr status), (''hold_duration_hours'', PInt hours),
           (''hold_reason'', PStr (hold_reason_from_tags (ev_tags e))), (''held_by'', PStr ''evaluate''),
           (''decision_id'', PStr (ev_trace e)), (''trace_id'', PStr (ev_trace e)), (''tags'', PList (map PStr (ev_tags e)))] of
         Inl err \<Rightarrow> Inl err | Inr body \<Rightarrow> Inr (copy_text meta ''currency'' body))))"

text \<open>\<open>None\<close> posted also when the payload raises \<open>ValueError\<close>; other exceptions pass.\<close>

definition post_built :: "string \<Rightarrow> string \<Rightarrow> string \<Rightarrow> string \<Rightarrow> bool \<Rightarrow> dict res \<Rightarrow> (bridge_post option \<times> string list) res" where
  "post_built path counter base_url token succeeds built = (case built of
      Inl ValueError \<Rightarrow> Inr (None, [])
    | Inl err \<Rightarrow> Inl err
    | Inr body \<Rightarrow> Inr (ingress_post path counter base_url token body succeeds))"

definition maybe_create_payout_hold_from_evaluate ::
  "string \<Rightarrow> string \<Rightarrow> bool \<Rightarrow> evaluated \<Rightarrow> (bridge_post option \<times> string list) res" where
  "maybe_create_payout_hold_from_evaluate base_url token succeeds e =
     (if \<not> should_create_payout_hold (ev_meta e) (ev_tags e) (ev_event e) then Inr (None, [])
      else if resolve_payout_id (ev_meta e) = [] then Inr (None, [])
      else post_built ''/v1/internal/marketplace/payout-holds'' ''payout_hold_bridge_failed'' base_url token succeeds
        (build_hold_payload e))"

subsection \<open>Promotions\<close>

definition promo_checkpoints :: "string list" where
  "promo_checkpoints = [''redeem'', ''promo'']"

definition coupon_from_metadata :: "dict \<Rightarrow> string" where
  "coupon_from_metadata meta = strip (str_or_empty (py_or (dget meta ''coupon_code'') (dget meta ''promo_code'')))"

definition should_record_promo_redemption :: "dict \<Rightarrow> string list \<Rightarrow> string \<Rightarrow> bool" where
  "should_record_promo_redemption meta tags event_type = (if coupon_from_metadata meta = [] then False
     else if lower (meta_text meta ''checkpoint'') \<in> set promo_checkpoints \<or> lower (strip event_type) \<in> set promo_checkpoints then True
     else ''risk:promo_farm'' \<in> set tags)"

definition promo_keys :: "string list" where
  "promo_keys = [''coupon_code'', ''promo_code'', ''device_id'', ''order_total'', ''currency'', ''ip_hint'', ''ip'', ''ip_address'']"

definition build_promo_payload :: "evaluated \<Rightarrow> dict res" where
  "build_promo_payload e = (let meta = fold (fill_from (ev_payload e)) promo_keys (ev_meta e);
       coupon = coupon_from_metadata meta; device = meta_text meta ''device_id'';
       ip = strip (str_or_empty (py_or (dget meta ''ip_hint'') (py_or (dget meta ''ip'') (dget meta ''ip_address'')))) in
     if coupon = [] then Inl ValueError
     else (case copy_float meta ''order_total''
         ([(''tenant_id'', PStr (ev_tenant e)), (''coupon_code'', PStr coupon), (''user_id'', PStr (ev_entity e)),
           (''flags'', PList (map PStr (ev_tags e))), (''trace_id'', PStr (ev_trace e))] @
          (if device = [] then [] else [(''device_id'', PStr device)])) of
       Inl err \<Rightarrow> Inl err
     | Inr body \<Rightarrow> Inr (let body' = copy_text meta ''currency'' body in
         if ip = [] then body' else dset ''ip_hint'' (PStr ip) body')))"

definition maybe_record_promo_redemption_from_evaluate ::
  "string \<Rightarrow> string \<Rightarrow> bool \<Rightarrow> evaluated \<Rightarrow> (bridge_post option \<times> string list) res" where
  "maybe_record_promo_redemption_from_evaluate base_url token succeeds e =
     (if \<not> should_record_promo_redemption (ev_meta e) (ev_tags e) (ev_event e) then Inr (None, [])
      else if coupon_from_metadata (ev_meta e) = [] then Inr (None, [])
      else post_built ''/v1/internal/marketplace/promo-redemptions'' ''promo_redemption_bridge_failed'' base_url token succeeds
        (build_promo_payload e))"

subsection \<open>Sellers\<close>

definition seller_checkpoints :: "string list" where
  "seller_checkpoints = [''seller_review'', ''delivery'', ''checkout'']"

definition int_field :: "dict \<Rightarrow> string \<Rightarrow> int \<Rightarrow> int res" where
  "int_field meta key dflt = (if dget meta key = PNone then Inr dflt
     else catch_conversion dflt (case py_int (dget meta key) of Inl e \<Rightarrow> Inl e | Inr i \<Rightarrow> Inr (max 0 i)))"

definition should_record_seller_integrity :: "dict \<Rightarrow> string \<Rightarrow> bool" where
  "should_record_seller_integrity meta event_type = (if meta_text meta ''seller_id'' = [] then False
     else if dget meta ''successful_deliveries'' \<noteq> PNone \<or> dget meta ''review_count'' \<noteq> PNone then True
     else lower (meta_text meta ''checkpoint'') \<in> set seller_checkpoints \<or> lower (strip event_type) \<in> set seller_checkpoints)"

definition seller_keys :: "string list" where
  "seller_keys = [''seller_id'', ''successful_deliveries'', ''review_count'', ''window_days'', ''display_name'', ''store_slug'',
     ''category'', ''avg_rating'']"

definition build_seller_payload :: "evaluated \<Rightarrow> dict res" where
  "build_seller_payload e = (let meta = fold (fill_from (ev_payload e)) seller_keys (ev_meta e); sid = meta_text meta ''seller_id'' in
     if sid = [] then Inl ValueError
     else (case int_field meta ''successful_deliveries'' 0 of Inl err \<Rightarrow> Inl err | Inr deliveries \<Rightarrow>
       (case int_field meta ''review_count'' 0 of Inl err \<Rightarrow> Inl err | Inr reviews \<Rightarrow>
       (case int_field meta ''window_days'' 30 of Inl err \<Rightarrow> Inl err | Inr window \<Rightarrow>
         copy_float meta ''avg_rating'' (fold (copy_text meta) [''display_name'', ''store_slug'', ''category'']
           [(''tenant_id'', PStr (ev_tenant e)), (''seller_id'', PStr sid), (''successful_deliveries'', PInt deliveries),
            (''review_count'', PInt reviews), (''window_days'', PInt (if window = 0 then 30 else window))])))))"

definition maybe_record_seller_integrity_from_evaluate ::
  "string \<Rightarrow> string \<Rightarrow> bool \<Rightarrow> evaluated \<Rightarrow> (bridge_post option \<times> string list) res" where
  "maybe_record_seller_integrity_from_evaluate base_url token succeeds e =
     (if \<not> should_record_seller_integrity (ev_meta e) (ev_event e) then Inr (None, [])
      else post_built ''/v1/internal/marketplace/seller-integrity'' ''seller_integrity_bridge_failed'' base_url token succeeds
        (build_seller_payload e))"

section \<open>The queue of the buyer\<close>

record queue_status =
  qs_connected :: bool
  qs_last_ok_at :: "string option"
  qs_last_error_at :: "string option"
  qs_last_error :: "string option"

definition queue_webhook_url :: "host \<Rightarrow> string" where
  "queue_webhook_url h = (case env_raw h ''QUEUE_WEBHOOK_URL'' of Some raw \<Rightarrow> strip raw | None \<Rightarrow> hook_url h ''queue'')"

definition queue_webhook_secret :: "host \<Rightarrow> string" where
  "queue_webhook_secret h = (case env_set h ''QUEUE_WEBHOOK_SECRET'' of Some s \<Rightarrow> s | None \<Rightarrow> hook_secret h ''queue'')"

definition queue_seam_mode :: "host \<Rightarrow> string" where
  "queue_seam_mode h = (let raw = opt_str (env_raw h ''QUEUE_SEAM_MODE'');
       token = lower (strip (if raw = [] then ''webhook'' else raw))
     in if token \<in> set [''webhook'', ''issue_tracker''] then token else ''webhook'')"

text \<open>\<open>urllib.parse.quote\<close>: letters, digits and \<open>_.-~/\<close> stay, every other byte of the UTF-8 form is escaped.\<close>

definition quote_byte :: "nat \<Rightarrow> string" where
  "quote_byte n = (if n < 128 \<and> (char_of n :: char) \<in> set ''ABCDEFGHIJKLMNOPQRSTUVWXYZabcdefghijklmnopqrstuvwxyz0123456789_.-~/''
     then [char_of n] else ''%'' @ upper (hex2 n))"

definition url_quote :: "string \<Rightarrow> string" where
  "url_quote s = concat (map quote_byte (utf8 s))"

definition desk_deep_link :: "host \<Rightarrow> string \<Rightarrow> string \<Rightarrow> string" where
  "desk_deep_link h leftover_id trace_id = (let base = rstrip_slash (env_text h ''DESK_PUBLIC_BASE_URL'') in
     if base = [] then []
     else base @ ''/leftovers?leftover_id='' @ url_quote leftover_id @ ''&trace_id='' @ url_quote trace_id)"

record queue_args =
  qa_tenant :: string
  qa_leftover :: string
  qa_trace :: string
  qa_entity :: string
  qa_action :: string
  qa_why :: string
  qa_token :: string
  qa_flag :: string
  qa_mode :: string

definition first_nonempty :: "string list \<Rightarrow> string" where
  "first_nonempty xs = (case filter (\<lambda>x. x \<noteq> []) xs of [] \<Rightarrow> [] | x # _ \<Rightarrow> x)"

definition build_queue_upsert :: "host \<Rightarrow> string \<Rightarrow> queue_args \<Rightarrow> dict" where
  "build_queue_upsert h now a =
     (let lid = strip (first_nonempty [qa_leftover a, qa_flag a, qa_trace a]) in
      [(''schema_id'', PStr ''tarka.queue_upsert/v1''), (''tenant_id'', PStr (qa_tenant a)), (''leftover_id'', PStr lid),
       (''flag_id'', if strip (qa_flag a) = [] then PNone else PStr (strip (qa_flag a))), (''trace_id'', PStr (qa_trace a)),
       (''evaluation_token'', PStr (strip (first_nonempty [qa_token a, qa_trace a]))), (''entity_id'', PStr (qa_entity a)),
       (''action'', PStr (qa_action a)), (''enforcement_mode'', PStr (qa_mode a)),
       (''pack_why_summary'', PStr (take 240 (strip (qa_why a)))),
       (''deep_link'', PStr (desk_deep_link h lid (qa_trace a))), (''emitted_at'', PStr now)])"

definition last_queue_status :: "host \<Rightarrow> queue_status \<Rightarrow> dict" where
  "last_queue_status h st = [(''connected'', PBool (queue_webhook_url h \<noteq> [])), (''last_ok_at'', opt_pstr (qs_last_ok_at st)),
     (''last_error_at'', opt_pstr (qs_last_error_at st)), (''last_error'', opt_pstr (qs_last_error st)),
     (''mode'', PStr (queue_seam_mode h))]"

definition record_status :: "host \<Rightarrow> string \<Rightarrow> string option \<Rightarrow> queue_status \<Rightarrow> queue_status" where
  "record_status h now err st = (let st' = st\<lparr>qs_connected := queue_webhook_url h \<noteq> []\<rparr> in
     case err of None \<Rightarrow> st'\<lparr>qs_last_ok_at := Some now, qs_last_error := None\<rparr>
     | Some e \<Rightarrow> st'\<lparr>qs_last_error_at := Some now, qs_last_error := Some (take 200 (if e = [] then ''error'' else e))\<rparr>)"

definition issue_tracker_payload :: "dict \<Rightarrow> dict" where
  "issue_tracker_payload body =
     [(''title'', PStr (''Tarka leftover '' @ py_str (py_or (dget body ''leftover_id'') (dget body ''trace_id'')))),
      (''body'', PStr (''entity='' @ py_str (dget body ''entity_id'') @ '' action='' @ py_str (dget body ''action'') @
         '' why='' @ py_str (dget body ''pack_why_summary'') @ '' link='' @ py_str (dget body ''deep_link''))),
      (''queue_upsert'', PDict body)]"

definition queue_post :: "host \<Rightarrow> dict \<Rightarrow> sent_post" where
  "queue_post h payload =
     (let tracker = queue_seam_mode h = ''issue_tracker'';
          raw = utf8 (json_dumps_sorted (PDict (if tracker then issue_tracker_payload payload else payload)));
          secret = queue_webhook_secret h; auth = env_text h ''ISSUE_TRACKER_AUTH_HEADER''
      in \<lparr>sp_url = queue_webhook_url h, sp_body = raw,
          sp_headers = [(''content-type'', ''application/json''), (''x-tarka-queue-event'', ''queue.upsert'')] @
            (if secret = [] then [] else [(''x-tarka-signature'', sign_body raw secret)]) @
            (if auth \<noteq> [] \<and> tracker then [(''authorization'', auth)] else [])\<rparr>)"

definition emit_queue_upsert ::
  "host \<Rightarrow> string \<Rightarrow> http_outcome \<Rightarrow> queue_args \<Rightarrow> queue_status \<Rightarrow> dict \<times> queue_status \<times> sent_post option" where
  "emit_queue_upsert h now http a st =
     (if queue_webhook_url h = [] then ([(''dispatched'', PBool False), (''reason'', PStr ''url_unset'')], st, None)
      else (case http of
          Responds status \<Rightarrow> ([(''dispatched'', PBool True), (''ok'', PBool (post_ok http)), (''status_code'', opt_pint status)],
            record_status h now (if post_ok http then None else Some (http_label status)) st,
            Some (queue_post h (build_queue_upsert h now a)))
        | Raises e \<Rightarrow> ([(''dispatched'', PBool True), (''ok'', PBool False), (''error'', PStr (take 200 e))],
            record_status h now (Some (take 200 e)) st, Some (queue_post h (build_queue_upsert h now a)))))"

section \<open>Scheduling\<close>

record outcome_ctx =
  oc_trace :: string
  oc_tenant :: string
  oc_entity :: string
  oc_event :: string
  oc_decision :: string
  oc_score :: pyfloat
  oc_tags :: "string list"
  oc_rule_hits :: "string list"
  oc_signal_tags :: "string list"
  oc_ml_score :: "pyfloat option"
  oc_payload :: dict
  oc_recommended :: "string option"
  oc_pack_hash :: string
  oc_challenge :: "dict option"
  oc_fallback :: "string option"
  oc_log_record :: "dict option"
  oc_degrade_tags :: "string list"
  oc_metadata :: "dict option"
  oc_shadow_request :: bool

record outcome_config =
  of_case_url :: string
  of_case_create :: bool
  of_flag_mints :: bool
  of_case_token :: string
  of_headers :: "(string \<times> string) list"
  of_graph_upsert :: bool
  of_shadow_evaluation :: bool

datatype outcome_task =
    Emit_Log dict
  | Graph_Upsert
  | Dispatch_Challenge "string option" "dict option"
  | Apply_Enforcement enforcement_request
  | Broadcast dict
  | Publish dict
  | Shadow_Evaluation
  | Queue_Upsert
  | Create_Case "(string \<times> string) list"
  | Payout_Hold
  | Promo_Redemption
  | Seller_Integrity

definition is_word_char :: "char \<Rightarrow> bool" where
  "is_word_char c = (let n = (of_char c :: nat) in
     (97 \<le> n \<and> n \<le> 122) \<or> (65 \<le> n \<and> n \<le> 90) \<or> (48 \<le> n \<and> n \<le> 57) \<or> n = 95)"

text \<open>\<open>re.sub(r"[^a-zA-Z0-9_]+", "_", s)\<close>; the flag says that the last character was replaced.\<close>

fun sub_nonword :: "bool \<Rightarrow> string \<Rightarrow> string" where
  "sub_nonword inside [] = []"
| "sub_nonword inside (c # s) = (if is_word_char c then c # sub_nonword False s
     else if inside then sub_nonword True s else CHR ''_'' # sub_nonword True s)"

definition reason_key :: "string \<Rightarrow> string" where
  "reason_key s = (let t = sub_nonword False s; u = dropWhile (\<lambda>c. c = CHR ''_'') t
     in take 64 (lower (rev (dropWhile (\<lambda>c. c = CHR ''_'') (rev u)))))"

text \<open>The counters, and whether the function returns; a callback that refuses the keyword is called without it.\<close>

definition emit_decision_metrics :: "metrics_api \<Rightarrow> outcome_ctx \<Rightarrow> string list \<times> bool" where
  "emit_decision_metrics m c = (let first = [''fraud_decisions_'' @ oc_decision c @ ''_total'', ''fraud_evaluations_total''] in
     case m of
       WithTrace \<Rightarrow> (first @ (case oc_fallback c of None \<Rightarrow> [] | Some r \<Rightarrow> if r = [] then []
           else ''fraud_fallback_total'' # (if reason_key r = [] then [] else [''fraud_fallback_total_'' @ reason_key r])) @
         map (\<lambda>st. ''fraud_signal_tag_'' @ st @ ''_total'') (oc_signal_tags c), True)
     | WithoutTrace \<Rightarrow> (first, True)
     | _ \<Rightarrow> ([], False))"

definition mint_decisions :: "outcome_config \<Rightarrow> string list" where
  "mint_decisions f = (if of_flag_mints f then [''deny'', ''review'', ''flag''] else [''deny'', ''review''])"

definition case_headers :: "outcome_config \<Rightarrow> (string \<times> string) list" where
  "case_headers f = (if of_case_token f = [] then of_headers f
     else AList.update ''X-Internal-Token'' (of_case_token f) (of_headers f))"

definition enforcement_args :: "outcome_ctx \<Rightarrow> enforcement_request" where
  "enforcement_args c = \<lparr>er_trace = oc_trace c, er_tenant = oc_tenant c, er_entity = oc_entity c, er_event = oc_event c,
     er_decision = oc_decision c, er_score = oc_score c, er_tags = oc_tags c, er_recommended = oc_recommended c,
     er_challenge = oc_challenge c, er_pack_hash = oc_pack_hash c\<rparr>"

definition broadcast_message :: "outcome_ctx \<Rightarrow> dict" where
  "broadcast_message c = [(''trace_id'', PStr (oc_trace c)), (''tenant_id'', PStr (oc_tenant c)), (''entity_id'', PStr (oc_entity c)),
     (''event_type'', PStr (oc_event c)), (''decision'', PStr (oc_decision c)), (''score'', PFloat (oc_score c)),
     (''tags'', PList (map PStr (oc_tags c))),
     (''enforcement_action'', PStr (action_name (resolve_enforcement_action (oc_decision c) (oc_recommended c))))]"

definition publish_message :: "string \<Rightarrow> outcome_ctx \<Rightarrow> dict" where
  "publish_message now c = [(''trace_id'', PStr (oc_trace c)), (''tenant_id'', PStr (oc_tenant c)), (''entity_id'', PStr (oc_entity c)),
     (''event_type'', PStr (oc_event c)), (''decision'', PStr (oc_decision c)), (''score'', PFloat (oc_score c)),
     (''tags'', PList (map PStr (oc_tags c))), (''rule_hits'', PList (map PStr (oc_rule_hits c))),
     (''signal_tags'', PList (map PStr (oc_signal_tags c))),
     (''ml_score'', case oc_ml_score c of None \<Rightarrow> PNone | Some f \<Rightarrow> PFloat f), (''payload'', PDict (oc_payload c)),
     (''enforcement_action'', PStr (action_name (resolve_enforcement_action (oc_decision c) (oc_recommended c)))),
     (''recommended_action'', opt_pstr (oc_recommended c)), (''created_at'', PStr now)]"

definition meta_dict :: "outcome_ctx \<Rightarrow> dict" where
  "meta_dict c = (case oc_metadata c of None \<Rightarrow> [] | Some m \<Rightarrow> m)"

definition first_tasks :: "outcome_config \<Rightarrow> outcome_ctx \<Rightarrow> outcome_task list" where
  "first_tasks f c = (case oc_log_record c of None \<Rightarrow> [] | Some r \<Rightarrow> [Emit_Log r]) @
     (if \<not> oc_shadow_request c \<and> of_graph_upsert f then [Graph_Upsert] else []) @
     (if \<not> oc_shadow_request c then [Dispatch_Challenge (oc_recommended c) (oc_challenge c)] else [])"

definition later_tasks :: "outcome_config \<Rightarrow> string \<Rightarrow> outcome_ctx \<Rightarrow> outcome_task list" where
  "later_tasks f now c = (let live = \<not> oc_shadow_request c; mint = oc_decision c \<in> set (mint_decisions f); meta = meta_dict c in
     (if live then [Apply_Enforcement (enforcement_args c)] else []) @
     [Broadcast (broadcast_message c), Publish (publish_message now c)] @
     (if of_shadow_evaluation f then [Shadow_Evaluation] else []) @
     (if live \<and> mint then [Queue_Upsert] else []) @
     (if live \<and> of_case_create f \<and> mint then [Create_Case (case_headers f)] else []) @
     (if live \<and> should_create_payout_hold meta (oc_tags c) (oc_event c) then [Payout_Hold] else []) @
     (if live \<and> should_record_promo_redemption meta (oc_tags c) (oc_event c) then [Promo_Redemption] else []) @
     (if live \<and> should_record_seller_integrity meta (oc_event c) then [Seller_Integrity] else []))"

text \<open>The tasks added in order, the counters, and whether the call returned.\<close>

definition schedule_decision_outcomes ::
  "outcome_config \<Rightarrow> metrics_api \<Rightarrow> string \<Rightarrow> outcome_ctx \<Rightarrow> outcome_task list \<times> string list \<times> bool" where
  "schedule_decision_outcomes f m now c = (case emit_decision_metrics m c of (ms, ok) \<Rightarrow>
     if \<not> ok then (first_tasks f c, ms, False)
     else (first_tasks f c @ later_tasks f now c, ms @ snd (record_degraded_decision_metrics m (oc_degrade_tags c)), True))"

section \<open>What the tasks send\<close>

definition queue_task_args :: "host \<Rightarrow> outcome_ctx \<Rightarrow> queue_args" where
  "queue_task_args h c = \<lparr>qa_tenant = oc_tenant c, qa_leftover = oc_trace c, qa_trace = oc_trace c, qa_entity = oc_entity c,
     qa_action = oc_decision c, qa_why = join_str '','' (take 6 (oc_tags c)), qa_token = oc_trace c,
     qa_flag = (if oc_decision c = ''flag'' then oc_trace c else []), qa_mode = enforcement_mode h\<rparr>"

definition case_labels :: "outcome_ctx \<Rightarrow> string list" where
  "case_labels c = ''origin:evaluate'' # concat (map (\<lambda>hit. let token = strip hit in
     if token = [] then [] else [''hit:'' @ take 80 token]) (take 12 (oc_rule_hits c)))"

text \<open>The post that creates a case; what the case API answers is only logged.\<close>

definition maybe_create_case_for_outcome :: "string \<Rightarrow> outcome_ctx \<Rightarrow> (string \<times> dict) option" where
  "maybe_create_case_for_outcome case_api_url c = (let base = rstrip_slash (strip case_api_url) in
     if base = [] then None
     else Some (base @ ''/v1/cases'',
       [(''tenant_id'', PStr (oc_tenant c)),
        (''title'', PStr (''Auto: '' @ oc_decision c @ '' '' @ oc_event c @ '' '' @ oc_entity c)), (''entity_id'', PStr (oc_entity c)),
        (''trace_id'', PStr (oc_trace c)), (''priority'', PStr (if oc_decision c = ''deny'' then ''high'' else ''medium'')),
        (''labels'', PList (map PStr (case_labels c))), (''last_outcome'', PStr (oc_decision c))]))"

definition log_doomed_auto_case_config :: "outcome_config \<Rightarrow> bool" where
  "log_doomed_auto_case_config f = (of_case_create f \<and> strip (of_case_url f) \<noteq> [] \<and> strip (of_case_token f) = [])"

text \<open>The graph client is a parameter: whether its URL is set and whether the write succeeds.\<close>

definition try_record_evaluate_decision_graph :: "bool \<Rightarrow> (outcome_ctx \<Rightarrow> bool) \<Rightarrow> outcome_ctx \<Rightarrow> bool" where
  "try_record_evaluate_decision_graph configured record_decision c =
     (if oc_shadow_request c then True else if \<not> configured then True else record_decision c)"

text \<open>A task that raises is logged and counted under its name.\<close>

definition wrap_outcome_task :: "string \<Rightarrow> (pyerr + 'a) \<Rightarrow> 'a option \<times> string list" where
  "wrap_outcome_task name r = (case r of Inl _ \<Rightarrow> (None, [''tarka_decision_outcome_failed_'' @ name @ ''_total'']) | Inr x \<Rightarrow> (Some x, []))"

definition evaluated_of :: "outcome_ctx \<Rightarrow> evaluated" where
  "evaluated_of c = \<lparr>ev_tenant = oc_tenant c, ev_entity = oc_entity c, ev_event = oc_event c, ev_trace = oc_trace c,
     ev_tags = oc_tags c, ev_meta = meta_dict c, ev_payload = oc_payload c\<rparr>"

section \<open>What a bridge promises\<close>

text \<open>
  A bridge posts only when its own condition holds and the ingress is configured, with the internal token and for the
  tenant of the evaluation; it counts a failure only for a post.
\<close>

locale evaluate_bridge =
  fixes should :: "evaluated \<Rightarrow> bool"
    and run :: "string \<Rightarrow> string \<Rightarrow> bool \<Rightarrow> evaluated \<Rightarrow> (bridge_post option \<times> string list) res"
    and path :: string
  assumes off: "\<not> should e \<Longrightarrow> run u t ok e = Inr (None, [])"
    and silent: "run u t ok e = Inr (None, ms) \<Longrightarrow> ms = []"
    and posted: "run u t ok e = Inr (Some p, ms) \<Longrightarrow> strip u \<noteq> [] \<and> strip t \<noteq> [] \<and>
      bp_url p = rstrip_slash (strip u) @ path \<and> bp_token p = strip t \<and> dget (bp_body p) ''tenant_id'' = PStr (ev_tenant e)"
begin

lemma post_scoped:
  assumes "run u t ok e = Inr (Some p, ms)"
  shows "should e \<and> bp_token p = strip t \<and> dget (bp_body p) ''tenant_id'' = PStr (ev_tenant e)"
  using posted [OF assms] off [of e u t ok] assms by fastforce

lemma counts_only_posts:
  assumes "run u t ok e = Inr (q, ms)" and "ms \<noteq> []"
  shows "\<exists>p. q = Some p"
  using silent assms by (cases q) auto

end

lemma post_built_Inr:
  assumes "post_built path counter u t ok built = Inr (Some p, ms)"
  shows "\<exists>body. built = Inr body \<and> strip u \<noteq> [] \<and> strip t \<noteq> [] \<and>
    p = \<lparr>bp_url = rstrip_slash (strip u) @ path, bp_token = strip t, bp_body = body\<rparr>"
  using assms by (auto simp: post_built_def ingress_post_def split: sum.splits pyerr.splits if_splits)

lemma post_built_silent: "post_built path counter u t ok built = Inr (None, ms) \<Longrightarrow> ms = []"
  by (auto simp: post_built_def ingress_post_def split: sum.splits pyerr.splits if_splits)

lemma copy_float_keeps: "copy_float meta key body = Inr b \<Longrightarrow> k \<noteq> key \<Longrightarrow> dget b k = dget body k"
  by (auto simp: copy_float_def split: if_splits sum.splits pyerr.splits)

lemma copy_text_keeps: "k \<noteq> key \<Longrightarrow> dget (copy_text meta key body) k = dget body k"
  by (simp add: copy_text_def split: pyval.splits)

lemma build_hold_tenant: "build_hold_payload e = Inr b \<Longrightarrow> dget b ''tenant_id'' = PStr (ev_tenant e)"
  by (auto simp: build_hold_payload_def Let_def copy_text_keeps dest!: copy_float_keeps [of _ _ _ _ "''tenant_id''"]
      split: if_splits prod.splits sum.splits)

lemma build_promo_tenant: "build_promo_payload e = Inr b \<Longrightarrow> dget b ''tenant_id'' = PStr (ev_tenant e)"
  by (auto simp: build_promo_payload_def Let_def copy_text_keeps dest!: copy_float_keeps [of _ _ _ _ "''tenant_id''"]
      split: if_splits sum.splits)

lemma build_seller_tenant: "build_seller_payload e = Inr b \<Longrightarrow> dget b ''tenant_id'' = PStr (ev_tenant e)"
  by (auto simp: build_seller_payload_def Let_def copy_text_keeps dest!: copy_float_keeps [of _ _ _ _ "''tenant_id''"]
      split: if_splits sum.splits)

interpretation hold: evaluate_bridge "\<lambda>e. should_create_payout_hold (ev_meta e) (ev_tags e) (ev_event e)"
  maybe_create_payout_hold_from_evaluate "''/v1/internal/marketplace/payout-holds''"
  by unfold_locales
    (auto simp: maybe_create_payout_hold_from_evaluate_def build_hold_tenant dest!: post_built_Inr post_built_silent split: if_splits)

interpretation promo: evaluate_bridge "\<lambda>e. should_record_promo_redemption (ev_meta e) (ev_tags e) (ev_event e)"
  maybe_record_promo_redemption_from_evaluate "''/v1/internal/marketplace/promo-redemptions''"
  by unfold_locales
    (auto simp: maybe_record_promo_redemption_from_evaluate_def build_promo_tenant dest!: post_built_Inr post_built_silent split: if_splits)

interpretation seller: evaluate_bridge "\<lambda>e. should_record_seller_integrity (ev_meta e) (ev_event e)"
  maybe_record_seller_integrity_from_evaluate "''/v1/internal/marketplace/seller-integrity''"
  by unfold_locales
    (auto simp: maybe_record_seller_integrity_from_evaluate_def build_seller_tenant dest!: post_built_Inr post_built_silent split: if_splits)

section \<open>Properties\<close>

text \<open>Tasks that change something outside the decision API.\<close>

fun mutating :: "outcome_task \<Rightarrow> bool" where
  "mutating (Emit_Log _) = False"
| "mutating (Broadcast _) = False"
| "mutating (Publish _) = False"
| "mutating Shadow_Evaluation = False"
| "mutating _ = True"

fun bridge_run :: "outcome_task \<Rightarrow> string \<Rightarrow> string \<Rightarrow> bool \<Rightarrow> evaluated \<Rightarrow> (bridge_post option \<times> string list) res" where
  "bridge_run Payout_Hold = maybe_create_payout_hold_from_evaluate"
| "bridge_run Promo_Redemption = maybe_record_promo_redemption_from_evaluate"
| "bridge_run Seller_Integrity = maybe_record_seller_integrity_from_evaluate"
| "bridge_run _ = (\<lambda>_ _ _ _. Inr (None, []))"

lemma bridge_post_condition:
  assumes "bridge_run b u t ok (evaluated_of c) = Inr (Some p, ms)"
  shows "bp_token p = strip t \<and> dget (bp_body p) ''tenant_id'' = PStr (oc_tenant c) \<and>
    (\<not> oc_shadow_request c \<longrightarrow> b \<in> set (later_tasks f now c))"
  using assms
proof (cases b)
  case Payout_Hold
  then show ?thesis using hold.post_scoped [of u t ok "evaluated_of c" p ms] assms
    by (simp add: evaluated_of_def later_tasks_def Let_def)
next
  case Promo_Redemption
  then show ?thesis using promo.post_scoped [of u t ok "evaluated_of c" p ms] assms
    by (simp add: evaluated_of_def later_tasks_def Let_def)
next
  case Seller_Integrity
  then show ?thesis using seller.post_scoped [of u t ok "evaluated_of c" p ms] assms
    by (simp add: evaluated_of_def later_tasks_def Let_def)
qed simp_all

lemma schedule_returned:
  "schedule_decision_outcomes f m now c = (ts, ms, True) \<Longrightarrow> ts = first_tasks f c @ later_tasks f now c"
  by (auto simp: schedule_decision_outcomes_def split: prod.splits if_splits)


definition example_ctx :: outcome_ctx where
  "example_ctx = \<lparr>oc_trace = ''t1'', oc_tenant = ''acme'', oc_entity = ''e1'', oc_event = ''payout'', oc_decision = ''deny'', oc_score = Fin 90,
     oc_tags = [''action:payout_hold''], oc_rule_hits = [''r1''], oc_signal_tags = [], oc_ml_score = None, oc_payload = [],
     oc_recommended = None, oc_pack_hash = [], oc_challenge = None, oc_fallback = None, oc_log_record = None,
     oc_degrade_tags = [''ml:unavailable''], oc_metadata = Some [(''payout_id'', PStr ''p9'')], oc_shadow_request = False\<rparr>"

definition example_config :: outcome_config where
  "example_config = \<lparr>of_case_url = ''http://case'', of_case_create = True, of_flag_mints = False, of_case_token = ''k'', of_headers = [],
     of_graph_upsert = True, of_shadow_evaluation = False\<rparr>"


end
