(* ===== verification/Product_Ack.thy ===== *)
theory Product_Ack
  imports Enforcement
begin

text \<open>
  \<open>src/services/decision-api/src/decision_api/product_ack.py\<close>: the inbound product
  acknowledgement of a delivery, its signature check, the append-only file of accepted
  acknowledgements and the delivery query they are laid over.

  The file has the form of the delivery journal.  A request carries its raw body, the
  \<open>json.loads\<close> value of the body (\<open>None\<close> when it does not decode) and the signature
  header.  The look-up in the audit database is a parameter.
\<close>

section \<open>Signatures\<close>

definition ack_secret :: "host \<Rightarrow> string" where
  "ack_secret h = (case env_set h ''TARKA_ENFORCEMENT_WEBHOOK_SECRET'' of Some s \<Rightarrow> s
     | None \<Rightarrow> hook_secret h ''enforcement'')"

definition verify_tarka_signature :: "nat list \<Rightarrow> string \<Rightarrow> string option \<Rightarrow> bool res" where
  "verify_tarka_signature raw secret header_sig =
     (if secret = [] then Inr True
      else if opt_str header_sig = [] then Inr False
      else compare_digest (hmac_sha256_hex secret raw) (strip (opt_str header_sig)))"

section \<open>Known traces\<close>

definition journal_has_trace :: "journal \<Rightarrow> string \<Rightarrow> string \<Rightarrow> bool" where
  "journal_has_trace j trace_id tenant_id = list_ex (\<lambda>row.
     str_or_empty (dget row ''trace_id'') = trace_id \<and> str_or_empty (dget row ''tenant_id'') = tenant_id)
     (journal_rows j)"

type_synonym audit_lookup = "string \<Rightarrow> string \<Rightarrow> bool"

definition known_trace :: "audit_lookup \<Rightarrow> journal \<Rightarrow> string \<Rightarrow> string \<Rightarrow> bool" where
  "known_trace audit j trace_id tenant_id = (let tid = strip trace_id; ten = strip tenant_id in
     if tid = [] \<or> ten = [] then False
     else journal_has_trace j tid ten \<or> audit tid ten)"

section \<open>The acknowledgements\<close>

definition load_acks :: "journal \<Rightarrow> dict list" where
  "load_acks acks = journal_rows acks"

definition query_product_acks :: "journal \<Rightarrow> string \<Rightarrow> string \<Rightarrow> string option \<Rightarrow> dict list" where
  "query_product_acks acks trace_id tenant_id action_id =
     (let tid = strip trace_id; ten = strip tenant_id; aid = strip (opt_str action_id) in
      if tid = [] \<or> ten = [] then []
      else filter (\<lambda>row. str_or_empty (dget row ''trace_id'') = tid \<and>
          str_or_empty (dget row ''actor'') = ten \<and>
          (aid = [] \<or> str_or_empty (dget row ''action_id'') = aid)) (load_acks acks))"

definition ack_fields :: "string list" where
  "ack_fields = [''trace_id'', ''action_id'', ''status'', ''ts'', ''actor'']"

definition is_hex_char :: "char \<Rightarrow> bool" where
  "is_hex_char c = (c \<in> set ''0123456789abcdefABCDEF'')"

definition hex64_token :: "string \<Rightarrow> bool" where
  "hex64_token s = (length s = 64 \<and> list_all is_hex_char s)"

definition field_text :: "dict \<Rightarrow> string \<Rightarrow> string" where
  "field_text payload k = strip (str_or_empty (dget payload k))"

datatype ack_error = AckRefused string int dict | AckWriteFailed

definition ack_record :: "string \<Rightarrow> dict \<Rightarrow> dict" where
  "ack_record now payload =
     [(''schema_id'', PStr ''tarka.product_ack/v1''),
      (''trace_id'', PStr (strip (py_str (dget payload ''trace_id'')))),
      (''action_id'', PStr (lower (field_text payload ''action_id''))),
      (''status'', PStr (strip (py_str (dget payload ''status'')))),
      (''ts'', PStr (let ts = strip (py_str (dget payload ''ts'')) in if ts = [] then now else ts)),
      (''actor'', PStr (strip (py_str (dget payload ''actor''))))]"

definition missing_fields :: "dict \<Rightarrow> string list" where
  "missing_fields payload = filter (\<lambda>k. k \<noteq> ''action_id'' \<and> field_text payload k = []) ack_fields"

definition accept_product_ack ::
  "audit_lookup \<Rightarrow> string \<Rightarrow> journal \<Rightarrow> pyval \<Rightarrow> journal \<Rightarrow> (ack_error + dict) \<times> journal" where
  "accept_product_ack audit now j v acks = (case v of
      PDict payload \<Rightarrow>
        let action_id = field_text payload ''action_id'' in
        if \<not> hex64_token action_id then
          (Inl (AckRefused ''malformed_action_id'' 400 [(''action_id'', PStr action_id)]), acks)
        else if missing_fields payload \<noteq> [] then
          (Inl (AckRefused ''malformed_ack'' 400 [(''fields'', PList (map PStr (missing_fields payload)))]), acks)
        else let trace_id = strip (py_str (dget payload ''trace_id''));
                 actor = strip (py_str (dget payload ''actor'')) in
        if \<not> known_trace audit j trace_id actor then
          (Inl (AckRefused ''unknown_trace'' 404 [(''trace_id'', PStr trace_id)]), acks)
        else if \<not> jwritable acks then (Inl AckWriteFailed, acks)
        else (Inr (ack_record now payload), append_enforcement_journal (ack_record now payload) acks)
    | _ \<Rightarrow> (Inl (AckRefused ''malformed_ack'' 400 []), acks))"

section \<open>Routes\<close>

datatype http_reply = Reply dict | HttpError int dict | Unhandled "pyerr option"

record ack_request =
  ar_body :: "nat list"
  ar_json :: "pyval option"
  ar_signature :: "string option"

definition http_error :: "ack_error \<Rightarrow> http_reply" where
  "http_error e = (case e of AckRefused err code extra \<Rightarrow> HttpError code ((''error'', PStr err) # extra)
     | AckWriteFailed \<Rightarrow> Unhandled None)"

definition handle_ack_body ::
  "audit_lookup \<Rightarrow> string \<Rightarrow> journal \<Rightarrow> ack_request \<Rightarrow> journal \<Rightarrow> http_reply \<times> journal" where
  "handle_ack_body audit now j req acks = (case ar_json req of
      Some (PDict payload) \<Rightarrow> (case accept_product_ack audit now j (PDict payload) acks of
          (Inl e, acks') \<Rightarrow> (http_error e, acks')
        | (Inr rec, acks') \<Rightarrow> (Reply rec, acks'))
    | _ \<Rightarrow> (HttpError 400 [(''error'', PStr ''malformed_ack'')], acks))"

definition post_product_ack ::
  "host \<Rightarrow> audit_lookup \<Rightarrow> string \<Rightarrow> journal \<Rightarrow> ack_request \<Rightarrow> journal \<Rightarrow> http_reply \<times> journal" where
  "post_product_ack h audit now j req acks =
     (if ack_secret h = [] then handle_ack_body audit now j req acks
      else (case verify_tarka_signature (ar_body req) (ack_secret h) (ar_signature req) of
          Inl e \<Rightarrow> (Unhandled (Some e), acks)
        | Inr False \<Rightarrow> (HttpError 401 [(''error'', PStr ''bad_signature'')], acks)
        | Inr True \<Rightarrow> handle_ack_body audit now j req acks))"

definition get_product_acks :: "journal \<Rightarrow> string \<Rightarrow> string \<Rightarrow> string option \<Rightarrow> dict" where
  "get_product_acks acks trace_id tenant_id action_id =
     [(''schema_id'', PStr ''tarka.product_ack_list/v1''),
      (''items'', PList (map PDict (query_product_acks acks trace_id tenant_id action_id)))]"

definition acks_of_row :: "journal \<Rightarrow> dict \<Rightarrow> dict list" where
  "acks_of_row acks row = query_product_acks acks (str_or_empty (dget row ''trace_id''))
     (str_or_empty (dget row ''tenant_id'')) (Some (str_or_empty (dget row ''action_id'')))"

definition overlay_product_ack :: "journal \<Rightarrow> dict \<Rightarrow> dict" where
  "overlay_product_ack acks row = (let as = acks_of_row acks row in
     if as = [] then row
     else let row' = dset ''last_status'' (PStr ''acked'') row;
              ts = strip (str_or_empty (dget (last as) ''ts''))
          in if ts = [] then row' else dset ''acked_at'' (PStr ts) row')"

definition get_enforcement_deliveries ::
  "journal \<Rightarrow> journal \<Rightarrow> string \<Rightarrow> string \<Rightarrow> string option \<Rightarrow> string option \<Rightarrow> dict list res" where
  "get_enforcement_deliveries j acks trace_id tenant_id action_id status =
     (case query_enforcement_deliveries j trace_id tenant_id action_id None of Inl e \<Rightarrow> Inl e
      | Inr rows \<Rightarrow> let laid = map (overlay_product_ack acks) rows; want = lower (strip (opt_str status)) in
          Inr (if want = [] then laid else filter (\<lambda>row. dget row ''last_status'' = PStr want) laid))"

section \<open>Lemmas\<close>

interpretation pa: append_log append_enforcement_journal load_acks journal_usable "sort_key fst"
  unfolding load_acks_def by (rule ej.append_log_axioms)

lemma ack_secret_eq: "ack_secret h = hook_secret h ''enforcement''"
  by (simp add: ack_secret_def hook_secret_def hook_secret_env_def split: option.split)

lemma hex64_ascii: "is_hex64 s \<Longrightarrow> c \<in> set s \<Longrightarrow> (of_char c :: nat) < 128"
proof -
  have "\<forall>c \<in> set ''0123456789abcdef''. (of_char c :: nat) < 128" by code_simp
  then show "is_hex64 s \<Longrightarrow> c \<in> set s \<Longrightarrow> ?thesis" by (auto simp: is_hex64_def hex_chars_def)
qed

lemma verify_iff:
  assumes "secret \<noteq> []"
  shows "verify_tarka_signature raw secret (Some sig) = Inr True \<longleftrightarrow> strip sig = sign_body raw secret"
proof -
  let ?x = "hmac_sha256_hex secret raw"
  have hex: "is_hex64 ?x" by (rule hmac_sha256_hex_is_hex64)
  have ascii: "\<not> (\<exists>c \<in> set (?x @ ?x). (of_char c :: nat) \<ge> 128)" using hex64_ascii [OF hex] by (auto simp: not_le)
  show ?thesis
  proof (cases "strip sig = ?x")
    case True
    then have "sig \<noteq> []" using hex64_not_Nil [OF hex] by auto
    then show ?thesis using assms True ascii
      by (simp add: verify_tarka_signature_def compare_digest_def opt_str_def sign_body_def)
  next
    case False
    then show ?thesis using assms
      by (auto simp: verify_tarka_signature_def compare_digest_def opt_str_def sign_body_def)
  qed
qed

lemma field_text_py_str: "field_text p k \<noteq> [] \<Longrightarrow> strip (py_str (dget p k)) = field_text p k"
  by (auto simp: field_text_def str_or_empty_def split: if_splits)

lemma missing_fields_Nil: "missing_fields p = [] \<longleftrightarrow>
    field_text p ''trace_id'' \<noteq> [] \<and> field_text p ''status'' \<noteq> [] \<and> field_text p ''ts'' \<noteq> [] \<and> field_text p ''actor'' \<noteq> []"
  by (simp add: missing_fields_def ack_fields_def)

lemma accept_product_ack_iff:
  "accept_product_ack audit now j v acks = (Inr rec, acks') \<longleftrightarrow>
     (\<exists>p. v = PDict p \<and> hex64_token (field_text p ''action_id'') \<and> missing_fields p = [] \<and>
        known_trace audit j (field_text p ''trace_id'') (field_text p ''actor'') \<and> jwritable acks \<and>
        rec = ack_record now p \<and> acks' = append_enforcement_journal rec acks)"
proof (cases v)
  case (PDict p)
  have "strip (py_str (dget p k)) = field_text p k" if "missing_fields p = []" "k \<in> {''trace_id'', ''actor''}" for k
    using that by (auto simp: missing_fields_Nil field_text_py_str)
  then show ?thesis using PDict by (auto simp: accept_product_ack_def Let_def)
qed (simp_all add: accept_product_ack_def)

lemma accept_refused_unchanged:
  "accept_product_ack audit now j v acks = (Inl e, acks') \<Longrightarrow> acks' = acks"
  by (auto simp: accept_product_ack_def Let_def split: pyval.splits if_splits)

lemma ack_record_fields:
  assumes "missing_fields p = []"
  shows "dget (sort_key fst (ack_record now p)) ''trace_id'' = PStr (field_text p ''trace_id'')"
    and "dget (sort_key fst (ack_record now p)) ''actor'' = PStr (field_text p ''actor'')"
    and "dget (sort_key fst (ack_record now p)) ''action_id'' = PStr (lower (field_text p ''action_id''))"
    and "dget (sort_key fst (ack_record now p)) ''ts'' = PStr (field_text p ''ts'')"
proof -
  have d: "distinct (map fst (ack_record now p))" by (simp add: ack_record_def Let_def)
  note f = assms [unfolded missing_fields_Nil]
  show "dget (sort_key fst (ack_record now p)) ''trace_id'' = PStr (field_text p ''trace_id'')"
    "dget (sort_key fst (ack_record now p)) ''actor'' = PStr (field_text p ''actor'')"
    "dget (sort_key fst (ack_record now p)) ''action_id'' = PStr (lower (field_text p ''action_id''))"
    "dget (sort_key fst (ack_record now p)) ''ts'' = PStr (field_text p ''ts'')"
    unfolding dget_sorted [OF d] using f by (simp_all add: ack_record_def Let_def field_text_py_str)
qed

lemma overlay_fields:
  "k \<notin> {''last_status'', ''acked_at''} \<Longrightarrow> dget (overlay_product_ack acks row) k = dget row k"
  by (simp add: overlay_product_ack_def Let_def)

lemma overlay_status:
  "dget (overlay_product_ack acks row) ''last_status'' =
     (if acks_of_row acks row = [] then dget row ''last_status'' else PStr ''acked'')"
  by (simp add: overlay_product_ack_def Let_def)

lemma journal_has_trace_after_delivery:
  assumes url: "hook_url h ''enforcement'' \<noteq> []" and ok: "journal_usable j"
  shows "journal_has_trace (ds_journal (apply_enforcement_adapters h m http clock r j)) (er_trace r) (er_tenant r)"
proof -
  let ?n = "attempts_made http" and ?c = "delivery_ctx_of h http clock r"
  have "journal_rows (ds_journal (apply_enforcement_adapters h m http clock r j)) =
      journal_rows j @ map (seen_row ?c ?n) [1..<Suc ?n]"
    unfolding apply_webhook [OF url] stored_attempt_rows [OF attempts_made_bounds(1), symmetric]
    by (simp add: ej.rows_fold [OF ok])
  then have "seen_row ?c ?n ?n \<in> set (journal_rows (ds_journal (apply_enforcement_adapters h m http clock r j)))"
    using attempts_made_bounds(1) [of http] by simp
  then show ?thesis unfolding journal_has_trace_def list_ex_iff by (auto simp: seen_row_facts intro!: bexI)
qed

section \<open>Properties\<close>

text \<open>
  The two directions of the webhook sign alike.  When a secret is configured, the signature
  header of an outgoing delivery verifies under the secret the inbound route uses, and a header
  verifies for a body exactly when it is, up to surrounding blanks, the HMAC-SHA256 of that body.
\<close>

theorem signature_roundtrip:
  assumes "hook_secret h ''enforcement'' \<noteq> []"
  shows "(\<exists>sig. map_of (sp_headers (webhook_post h r)) ''x-tarka-signature'' = Some sig \<and>
       verify_tarka_signature (sp_body (webhook_post h r)) (ack_secret h) (Some sig) = Inr True) \<and>
     (verify_tarka_signature raw (ack_secret h) (Some hdr) = Inr True \<longleftrightarrow>
       strip hdr = hmac_sha256_hex (hook_secret h ''enforcement'') raw)"
proof -
  let ?s = "hook_secret h ''enforcement''"
  have "map_of (sp_headers (webhook_post h r)) ''x-tarka-signature'' = Some (sign_body (sp_body (webhook_post h r)) ?s)"
    using assms by (simp add: webhook_post_def Let_def)
  moreover have "strip (sign_body raw' ?s) = sign_body raw' ?s" for raw'
    by (simp add: sign_body_def hex64_strip hmac_sha256_hex_is_hex64)
  ultimately show ?thesis using verify_iff [OF assms] by (simp add: ack_secret_eq sign_body_def)
qed

theorem signature_roundtrip_witness:
  "hook_secret demo_host ''enforcement'' = ''s3cret'' \<and>
   verify_tarka_signature [123, 125] (ack_secret demo_host) (Some ''forged'') \<noteq> Inr True"
proof -
  have "hook_secret demo_host ''enforcement'' \<noteq> []" by (simp add: demo_facts)
  note sr = signature_roundtrip [OF this, where raw = "[123, 125]" and hdr = "''forged''"]
  have "length (strip ''forged'') = 6" by code_simp
  moreover have "length (hmac_sha256_hex key msg) = 64" for key msg
    using hmac_sha256_hex_is_hex64 [of key msg] by (simp add: is_hex64_def)
  ultimately have "strip ''forged'' \<noteq> hmac_sha256_hex key msg" for key msg
    by (auto dest: arg_cong [where f = length])
  with sr show ?thesis by (simp add: demo_facts)
qed

text \<open>
  A signature header with a character outside ASCII is not answered with 401.  When a secret
  is configured, such a header (the stripped value counts) makes the digest comparison raise
  \<open>TypeError\<close>, which the route does not handle.
\<close>

theorem non_ascii_signature_unhandled:
  assumes "hook_secret h ''enforcement'' \<noteq> []" and "ar_signature req = Some hdr"
    and "c \<in> set (strip hdr)" and "(of_char c :: nat) \<ge> 128"
  shows "post_product_ack h audit now j req acks = (Unhandled (Some TypeError), acks)"
proof -
  have "hdr \<noteq> []" using assms(3) by auto
  moreover have "\<exists>c \<in> set (hmac_sha256_hex (ack_secret h) (ar_body req) @ strip hdr). (of_char c :: nat) \<ge> 128"
    using assms(3, 4) by auto
  ultimately have "verify_tarka_signature (ar_body req) (ack_secret h) (ar_signature req) = Inl TypeError"
    using assms(1, 2) by (simp add: verify_tarka_signature_def compare_digest_def opt_str_def ack_secret_eq)
  then show ?thesis using assms(1) by (simp add: post_product_ack_def ack_secret_eq)
qed

theorem non_ascii_signature_unhandled_witness:
  "post_product_ack demo_host (\<lambda>_ _. True) ''now'' no_journal
     \<lparr>ar_body = [123, 125], ar_json = Some (PDict []), ar_signature = Some [CHR 0xE9]\<rparr> no_journal
   = (Unhandled (Some TypeError), no_journal)"
proof -
  have "hook_secret demo_host ''enforcement'' \<noteq> []" by (simp add: demo_facts)
  moreover have "strip [CHR 0xE9] = [CHR 0xE9]" by code_simp
  moreover have "(of_char CHR 0xE9 :: nat) \<ge> 128" by code_simp
  ultimately show ?thesis
    by (intro non_ascii_signature_unhandled [where hdr = "[CHR 0xE9]" and c = "CHR 0xE9"]) simp_all
qed

text \<open>
  An acknowledgement is recorded exactly when it is well formed and its trace is known to the
  tenant that sends it: an object with a 64-digit hexadecimal action id and non-blank trace,
  status, time and actor, for a trace of that actor in the journal or the audit store, on a
  writable file.  Every other payload is refused and leaves the file as it is; an accepted one
  is returned as the record that is appended.
\<close>

theorem accept_product_ack_exact:
  "((\<exists>rec. fst (accept_product_ack audit now j v acks) = Inr rec) \<longleftrightarrow>
     (\<exists>p. v = PDict p \<and> hex64_token (field_text p ''action_id'') \<and>
        list_all (\<lambda>k. field_text p k \<noteq> []) [''trace_id'', ''status'', ''ts'', ''actor''] \<and>
        known_trace audit j (field_text p ''trace_id'') (field_text p ''actor'') \<and> jwritable acks)) \<and>
   snd (accept_product_ack audit now j v acks) = (case fst (accept_product_ack audit now j v acks) of
      Inl _ \<Rightarrow> acks | Inr rec \<Rightarrow> append_enforcement_journal rec acks)"
  (is "(?acc \<longleftrightarrow> ?good) \<and> ?file")
proof -
  have "?acc \<longleftrightarrow> (\<exists>rec acks'. accept_product_ack audit now j v acks = (Inr rec, acks'))"
    by (metis fst_conv prod.collapse)
  also have "\<dots> \<longleftrightarrow> ?good"
    unfolding accept_product_ack_iff by (auto simp: missing_fields_Nil)
  finally have "?acc \<longleftrightarrow> ?good" .
  moreover have ?file
    using accept_refused_unchanged [of audit now j v acks] accept_product_ack_iff [of audit now j v acks]
    by (cases "accept_product_ack audit now j v acks") (auto split: sum.split)
  ultimately show ?thesis ..
qed


definition demo_rows :: "dict \<Rightarrow> journal" where
  "demo_rows row = \<lparr>jlines = Some [JRow (PDict row)], jwritable = True, jreadable = True\<rparr>"


text \<open>
  From delivery to acknowledgement.  After a delivery under a new action id, the tenant's
  acknowledgement of that id (in either case of the digits) is accepted whatever the webhook
  answered, and the delivery is then listed as \<open>acked\<close> at the time the acknowledgement
  gives.
\<close>

theorem product_ack_roundtrip:
  fixes h m http clock r j
  defines "j' \<equiv> ds_journal (apply_enforcement_adapters h m http clock r j)"
  assumes url: "hook_url h ''enforcement'' \<noteq> []" and ok: "journal_usable j" and fresh: "fresh_id (delivery_id r) j"
    and ids: "strip (er_trace r) = er_trace r" "er_trace r \<noteq> []" "strip (er_tenant r) = er_tenant r" "er_tenant r \<noteq> []"
    and acks: "journal_usable acks"
    and p: "hex64_token (field_text p ''action_id'')" "lower (field_text p ''action_id'') = delivery_id r"
      "field_text p ''trace_id'' = er_trace r" "field_text p ''actor'' = er_tenant r"
      "field_text p ''status'' \<noteq> []" "field_text p ''ts'' \<noteq> []"
  shows "\<exists>acks' row. accept_product_ack audit now j' (PDict p) acks = (Inr (ack_record now p), acks') \<and>
    get_enforcement_deliveries j' acks' (er_trace r) (er_tenant r) (Some (delivery_id r)) (Some ''acked'') = Inr [row] \<and>
    dget row ''action_id'' = PStr (delivery_id r) \<and> dget row ''last_status'' = PStr ''acked'' \<and>
    dget row ''acked_at'' = PStr (field_text p ''ts'')"
proof -
  let ?rec = "ack_record now p" and ?acks' = "append_enforcement_journal (ack_record now p) acks"
  have miss: "missing_fields p = []" using p ids by (simp add: missing_fields_Nil)
  have "known_trace audit j' (field_text p ''trace_id'') (field_text p ''actor'')"
    using journal_has_trace_after_delivery [OF url ok, of m http clock r] ids p
    by (simp add: known_trace_def Let_def j'_def)
  then have acc: "accept_product_ack audit now j' (PDict p) acks = (Inr ?rec, ?acks')"
    using miss p acks by (simp add: accept_product_ack_iff journal_usable_def)
  obtain row where row: "query_enforcement_deliveries j' (er_trace r) (er_tenant r) (Some (delivery_id r)) None = Inr [row]"
    "dget row ''action_id'' = PStr (delivery_id r)" "dget row ''trace_id'' = PStr (er_trace r)"
    "dget row ''tenant_id'' = PStr (er_tenant r)"
    using query_after_delivery [OF url ok fresh ids, of m http clock] unfolding j'_def by blast
  have "acks_of_row ?acks' row = acks_of_row acks row @ [sort_key fst ?rec]"
    using ids p by (simp add: acks_of_row_def query_product_acks_def Let_def row opt_str_def
        pa.rows_app [OF acks] ack_record_fields [OF miss] hex64_simps)
  then have laid: "overlay_product_ack ?acks' row =
      dset ''acked_at'' (PStr (field_text p ''ts'')) (dset ''last_status'' (PStr ''acked'') row)"
    using p by (simp add: overlay_product_ack_def Let_def ack_record_fields [OF miss] field_text_def)
  have "lower (strip ''acked'') = ''acked''" by code_simp
  then have "get_enforcement_deliveries j' ?acks' (er_trace r) (er_tenant r) (Some (delivery_id r)) (Some ''acked'') =
      Inr [overlay_product_ack ?acks' row]"
    by (simp add: get_enforcement_deliveries_def row laid Let_def opt_str_def)
  with acc show ?thesis using row(2) by (auto simp: laid)
qed

lemma hex64_tokenI: "is_hex64 s \<Longrightarrow> hex64_token s"
proof -
  have "hex_chars \<subseteq> Collect is_hex_char" by (auto simp: hex_chars_def is_hex_char_def)
  then show "is_hex64 s \<Longrightarrow> hex64_token s" by (auto simp: is_hex64_def hex64_token_def list_all_iff)
qed

definition demo_ack :: dict where
  "demo_ack = [(''trace_id'', PStr ''t-1''), (''action_id'', PStr (delivery_id demo_request)), (''status'', PStr ''applied''),
     (''ts'', PStr ''2026-01-02''), (''actor'', PStr ''acme'')]"

definition demo_delivered :: journal where
  "demo_delivered = ds_journal (apply_enforcement_adapters demo_host NoMetrics flaky_http (\<lambda>_. ''2026-01-01'') demo_request no_journal)"

theorem product_ack_roundtrip_witness:
  "\<exists>acks' row. accept_product_ack (\<lambda>_ _. False) ''now'' demo_delivered (PDict demo_ack) no_journal
     = (Inr (ack_record ''now'' demo_ack), acks') \<and>
    get_enforcement_deliveries demo_delivered acks' ''t-1'' ''acme'' (Some (delivery_id demo_request)) (Some ''acked'') = Inr [row] \<and>
    dget row ''acked_at'' = PStr ''2026-01-02''"
proof -
  have strips: "strip ''t-1'' = ''t-1''" "strip ''applied'' = ''applied''" "strip ''2026-01-02'' = ''2026-01-02''"
    "strip ''acme'' = ''acme''" by code_simp+
  have "field_text demo_ack ''action_id'' = delivery_id demo_request" by (simp add: field_text_def demo_ack_def hex64_strip)
  then have p: "hex64_token (field_text demo_ack ''action_id'')" "lower (field_text demo_ack ''action_id'') = delivery_id demo_request"
    by (simp_all add: hex64_tokenI hex64_lower)
  have f: "field_text demo_ack ''trace_id'' = er_trace demo_request" "field_text demo_ack ''actor'' = er_tenant demo_request"
    "field_text demo_ack ''status'' \<noteq> []" "field_text demo_ack ''ts'' \<noteq> []" "field_text demo_ack ''ts'' = ''2026-01-02''"
    by (simp_all add: field_text_def strips demo_request_def demo_ack_def)
  have req: "er_trace demo_request = ''t-1''" "er_tenant demo_request = ''acme''" by (simp_all add: demo_request_def)
  have "hook_url demo_host ''enforcement'' \<noteq> []" by (simp add: demo_facts)
  from product_ack_roundtrip [OF this no_journal_facts demo_facts(3-6) no_journal_facts(1) p f(1-4),
      where m = NoMetrics and http = flaky_http and clock = "\<lambda>_. ''2026-01-01''" and audit = "\<lambda>_ _. False" and now = "''now''"]
  show ?thesis unfolding f(5) demo_delivered_def [symmetric] req by blast
qed

end
