(* ===== verification/Outbox.thy ===== *)
theory Outbox
  imports Py_Json
begin

text \<open>
  The transactional outbox of the orchestrator:
  \<open>src/services/orchestrator/models/outbox.py\<close> (rows and data access) and
  \<open>src/services/orchestrator/workers/outbox_processor.py\<close> (the worker).

  The table is the list of its rows in insertion order; times are microseconds.  The database
  keeps the unique index on the idempotency key and the primary key, and a transaction that
  raises leaves no trace.  What a handler does and whether Redis grants the lock are
  parameters.  Rows of the same creation time are claimed in insertion order, where SQL leaves
  the order open.
\<close>

section \<open>Rows\<close>

datatype outbox_status = Pending | Processing | Completed | Failed

record task =
  t_id :: nat
  t_event :: string
  t_key :: string
  t_payload :: dict
  t_status :: outbox_status
  t_retry :: int
  t_max :: int
  t_error :: "string option"
  t_claimed :: "int option"
  t_created :: int
  t_processed :: "int option"

type_synonym outbox = "task list"

datatype outbox_err = BadArgument | IntegrityError | TaskNotFound

definition reclaim_us :: int where
  "reclaim_us = 600 * 1000000"

section \<open>Data access\<close>

definition normalize_event_type :: "string \<Rightarrow> string option" where
  "normalize_event_type e = (let tok = strip e in if tok = [] \<or> length tok > 100 then None else Some tok)"

definition normalize_idempotency_key :: "string \<Rightarrow> string option" where
  "normalize_idempotency_key k = (let tok = strip k in if tok = [] \<or> length tok > 255 then None else Some tok)"

definition new_task :: "int \<Rightarrow> nat \<Rightarrow> string \<Rightarrow> string \<Rightarrow> dict \<Rightarrow> task" where
  "new_task now i e k p = \<lparr>t_id = i, t_event = e, t_key = k, t_payload = p, t_status = Pending,
     t_retry = 0, t_max = 5, t_error = None, t_claimed = None, t_created = now, t_processed = None\<rparr>"

definition create_task :: "int \<Rightarrow> nat \<Rightarrow> string \<Rightarrow> string \<Rightarrow> dict \<Rightarrow> outbox \<Rightarrow> outbox_err + task \<times> outbox" where
  "create_task now i event_type idempotency_key payload tbl =
     (case (normalize_event_type event_type, normalize_idempotency_key idempotency_key) of
        (Some e, Some k) \<Rightarrow>
          if k \<in> set (map t_key tbl) \<or> i \<in> set (map t_id tbl) then Inl IntegrityError
          else let row = new_task now i e k payload in Inr (row, tbl @ [row])
      | _ \<Rightarrow> Inl BadArgument)"

definition claim_ready :: "int \<Rightarrow> task \<Rightarrow> bool" where
  "claim_ready now t = (case t_status t of
      Pending \<Rightarrow> True
    | Failed \<Rightarrow> t_retry t < t_max t
    | Processing \<Rightarrow> (case t_claimed t of None \<Rightarrow> True | Some c \<Rightarrow> c < now - reclaim_us)
    | Completed \<Rightarrow> False)"

definition fetch_pending_tasks :: "int \<Rightarrow> int \<Rightarrow> outbox \<Rightarrow> outbox_err + task list" where
  "fetch_pending_tasks now batch_size tbl = (if batch_size < 1 then Inl BadArgument
     else Inr (take (nat batch_size) (sort_key t_created (filter (claim_ready now) tbl))))"

text \<open>\<open>UPDATE ... WHERE id = task_id RETURNING\<close> a row.\<close>

definition update_row :: "nat \<Rightarrow> (task \<Rightarrow> task) \<Rightarrow> outbox \<Rightarrow> outbox_err + outbox" where
  "update_row i f tbl = (if i \<in> set (map t_id tbl)
     then Inr (map (\<lambda>t. if t_id t = i then f t else t) tbl) else Inl TaskNotFound)"

definition processing_row :: "int \<Rightarrow> task \<Rightarrow> task" where
  "processing_row now t = t\<lparr>t_status := Processing, t_claimed := Some now\<rparr>"

definition completed_row :: "int \<Rightarrow> string option \<Rightarrow> task \<Rightarrow> task" where
  "completed_row now note t = (let t' = t\<lparr>t_status := Completed, t_processed := Some now, t_claimed := None\<rparr>
     in case note of Some n \<Rightarrow> if n = [] then t' else t'\<lparr>t_error := Some (take 8192 n)\<rparr> | None \<Rightarrow> t')"

definition failed_row :: "string \<Rightarrow> task \<Rightarrow> task" where
  "failed_row msg t = t\<lparr>t_status := Failed, t_retry := t_retry t + 1, t_error := Some (take 8192 msg)\<rparr>"

definition mark_processing :: "int \<Rightarrow> nat \<Rightarrow> outbox \<Rightarrow> outbox_err + outbox" where
  "mark_processing now i tbl = update_row i (processing_row now) tbl"

definition mark_completed :: "int \<Rightarrow> nat \<Rightarrow> string option \<Rightarrow> outbox \<Rightarrow> outbox_err + outbox" where
  "mark_completed now i note tbl = update_row i (completed_row now note) tbl"

definition mark_failed :: "nat \<Rightarrow> string \<Rightarrow> outbox \<Rightarrow> outbox_err + outbox" where
  "mark_failed i error_msg tbl = (if strip error_msg = [] then Inl BadArgument
     else update_row i (failed_row (strip error_msg)) tbl)"

section \<open>The worker\<close>

definition task_handlers :: "string list" where
  "task_handlers = [''GRAPH_INGEST'', ''VELOCITY_UPDATE'', ''LABEL_PROPAGATE'', ''SHADOW_RETRO_TAG'']"

text \<open>
  What surrounds a worker: whether Redis is configured, whether it grants the lock of a key,
  what the handler of an event type does with a payload (\<open>Inl\<close> the message of its
  exception, \<open>Inr\<close> the note it returns), and when the outcome of a task is written.
\<close>

record worker_env =
  we_redis :: bool
  we_lock :: "string \<Rightarrow> bool"
  we_handler :: "string \<Rightarrow> dict \<Rightarrow> string + string option"
  we_done :: "nat \<Rightarrow> int"

datatype route_result = LockHeld | RoutingFailed string | HandlerFailed string | Done "string option"

definition routing_message :: "string \<Rightarrow> string" where
  "routing_message tok = ''no handler registered for event_type='' @ repr_str tok"

definition route_outbox_task :: "worker_env \<Rightarrow> task \<Rightarrow> route_result" where
  "route_outbox_task w t =
     (let event_type = strip (t_event t); key = strip (t_key t) in
      if we_redis w \<and> key \<noteq> [] \<and> \<not> we_lock w (''outbox_lock:'' @ key) then LockHeld
      else if event_type \<notin> set task_handlers then RoutingFailed (routing_message event_type)
      else (case we_handler w event_type (t_payload t) of Inl msg \<Rightarrow> HandlerFailed msg | Inr note \<Rightarrow> Done note))"

text \<open>The keys whose lock a task leaves behind released again.\<close>

definition released_lock :: "worker_env \<Rightarrow> task \<Rightarrow> string option" where
  "released_lock w t = (let key = strip (t_key t) in
     if we_redis w \<and> key \<noteq> [] then (case route_outbox_task w t of
        RoutingFailed _ \<Rightarrow> Some (''outbox_lock:'' @ key)
      | HandlerFailed _ \<Rightarrow> Some (''outbox_lock:'' @ key)
      | _ \<Rightarrow> None)
     else None)"

fun mark_all :: "int \<Rightarrow> task list \<Rightarrow> outbox \<Rightarrow> outbox_err + outbox" where
  "mark_all now [] tbl = Inr tbl"
| "mark_all now (t # ts) tbl = (case mark_processing now (t_id t) tbl of Inl e \<Rightarrow> Inl e
     | Inr tbl' \<Rightarrow> mark_all now ts tbl')"

definition claim_pending_batch :: "int \<Rightarrow> int \<Rightarrow> outbox \<Rightarrow> outbox_err + task list \<times> outbox" where
  "claim_pending_batch now batch_size tbl = (case fetch_pending_tasks now batch_size tbl of Inl e \<Rightarrow> Inl e
     | Inr pending \<Rightarrow> (case mark_all now pending tbl of Inl e \<Rightarrow> Inl e
         | Inr tbl' \<Rightarrow> Inr (map (processing_row now) pending, tbl')))"

definition release_task_claim :: "nat \<Rightarrow> outbox \<Rightarrow> outbox" where
  "release_task_claim i tbl = map (\<lambda>t. if t_id t = i \<and> t_status t = Processing then t\<lparr>t_status := Pending\<rparr> else t) tbl"

record batch_stats =
  st_claimed :: int
  st_completed :: int
  st_failed :: int

text \<open>A transaction that raises is logged and leaves the table as it was.\<close>

definition settle_failure :: "task \<Rightarrow> string \<Rightarrow> outbox \<times> batch_stats \<Rightarrow> outbox \<times> batch_stats" where
  "settle_failure t msg = (\<lambda>(tbl, st). case mark_failed (t_id t) msg tbl of
      Inl _ \<Rightarrow> (tbl, st) | Inr tbl' \<Rightarrow> (tbl', st\<lparr>st_failed := st_failed st + 1\<rparr>))"

definition settle_task :: "worker_env \<Rightarrow> task \<Rightarrow> outbox \<times> batch_stats \<Rightarrow> outbox \<times> batch_stats" where
  "settle_task w t = (\<lambda>(tbl, st). case route_outbox_task w t of
      LockHeld \<Rightarrow> (release_task_claim (t_id t) tbl, st)
    | RoutingFailed msg \<Rightarrow> settle_failure t msg (tbl, st)
    | HandlerFailed msg \<Rightarrow> settle_failure t msg (tbl, st)
    | Done note \<Rightarrow> (case mark_completed (we_done w (t_id t)) (t_id t) note tbl of
          Inl _ \<Rightarrow> (tbl, st\<lparr>st_failed := st_failed st + 1\<rparr>)
        | Inr tbl' \<Rightarrow> (tbl', st\<lparr>st_completed := st_completed st + 1\<rparr>)))"

definition process_outbox_batch :: "worker_env \<Rightarrow> int \<Rightarrow> int \<Rightarrow> outbox \<Rightarrow> outbox_err + outbox \<times> batch_stats" where
  "process_outbox_batch w now batch_size tbl = (case claim_pending_batch now batch_size tbl of Inl e \<Rightarrow> Inl e
     | Inr (tasks, tbl') \<Rightarrow> Inr (fold (settle_task w) tasks
         (tbl', \<lparr>st_claimed = int (length tasks), st_completed = 0, st_failed = 0\<rparr>)))"

section \<open>A batch row by row\<close>

text \<open>What the worker makes of one row \<open>y\<close> for the claimed task \<open>t\<close>.\<close>

definition fail_row :: "string \<Rightarrow> task \<Rightarrow> task" where
  "fail_row msg y = (if strip msg = [] then y else failed_row (strip msg) y)"

definition settle_row :: "worker_env \<Rightarrow> task \<Rightarrow> task \<Rightarrow> task" where
  "settle_row w t y = (case route_outbox_task w t of
      LockHeld \<Rightarrow> (if t_status y = Processing then y\<lparr>t_status := Pending\<rparr> else y)
    | RoutingFailed msg \<Rightarrow> fail_row msg y
    | HandlerFailed msg \<Rightarrow> fail_row msg y
    | Done note \<Rightarrow> completed_row (we_done w (t_id t)) note y)"

abbreviation on_id :: "nat \<Rightarrow> (task \<Rightarrow> task) \<Rightarrow> task \<Rightarrow> task" where
  "on_id i f y \<equiv> (if t_id y = i then f y else y)"

lemma row_ids [simp]:
  "t_id (processing_row now y) = t_id y" "t_id (completed_row d note y) = t_id y"
  "t_id (failed_row msg y) = t_id y" "t_id (fail_row msg y) = t_id y" "t_id (settle_row w t y) = t_id y"
  by (auto simp: processing_row_def completed_row_def failed_row_def fail_row_def settle_row_def Let_def
      split: option.split route_result.split)

lemma update_row_map: "update_row i f tbl = (if i \<in> set (map t_id tbl) then Inr (map (on_id i f) tbl) else Inl TaskNotFound)"
  by (simp add: update_row_def)

lemma map_on_id_absent: "i \<notin> set (map t_id tbl) \<Longrightarrow> map (on_id i f) tbl = tbl"
  by (auto intro!: map_idI)

lemma settle_task_rows: "fst (settle_task w t (tbl, st)) = map (on_id (t_id t) (settle_row w t)) tbl"
  using map_on_id_absent [of "t_id t" tbl "settle_row w t"]
  by (auto simp: settle_task_def settle_failure_def settle_row_def release_task_claim_def mark_failed_def
      mark_completed_def fail_row_def update_row_map map_idI split: route_result.split)

lemma settle_fold_rows:
  "fst (fold (settle_task w) ts (tbl, st)) = map (fold (\<lambda>t. on_id (t_id t) (settle_row w t)) ts) tbl"
proof (induction ts arbitrary: tbl st)
  case (Cons t ts)
  obtain tbl' st' where eq: "settle_task w t (tbl, st) = (tbl', st')" by (cases "settle_task w t (tbl, st)") auto
  have "tbl' = map (on_id (t_id t) (settle_row w t)) tbl" using settle_task_rows [of w t tbl st] eq by simp
  then show ?case using Cons.IH [of tbl' st'] by (simp add: eq)
qed simp

lemma mark_all_rows:
  "t_id ` set ts \<subseteq> t_id ` set tbl \<Longrightarrow>
   mark_all now ts tbl = Inr (map (fold (\<lambda>t. on_id (t_id t) (processing_row now)) ts) tbl)"
proof (induction ts arbitrary: tbl)
  case (Cons t ts)
  have "t_id t \<in> set (map t_id tbl)" using Cons.prems by auto
  then have "mark_processing now (t_id t) tbl = Inr (map (on_id (t_id t) (processing_row now)) tbl)"
    by (simp add: mark_processing_def update_row_map)
  moreover have "map t_id (map (on_id (t_id t) (processing_row now)) tbl) = map t_id tbl" by (induction tbl) simp_all
  then have "t_id ` set (map (on_id (t_id t) (processing_row now)) tbl) = t_id ` set tbl" by (metis set_map)
  then have "t_id ` set ts \<subseteq> t_id ` set (map (on_id (t_id t) (processing_row now)) tbl)"
    using Cons.prems by (simp del: set_map)
  ultimately show ?case using Cons.IH by simp
qed simp

text \<open>Updates for different ids do not meet: a row changes by the task with its id only.\<close>

lemma fold_on_id:
  assumes "distinct (map t_id ts)" and "\<And>t y. t_id (f t y) = t_id y"
  shows "fold (\<lambda>t. on_id (t_id t) (f t)) ts y =
    (case find (\<lambda>t. t_id t = t_id y) ts of None \<Rightarrow> y | Some t \<Rightarrow> f t y)"
  using assms(1)
proof (induction ts arbitrary: y)
  case (Cons t ts)
  have none: "find (\<lambda>u. t_id u = t_id (f t y)) ts = None" if "t_id y = t_id t"
    using Cons.prems that unfolding find_None_iff assms(2) by (metis distinct.simps(2) image_eqI list.simps(9) set_map)
  show ?case using Cons none by (auto simp: assms(2) split: option.split)
qed simp

definition claimed_tasks :: "int \<Rightarrow> int \<Rightarrow> outbox \<Rightarrow> task list" where
  "claimed_tasks now batch_size tbl = take (nat batch_size) (sort_key t_created (filter (claim_ready now) tbl))"

lemma claimed_subset: "set (claimed_tasks now b tbl) \<subseteq> set (filter (claim_ready now) tbl)"
  unfolding claimed_tasks_def by (metis set_sort set_take_subset)

lemma claimed_distinct: "distinct (map t_id tbl) \<Longrightarrow> distinct (map t_id (claimed_tasks now b tbl))"
  unfolding claimed_tasks_def take_map [symmetric]
  by (rule distinct_take) (simp add: distinct_map inj_on_def)

lemma find_claimed:
  assumes d: "distinct (map t_id tbl)" and y: "y \<in> set tbl"
  shows "find (\<lambda>t. t_id t = t_id y) (claimed_tasks now b tbl) = (if y \<in> set (claimed_tasks now b tbl) then Some y else None)"
proof (cases "find (\<lambda>t. t_id t = t_id y) (claimed_tasks now b tbl)")
  case None
  then show ?thesis by (auto simp: find_None_iff)
next
  case (Some t)
  then have t: "t \<in> set (claimed_tasks now b tbl)" "t_id t = t_id y" by (auto simp: find_Some_iff)
  then have "t \<in> set tbl" using claimed_subset by fastforce
  then have "t = y" using t(2) d y by (auto simp: distinct_map inj_on_def)
  then show ?thesis using Some t by simp
qed

lemma find_map_conv: "find P (map f xs) = map_option f (find (\<lambda>x. P (f x)) xs)"
  by (induction xs) simp_all

lemma settle_task_claimed: "st_claimed (snd (settle_task w t (x, st))) = st_claimed st"
  by (simp add: settle_task_def settle_failure_def split: route_result.split sum.split)

lemma settle_fold_claimed: "st_claimed (snd (fold (settle_task w) ts (x, st))) = st_claimed st"
proof (induction ts arbitrary: x st)
  case (Cons t ts)
  then show ?case
    using settle_task_claimed [of w t x st] by (cases "settle_task w t (x, st)") simp
qed simp

lemma process_batch_rows:
  assumes d: "distinct (map t_id tbl)" and b: "1 \<le> b"
  shows "\<exists>st. process_outbox_batch w now b tbl =
     Inr (map (\<lambda>y. if y \<in> set (claimed_tasks now b tbl)
        then settle_row w (processing_row now y) (processing_row now y) else y) tbl, st) \<and>
     st_claimed st = int (length (claimed_tasks now b tbl))"
proof -
  let ?c = "claimed_tasks now b tbl"
  let ?m = "\<lambda>y. if y \<in> set ?c then processing_row now y else y"
  let ?st = "\<lparr>st_claimed = int (length ?c), st_completed = 0, st_failed = 0\<rparr>"
  have fetch: "fetch_pending_tasks now b tbl = Inr ?c" using b by (simp add: fetch_pending_tasks_def claimed_tasks_def)
  have "t_id ` set ?c \<subseteq> t_id ` set tbl" using claimed_subset [of now b tbl] by auto
  then have mark: "mark_all now ?c tbl = Inr (map ?m tbl)"
    unfolding mark_all_rows [OF \<open>t_id ` set ?c \<subseteq> t_id ` set tbl\<close>]
    by (simp add: fold_on_id [OF claimed_distinct [OF d]] find_claimed [OF d])
  let ?ts = "map (processing_row now) ?c"
  have run: "process_outbox_batch w now b tbl = Inr (fold (settle_task w) ?ts (map ?m tbl, ?st))"
    by (simp add: process_outbox_batch_def claim_pending_batch_def fetch mark)
  have "map (fold (\<lambda>t. on_id (t_id t) (settle_row w t)) ?ts) (map ?m tbl) =
      map (\<lambda>y. if y \<in> set ?c then settle_row w (processing_row now y) (processing_row now y) else y) tbl"
  proof -
    have "find (\<lambda>t. t_id t = t_id (?m y)) ?ts = (if y \<in> set ?c then Some (processing_row now y) else None)"
      if "y \<in> set tbl" for y
      using find_claimed [OF d that, of now b] by (simp add: find_map_conv)
    moreover have "distinct (map t_id ?ts)" using claimed_distinct [OF d, of now b] by (simp add: comp_def)
    ultimately show ?thesis by (simp add: fold_on_id)
  qed
  moreover obtain tbl2 st2 where r: "fold (settle_task w) ?ts (map ?m tbl, ?st) = (tbl2, st2)"
    by (cases "fold (settle_task w) ?ts (map ?m tbl, ?st)") simp
  ultimately have "tbl2 = map (\<lambda>y. if y \<in> set ?c then settle_row w (processing_row now y) (processing_row now y) else y) tbl"
    using settle_fold_rows [of w ?ts "map ?m tbl" ?st] by simp
  moreover have "st_claimed st2 = int (length ?c)"
    using settle_fold_claimed [of w ?ts "map ?m tbl" ?st] by (simp add: r)
  ultimately show ?thesis unfolding run r by blast
qed

section \<open>The outbox over time\<close>

text \<open>
  A task is entered, or a worker claims a batch and settles the first \<open>n\<close> of its tasks
  before it stops: all of them in a normal run, fewer when it dies in between.
\<close>

inductive outbox_step :: "outbox \<Rightarrow> outbox \<Rightarrow> bool" where
  enter: "create_task now i e k p tbl = Inr (row, tbl') \<Longrightarrow> outbox_step tbl tbl'"
| work: "claim_pending_batch now b tbl = Inr (ts, tbl1) \<Longrightarrow>
    outbox_step tbl (fst (fold (settle_task w) (take n ts) (tbl1, st)))"

definition task_ok :: "task \<Rightarrow> bool" where
  "task_ok t = (0 \<le> t_retry t \<and> t_retry t \<le> t_max t \<and> (t_status t \<in> {Pending, Processing} \<longrightarrow> t_retry t < t_max t))"

definition outbox_inv :: "outbox \<Rightarrow> bool" where
  "outbox_inv tbl = (distinct (map t_id tbl) \<and> distinct (map t_key tbl) \<and> list_all task_ok tbl)"

text \<open>A later version of the same row.\<close>

definition evolves :: "task \<Rightarrow> task \<Rightarrow> bool" where
  "evolves t t' = (t_id t' = t_id t \<and> t_key t' = t_key t \<and> t_event t' = t_event t \<and> t_payload t' = t_payload t \<and>
     t_max t' = t_max t \<and> t_created t' = t_created t \<and> t_retry t \<le> t_retry t')"

definition settled :: "task \<Rightarrow> bool" where
  "settled t = (t_status t = Completed \<or> (t_status t = Failed \<and> t_max t \<le> t_retry t))"

lemma settled_not_ready: "settled t \<Longrightarrow> \<not> claim_ready now t"
  by (auto simp: settled_def claim_ready_def)

lemma evolves_refl [simp]: "evolves t t"
  by (simp add: evolves_def)

lemma evolves_trans: "evolves t u \<Longrightarrow> evolves u v \<Longrightarrow> evolves t v"
  by (auto simp: evolves_def)

lemma processing_row_ok:
  "claim_ready now y \<Longrightarrow> task_ok y \<Longrightarrow> task_ok (processing_row now' y) \<and> evolves y (processing_row now' y)"
  by (auto simp: claim_ready_def task_ok_def processing_row_def evolves_def split: outbox_status.splits)

lemma settle_row_ok:
  assumes "task_ok y" and "t_status y = Processing"
  shows "task_ok (settle_row w t y) \<and> evolves y (settle_row w t y)"
proof -
  have "task_ok (fail_row msg y) \<and> evolves y (fail_row msg y)" for msg
    using assms by (auto simp: fail_row_def failed_row_def task_ok_def evolves_def)
  moreover have "task_ok (completed_row d nt y) \<and> evolves y (completed_row d nt y)" for d nt
    using assms by (auto simp: completed_row_def task_ok_def evolves_def Let_def split: option.split)
  moreover have "task_ok (y\<lparr>t_status := Pending\<rparr>) \<and> evolves y (y\<lparr>t_status := Pending\<rparr>)"
    using assms by (auto simp: task_ok_def evolves_def)
  ultimately show ?thesis using assms(2) by (simp add: settle_row_def split: route_result.split)
qed

text \<open>What a stretch of work does to a row: nothing unless it was ready to be claimed.\<close>

lemma work_rows:
  assumes inv: "outbox_inv tbl" and c: "claim_pending_batch now b tbl = Inr (ts, tbl1)"
  shows "\<exists>g. fst (fold (settle_task w) (take n ts) (tbl1, st)) = map g tbl \<and>
    (\<forall>y \<in> set tbl. task_ok (g y) \<and> evolves y (g y) \<and> (settled y \<longrightarrow> g y = y))"
proof -
  let ?c = "claimed_tasks now b tbl"
  have d: "distinct (map t_id tbl)" using inv by (simp add: outbox_inv_def)
  have b: "fetch_pending_tasks now b tbl = Inr ?c"
    using c by (auto simp: claim_pending_batch_def fetch_pending_tasks_def claimed_tasks_def split: if_splits)
  have "t_id ` set ?c \<subseteq> t_id ` set tbl" using claimed_subset [of now b tbl] by auto
  then have t1: "ts = map (processing_row now) ?c" "tbl1 = map (fold (\<lambda>t. on_id (t_id t) (processing_row now)) ?c) tbl"
    using c by (simp_all add: claim_pending_batch_def b mark_all_rows)
  let ?f = "fold (\<lambda>t. on_id (t_id t) (processing_row now)) ?c"
  let ?h = "fold (\<lambda>t. on_id (t_id t) (settle_row w t)) (take n ts)"
  have dts: "distinct (map t_id (take n ts))"
    using claimed_distinct [OF d, of now b] by (simp add: t1 take_map comp_def flip: take_map)
  have "task_ok (?h (?f y)) \<and> evolves y (?h (?f y)) \<and> (settled y \<longrightarrow> ?h (?f y) = y)" if y: "y \<in> set tbl" for y
  proof (cases "y \<in> set ?c")
    case True
    have f: "?f y = processing_row now y"
      using True by (simp add: fold_on_id [OF claimed_distinct [OF d]] find_claimed [OF d y])
    have ready: "claim_ready now y" using True claimed_subset [of now b tbl] by auto
    have ok: "task_ok y" using inv y by (simp add: outbox_inv_def list_all_iff)
    note p = processing_row_ok [OF ready ok, of now]
    have st: "t_status (processing_row now y) = Processing" by (simp add: processing_row_def)
    have "task_ok (?h (processing_row now y)) \<and> evolves (processing_row now y) (?h (processing_row now y))"
      unfolding fold_on_id [OF dts, of "settle_row w", simplified]
      using p settle_row_ok [OF _ st, of w] by (simp split: option.split)
    then show ?thesis
      unfolding f using p evolves_trans settled_not_ready [of y now] ready by blast
  next
    case False
    have f: "?f y = y" using False by (simp add: fold_on_id [OF claimed_distinct [OF d]] find_claimed [OF d y])
    have "find (\<lambda>t. t_id t = t_id y) (take n ts) = None"
      using find_claimed [OF d y, of now b] False by (auto simp: t1 find_None_iff dest!: in_set_takeD)
    then have "?h y = y" unfolding fold_on_id [OF dts, of "settle_row w", simplified] by simp
    then show ?thesis using f inv y by (simp add: outbox_inv_def list_all_iff)
  qed
  then show ?thesis unfolding settle_fold_rows t1(2) map_map by (intro exI [of _ "?h \<circ> ?f"]) simp
qed

lemma map_evolves_keys:
  assumes "\<forall>y \<in> set tbl. evolves y (g y)"
  shows "map t_id (map g tbl) = map t_id tbl" and "map t_key (map g tbl) = map t_key tbl"
  using assms by (simp_all add: evolves_def)

definition rows_kept :: "outbox \<Rightarrow> outbox \<Rightarrow> bool" where
  "rows_kept tbl tbl' = (\<forall>t \<in> set tbl. (settled t \<longrightarrow> t \<in> set tbl') \<and> (\<exists>t' \<in> set tbl'. evolves t t'))"

lemma rows_kept_keys: "rows_kept tbl tbl' \<Longrightarrow> set (map t_key tbl) \<subseteq> set (map t_key tbl')"
  by (auto simp: rows_kept_def evolves_def) (metis imageI)

lemma outbox_step_safe:
  assumes "outbox_step tbl tbl'" and inv: "outbox_inv tbl"
  shows "outbox_inv tbl' \<and> (\<forall>t \<in> set tbl. (settled t \<longrightarrow> t \<in> set tbl') \<and> (\<exists>t' \<in> set tbl'. evolves t t'))"
  using assms(1)
proof cases
  case (enter now i e k p row)
  then have "\<exists>e' k'. tbl' = tbl @ [new_task now i e' k' p] \<and> k' \<notin> set (map t_key tbl) \<and> i \<notin> set (map t_id tbl)"
    by (auto simp: create_task_def Let_def split: option.splits if_splits)
  then show ?thesis using inv by (auto simp: outbox_inv_def new_task_def task_ok_def intro: evolves_refl)
next
  case (work now b ts tbl1 w n st)
  then obtain g where tbl': "tbl' = map g tbl" and g: "\<forall>y \<in> set tbl. task_ok (g y) \<and> evolves y (g y) \<and> (settled y \<longrightarrow> g y = y)"
    using work_rows [OF inv] by blast
  then have "\<forall>y \<in> set tbl. evolves y (g y)" by blast
  note keys = map_evolves_keys [OF this]
  have "list_all task_ok tbl'" using g by (simp add: tbl' list_all_iff)
  then have "outbox_inv tbl'" using inv unfolding outbox_inv_def tbl' keys by blast
  moreover have "t \<in> set tbl'" if "t \<in> set tbl" "settled t" for t
    using that g unfolding tbl' set_map by (metis imageI)
  ultimately show ?thesis using g by (auto simp: tbl')
qed

interpretation ob: growing_store outbox_step outbox_inv rows_kept
proof unfold_locales
  show "rows_kept tbl tbl" for tbl by (auto simp: rows_kept_def intro: evolves_refl)
  show "rows_kept s t \<Longrightarrow> rows_kept t u \<Longrightarrow> rows_kept s u" for s t u
    unfolding rows_kept_def by (meson evolves_trans)
  show "outbox_inv s \<Longrightarrow> outbox_step s t \<Longrightarrow> outbox_inv t \<and> rows_kept s t" for s t
    using outbox_step_safe unfolding rows_kept_def by blast
qed

section \<open>Properties\<close>


definition steady_worker :: worker_env where
  "steady_worker = \<lparr>we_redis = False, we_lock = (\<lambda>_. True), we_handler = (\<lambda>_ _. Inr None), we_done = (\<lambda>_. 7)\<rparr>"


text \<open>
  A batch settles its tasks independently.  On a table with unique ids, claiming a batch and
  running its tasks one after the other changes each claimed row by its own outcome alone
  (back to pending when the lock is held, failed with one more retry, completed) and no other
  row, and the claimed rows are the oldest that are ready, as many as the batch allows.
\<close>

theorem batch_is_pointwise:
  assumes "distinct (map t_id tbl)" and "1 \<le> b"
  shows "\<exists>st. process_outbox_batch w now b tbl =
     Inr (map (\<lambda>y. if y \<in> set (take (nat b) (sort_key t_created (filter (claim_ready now) tbl)))
        then settle_row w (processing_row now y) (processing_row now y) else y) tbl, st) \<and>
     st_claimed st = min b (int (length (filter (claim_ready now) tbl)))"
  using process_batch_rows [OF assms, of w now] assms(2)
  unfolding claimed_tasks_def by (auto simp: min_def)

theorem batch_is_pointwise_witness:
  "\<exists>st. process_outbox_batch steady_worker 5 1 [new_task 3 0 ''GRAPH_INGEST'' ''a'' [], new_task 2 1 ''GRAPH_INGEST'' ''b'' []] =
     Inr ([new_task 3 0 ''GRAPH_INGEST'' ''a'' [],
       completed_row 7 None (processing_row 5 (new_task 2 1 ''GRAPH_INGEST'' ''b'' []))], st) \<and> st_claimed st = 1"
proof -
  let ?tbl = "[new_task 3 0 ''GRAPH_INGEST'' ''a'' [], new_task 2 1 ''GRAPH_INGEST'' ''b'' []]"
  have "distinct (map t_id ?tbl)" by (simp add: new_task_def)
  note p = batch_is_pointwise [OF this, of 1 steady_worker 5]
  have "take (nat 1) (sort_key t_created (filter (claim_ready 5) ?tbl)) = [new_task 2 1 ''GRAPH_INGEST'' ''b'' []]"
    by (simp add: new_task_def claim_ready_def)
  moreover have "min 1 (int (length (filter (claim_ready 5) ?tbl))) = 1" by (simp add: new_task_def claim_ready_def)
  moreover have "settle_row steady_worker (processing_row 5 (new_task 2 1 ''GRAPH_INGEST'' ''b'' [])) y = completed_row 7 None y" for y
  proof -
    have "route_outbox_task steady_worker (processing_row 5 (new_task 2 1 ''GRAPH_INGEST'' ''b'' [])) = Done None" by code_simp
    then show ?thesis by (simp add: settle_row_def steady_worker_def)
  qed
  ultimately show ?thesis using p by (simp add: new_task_def)
qed

text \<open>\<open>n\<close> polls, each one reclaim window and a microsecond after the one before.\<close>

fun poll_rounds :: "worker_env \<Rightarrow> int \<Rightarrow> nat \<Rightarrow> outbox \<Rightarrow> outbox_err + outbox" where
  "poll_rounds w now 0 tbl = Inr tbl"
| "poll_rounds w now (Suc n) tbl = (case process_outbox_batch w now 100 tbl of Inl e \<Rightarrow> Inl e
     | Inr (tbl', st) \<Rightarrow> poll_rounds w (now + reclaim_us + 1) n tbl')"

lemma route_processing_row: "route_outbox_task w (processing_row now t) = route_outbox_task w t"
  by (simp add: route_outbox_task_def processing_row_def Let_def)

lemma blank_failure_round:
  assumes "route_outbox_task w t = HandlerFailed msg" "strip msg = []" "claim_ready now t"
  shows "\<exists>st. process_outbox_batch w now 100 [t] = Inr ([processing_row now t], st)"
proof -
  have "settle_row w (processing_row now t) (processing_row now t) = processing_row now t"
    using assms by (simp add: settle_row_def fail_row_def route_processing_row)
  then show ?thesis
    using process_batch_rows [of "[t]" 100 w now] assms(3) by (auto simp: claimed_tasks_def)
qed

text \<open>
  C32: a handler that raises without a message is retried for ever.  \<open>mark_failed\<close> refuses a blank
  message, so the failure is not recorded: the row stays \<open>PROCESSING\<close> with its retry count
  unchanged, is claimed again once the reclaim window has passed, and this repeats without
  bound, although a task has a limit of retries.
\<close>

theorem blank_error_never_exhausts:
  assumes "route_outbox_task w t = HandlerFailed msg" and "strip msg = []" and "claim_ready now t"
  shows "\<exists>t'. poll_rounds w now n [t] = Inr [t'] \<and> t_retry t' = t_retry t \<and>
    claim_ready (now + int n * (reclaim_us + 1)) t' \<and> route_outbox_task w t' = HandlerFailed msg"
  using assms(1, 3)
proof (induction n arbitrary: t now)
  case (Suc n)
  let ?p = "processing_row now t"
  obtain st where st: "process_outbox_batch w now 100 [t] = Inr ([?p], st)"
    using blank_failure_round [OF Suc.prems(1) assms(2) Suc.prems(2)] by blast
  have "route_outbox_task w ?p = HandlerFailed msg"
    using Suc.prems(1) by (simp add: route_processing_row)
  moreover have "claim_ready (now + reclaim_us + 1) ?p" by (simp add: claim_ready_def processing_row_def)
  ultimately obtain t' where "poll_rounds w (now + reclaim_us + 1) n [?p] = Inr [t']" "t_retry t' = t_retry ?p"
    "claim_ready ((now + reclaim_us + 1) + int n * (reclaim_us + 1)) t'" "route_outbox_task w t' = HandlerFailed msg"
    using Suc.IH by blast
  then show ?case by (auto simp: st processing_row_def algebra_simps)
qed simp

theorem blank_error_never_exhausts_witness:
  "\<exists>t'. poll_rounds (steady_worker\<lparr>we_handler := (\<lambda>_ _. Inl '''')\<rparr>) 9 1000 [new_task 1 0 ''GRAPH_INGEST'' ''k'' []] = Inr [t'] \<and>
    t_retry t' = 0"
proof -
  let ?w = "steady_worker\<lparr>we_handler := (\<lambda>_ _. Inl '''')\<rparr>" and ?t = "new_task 1 0 ''GRAPH_INGEST'' ''k'' []"
  have "route_outbox_task ?w ?t = HandlerFailed ''''" by code_simp
  moreover have "claim_ready 9 ?t" by (simp add: new_task_def claim_ready_def)
  ultimately show ?thesis using blank_error_never_exhausts [of ?w ?t "''''" 9 1000] by (auto simp: new_task_def)
qed

end
