(* ===== verification/Case_Lifecycle.thy ===== *)
theory Case_Lifecycle
  imports Outbox Sha256
begin

text \<open>
  Lifecycle cases of the orchestrator: the status machine and the priority of
  \<open>src/services/orchestrator/models/cases.py\<close>, the label rows of
  \<open>models/normalized_labels.py\<close>, the label task of \<open>label_propagation.py\<close> and the
  route \<open>PUT /v1/cases/{id}/status\<close> of \<open>case_transition_api.py\<close>, which writes the
  audit log, the history, the label and the outbox tasks in one transaction.

  The tables are lists of rows.  A transaction that raises leaves them as they were.  The
  random and name-based UUIDs of new rows and the time are arguments.  Column widths are not
  enforced by the model.
\<close>

section \<open>The status machine\<close>

datatype case_status = Open | Under_Review | Pending_Action | Resolved_Fraud | Resolved_Legit | Resolved_Auto

fun status_name :: "case_status \<Rightarrow> string" where
  "status_name Open = ''OPEN''"
| "status_name Under_Review = ''UNDER_REVIEW''"
| "status_name Pending_Action = ''PENDING_ACTION''"
| "status_name Resolved_Fraud = ''RESOLVED_FRAUD''"
| "status_name Resolved_Legit = ''RESOLVED_LEGIT''"
| "status_name Resolved_Auto = ''RESOLVED_AUTO''"

definition all_statuses :: "case_status list" where
  "all_statuses = [Open, Under_Review, Pending_Action, Resolved_Fraud, Resolved_Legit, Resolved_Auto]"

text \<open>\<open>CaseStatus(value)\<close>; \<open>None\<close> is its \<open>ValueError\<close>.\<close>

definition parse_status :: "string \<Rightarrow> case_status option" where
  "parse_status s = find (\<lambda>c. status_name c = s) all_statuses"

definition resolved_statuses :: "case_status list" where
  "resolved_statuses = [Resolved_Fraud, Resolved_Legit, Resolved_Auto]"

definition reopen_targets :: "case_status list" where
  "reopen_targets = [Open, Under_Review, Pending_Action]"

fun forward :: "case_status \<Rightarrow> case_status list" where
  "forward Open = [Under_Review, Pending_Action, Resolved_Fraud, Resolved_Legit, Resolved_Auto]"
| "forward Under_Review = [Open, Pending_Action, Resolved_Fraud, Resolved_Legit, Resolved_Auto]"
| "forward Pending_Action = [Open, Under_Review, Resolved_Fraud, Resolved_Legit, Resolved_Auto]"
| "forward Resolved_Fraud = [Resolved_Legit, Resolved_Auto]"
| "forward Resolved_Legit = [Resolved_Fraud, Resolved_Auto]"
| "forward Resolved_Auto = [Resolved_Fraud, Resolved_Legit]"

text \<open>\<open>None\<close> is the \<open>StateTransitionError\<close>.\<close>

definition transition_status :: "case_status \<Rightarrow> case_status \<Rightarrow> string option \<Rightarrow> case_status option" where
  "transition_status cur new reopen_reason =
     (if cur = new then Some new
      else if cur \<in> set resolved_statuses \<and> new \<in> set reopen_targets then
        (case reopen_reason of None \<Rightarrow> None | Some r \<Rightarrow> if strip r = [] then None else Some new)
      else if cur \<in> set resolved_statuses \<and> new \<in> set resolved_statuses \<and> cur \<noteq> new then Some new
      else if new \<notin> set (forward cur) then None else Some new)"

text \<open>The larger of the finite scores in 0 to 100, rounded to even; 0 without one.\<close>

definition priority_from_scores :: "pyfloat option \<Rightarrow> pyfloat option \<Rightarrow> int" where
  "priority_from_scores rule_score ai_score =
     (let qs = List.map_filter (\<lambda>raw. case raw of Some (Fin q) \<Rightarrow> if 0 \<le> q \<and> q \<le> 100 then Some q else None | _ \<Rightarrow> None)
        [rule_score, ai_score]
      in if qs = [] then 0 else round_even (fold max (tl qs) (hd qs)))"

section \<open>Tables\<close>

record case_row =
  c_id :: string
  c_transaction :: int
  c_link :: string
  c_entity :: string
  c_status :: string
  c_assignee :: "string option"
  c_priority :: int

record audit_row =
  a_id :: int
  a_case :: string
  a_action :: string
  a_notes :: "string option"

record history_row =
  h_id :: int
  h_case :: string
  h_audit :: "int option"
  h_from :: "string option"
  h_to :: "string option"
  h_reason :: "string option"
  h_actor :: "string option"

record label_row =
  l_id :: string
  l_source_type :: string
  l_source_id :: string
  l_entity :: string
  l_class :: string
  l_tags :: "string list"
  l_propagated :: bool

record db =
  db_cases :: "case_row list"
  db_shadow :: "string list"
  db_audit :: "audit_row list"
  db_next_audit :: int
  db_history :: "history_row list"
  db_next_history :: int
  db_labels :: "label_row list"
  db_outbox :: outbox

text \<open>What the environment supplies to one request.\<close>

record fresh_ids =
  f_now :: int
  f_label :: string
  f_label_task :: nat
  f_tag_task :: nat
  f_source :: "int \<Rightarrow> string"

datatype case_err = HttpErr int string | DatabaseFailed | ValueRaised

section \<open>Labels and tasks\<close>

definition ground_truth_class_for_resolved_status :: "case_status \<Rightarrow> string option" where
  "ground_truth_class_for_resolved_status s = (if s = Resolved_Fraud then Some ''FRAUD''
     else if s = Resolved_Legit then Some ''LEGITIMATE'' else None)"

definition add_tag :: "string \<Rightarrow> string list \<Rightarrow> string list" where
  "add_tag raw out = (let token = strip raw in if token \<noteq> [] \<and> token \<notin> set out then out @ [take 128 token] else out)"

definition normalize_tags :: "string list \<Rightarrow> string \<Rightarrow> string \<Rightarrow> string list" where
  "normalize_tags tags reason_code resolved_status = fold add_tag tags
     ([''analyst_disposition'', strip resolved_status] @ (if strip reason_code = [] then [] else [''reason:'' @ strip reason_code]))"

text \<open>The data access merges tags differently: it compares with the untruncated tokens seen so far.\<close>

definition merge_tag :: "string \<Rightarrow> string list \<times> string list \<Rightarrow> string list \<times> string list" where
  "merge_tag raw st = (let token = strip raw in if token = [] \<or> token \<in> set (snd st) then st
     else (fst st @ [take 128 token], token # snd st))"

definition merge_tags :: "string list \<Rightarrow> string list \<Rightarrow> string list" where
  "merge_tags new_tags tags = fst (fold merge_tag new_tags (tags, tags))"

definition valid_entity_id :: "string \<Rightarrow> bool" where
  "valid_entity_id entity_id = (strip entity_id \<noteq> [] \<and> length (strip entity_id) \<le> 512)"

definition insert_label :: "label_row \<Rightarrow> label_row list \<Rightarrow> case_err + label_row \<times> label_row list" where
  "insert_label row labels = (if l_id row \<in> set (map l_id labels) then Inl DatabaseFailed else Inr (row, labels @ [row]))"

definition create_analyst_disposition ::
  "fresh_ids \<Rightarrow> int \<Rightarrow> string \<Rightarrow> string \<Rightarrow> string \<Rightarrow> string \<Rightarrow> string list \<Rightarrow> label_row list \<Rightarrow> case_err + label_row \<times> label_row list" where
  "create_analyst_disposition f hid entity_id gt reason_code resolved_status tags labels =
     (if hid < 1 \<or> \<not> valid_entity_id entity_id then Inl ValueRaised
      else insert_label \<lparr>l_id = f_label f, l_source_type = ''ANALYST_DISPOSITION'', l_source_id = f_source f hid,
             l_entity = strip entity_id, l_class = gt, l_tags = normalize_tags tags reason_code resolved_status,
             l_propagated = False\<rparr> labels)"

definition create_operational_signal_label ::
  "fresh_ids \<Rightarrow> string \<Rightarrow> string \<Rightarrow> string \<Rightarrow> string \<Rightarrow> string list \<Rightarrow> label_row list \<Rightarrow> case_err + label_row \<times> label_row list" where
  "create_operational_signal_label f signal_id source_type entity_id gt tags labels =
     (if strip source_type = [] \<or> \<not> valid_entity_id entity_id then Inl ValueRaised
      else insert_label \<lparr>l_id = f_label f, l_source_type = strip source_type, l_source_id = signal_id,
             l_entity = strip entity_id, l_class = gt, l_tags = merge_tags tags [], l_propagated = False\<rparr> labels)"

text \<open>\<open>None\<close> is the \<open>LookupError\<close>.\<close>

definition update_label :: "string \<Rightarrow> (label_row \<Rightarrow> label_row) \<Rightarrow> label_row list \<Rightarrow> label_row list option" where
  "update_label i g labels = (if i \<in> set (map l_id labels)
     then Some (map (\<lambda>l. if l_id l = i then g l else l) labels) else None)"

definition append_structural_tags :: "string \<Rightarrow> string list \<Rightarrow> label_row list \<Rightarrow> label_row list option" where
  "append_structural_tags i structural_tags = update_label i (\<lambda>l. l\<lparr>l_tags := merge_tags structural_tags (l_tags l)\<rparr>)"

definition mark_propagated :: "string \<Rightarrow> label_row list \<Rightarrow> label_row list option" where
  "mark_propagated i = update_label i (\<lambda>l. l\<lparr>l_propagated := True\<rparr>)"

text \<open>An outbox insert inside the transaction: its \<open>ValueError\<close> passes through, an integrity error is wrapped.\<close>

definition enqueue :: "int \<Rightarrow> nat \<Rightarrow> string \<Rightarrow> string \<Rightarrow> dict \<Rightarrow> outbox \<Rightarrow> case_err + outbox" where
  "enqueue now i e k p tbl = (case create_task now i e k p tbl of
      Inl BadArgument \<Rightarrow> Inl ValueRaised
    | Inl _ \<Rightarrow> Inl DatabaseFailed
    | Inr (_, tbl') \<Rightarrow> Inr tbl')"

definition build_label_propagate_payload :: "label_row \<Rightarrow> string \<Rightarrow> string \<Rightarrow> int \<Rightarrow> int \<Rightarrow> dict" where
  "build_label_propagate_payload l entity_id disposition_text hid aid =
     [(''schema'', PStr ''tarka.label_propagate.v1''), (''normalized_label_id'', PStr (l_id l)),
      (''entity_id'', PStr entity_id), (''source_type'', PStr (l_source_type l)), (''source_id'', PStr (l_source_id l)),
      (''ground_truth_class'', PStr (l_class l)), (''disposition_text'', PStr disposition_text),
      (''case_history_id'', PInt hid), (''audit_log_id'', PInt aid)]"

definition enqueue_label_propagate_task ::
  "fresh_ids \<Rightarrow> label_row \<Rightarrow> string \<Rightarrow> string \<Rightarrow> int \<Rightarrow> int \<Rightarrow> outbox \<Rightarrow> case_err + outbox" where
  "enqueue_label_propagate_task f l entity_id text hid aid tbl =
     enqueue (f_now f) (f_label_task f) ''LABEL_PROPAGATE'' (''label_propagate:'' @ l_id l)
       (build_label_propagate_payload l entity_id text hid aid) tbl"

definition shadow_retro_payload :: "string \<Rightarrow> string \<Rightarrow> string \<Rightarrow> string option \<Rightarrow> dict" where
  "shadow_retro_payload entity_id case_id new_status analyst_notes =
     [(''entity_id'', PStr entity_id), (''case_id'', PStr case_id), (''new_status'', PStr new_status)] @
     (case analyst_notes of None \<Rightarrow> []
      | Some n \<Rightarrow> if strip n = [] then [] else [(''analyst_notes'', PStr (strip n))])"

definition shadow_tag_key :: "string \<Rightarrow> case_status \<Rightarrow> string" where
  "shadow_tag_key case_id s = ''shadow_tag_case:'' @ case_id @ '':'' @ status_name s"

definition enqueue_shadow_retro_tag ::
  "fresh_ids \<Rightarrow> string \<Rightarrow> string \<Rightarrow> case_status \<Rightarrow> string option \<Rightarrow> outbox \<Rightarrow> case_err + outbox" where
  "enqueue_shadow_retro_tag f case_id entity_id s notes tbl =
     enqueue (f_now f) (f_tag_task f) ''SHADOW_RETRO_TAG'' (shadow_tag_key case_id s)
       (shadow_retro_payload entity_id case_id (status_name s) notes) tbl"

section \<open>The status route\<close>

record status_request =
  q_case :: string
  q_status :: string
  q_reason :: string
  q_token :: string
  q_graph :: bool
  q_agent_notes :: "string option"
  q_analyst_notes :: "string option"

record status_reply =
  p_case :: string
  p_status :: string
  p_history :: int
  p_audit :: int

definition request_notes :: "status_request \<Rightarrow> string option" where
  "request_notes q = (case q_analyst_notes q of Some n \<Rightarrow> Some n | None \<Rightarrow> q_agent_notes q)"

definition audit_action :: "string \<Rightarrow> string \<Rightarrow> string \<Rightarrow> string \<Rightarrow> string \<Rightarrow> string" where
  "audit_action cid old_status new_status actor_id justification = json_dumps False False (PDict
     [(''source'', PStr ''lifecycle_case_status_transition''), (''lifecycle_case_id'', PStr cid),
      (''old_status'', PStr old_status), (''new_status'', PStr new_status),
      (''actor_id'', PStr actor_id), (''justification'', PStr justification)])"

text \<open>The checks before the transaction.\<close>

definition check_request :: "bool \<Rightarrow> status_request \<Rightarrow> case_err + case_status" where
  "check_request configured q =
     (let cid = strip (q_case q) in
      if \<not> configured then Inl (HttpErr 503 ''audit_database_unconfigured'')
      else if cid = [] \<or> length cid > 64 \<or> CHR 0x00 \<in> set cid then Inl (HttpErr 422 ''invalid_case_id'')
      else if strip (q_reason q) = [] then Inl (HttpErr 422 ''missing_reason_code'')
      else if strip (q_token q) = [] then Inl (HttpErr 422 ''missing_auth_token'')
      else (case parse_status (strip (q_status q)) of None \<Rightarrow> Inl (HttpErr 422 ''invalid_status'')
        | Some s \<Rightarrow> Inr s))"

text \<open>Audit log, status and history of an accepted transition.\<close>

definition record_transition :: "string \<Rightarrow> case_row \<Rightarrow> case_status \<Rightarrow> status_request \<Rightarrow> db \<Rightarrow> db" where
  "record_transition cid row next q d =
     (let rc = strip (q_reason q); actor = sha256_hex (strip (q_token q)); shadow = strip (c_entity row);
          aid = db_next_audit d; hid = db_next_history d
      in d\<lparr>db_shadow := (if shadow \<in> set (db_shadow d) then db_shadow d else db_shadow d @ [shadow]),
          db_audit := db_audit d @ [\<lparr>a_id = aid, a_case = shadow,
            a_action = audit_action cid (c_status row) (status_name next) actor rc, a_notes = request_notes q\<rparr>],
          db_next_audit := aid + 1,
          db_cases := map (\<lambda>c. if c_id c = cid then c\<lparr>c_status := status_name next\<rparr> else c) (db_cases d),
          db_history := db_history d @ [\<lparr>h_id = hid, h_case = cid, h_audit = Some aid, h_from = Some (c_status row),
            h_to = Some (status_name next), h_reason = Some rc, h_actor = Some actor\<rparr>],
          db_next_history := hid + 1\<rparr>)"

definition add_label :: "fresh_ids \<Rightarrow> case_row \<Rightarrow> case_status \<Rightarrow> status_request \<Rightarrow> int \<Rightarrow> int \<Rightarrow> db \<Rightarrow> case_err + db" where
  "add_label f row next q hid aid d = (case ground_truth_class_for_resolved_status next of
      None \<Rightarrow> Inr d
    | Some gt \<Rightarrow> (case create_analyst_disposition f hid (c_entity row) gt (strip (q_reason q)) (status_name next) [] (db_labels d) of
          Inl e \<Rightarrow> Inl e
        | Inr (l, labels) \<Rightarrow> (case enqueue_label_propagate_task f l (c_entity row) (strip (q_reason q)) hid aid (db_outbox d) of
              Inl e \<Rightarrow> Inl e
            | Inr tbl \<Rightarrow> Inr (d\<lparr>db_labels := labels, db_outbox := tbl\<rparr>))))"

definition add_retro_tag :: "fresh_ids \<Rightarrow> string \<Rightarrow> case_row \<Rightarrow> case_status \<Rightarrow> status_request \<Rightarrow> db \<Rightarrow> case_err + db" where
  "add_retro_tag f cid row next q d = (if next \<in> set resolved_statuses then
      (case enqueue_shadow_retro_tag f cid (c_entity row) next (request_notes q) (db_outbox d) of
          Inl e \<Rightarrow> Inl e | Inr tbl \<Rightarrow> Inr (d\<lparr>db_outbox := tbl\<rparr>))
    else Inr d)"

definition transition_body :: "fresh_ids \<Rightarrow> string \<Rightarrow> case_status \<Rightarrow> status_request \<Rightarrow> db \<Rightarrow> case_err + (case_row \<times> case_status \<times> db)" where
  "transition_body f cid new q d = (case find (\<lambda>c. c_id c = cid) (db_cases d) of
      None \<Rightarrow> Inl (HttpErr 404 ''case_not_found'')
    | Some row \<Rightarrow> (case parse_status (c_status row) of
          None \<Rightarrow> Inl (HttpErr 409 ''corrupt_case_status'')
        | Some cur \<Rightarrow> (case transition_status cur new (Some (strip (q_reason q))) of
              None \<Rightarrow> Inl (HttpErr 409 ''illegal_transition'')
            | Some next \<Rightarrow>
                if strip (c_entity row) = [] then Inl (HttpErr 409 ''missing_entity_id'')
                else (case add_label f row next q (db_next_history d) (db_next_audit d) (record_transition cid row next q d) of
                    Inl e \<Rightarrow> Inl e
                  | Inr d1 \<Rightarrow> (case add_retro_tag f cid row next q d1 of
                        Inl e \<Rightarrow> Inl e
                      | Inr d2 \<Rightarrow> Inr (row, next, d2))))))"

text \<open>The result, the tables afterwards, and the user marked as fraud in the graph, if any.\<close>

definition put_lifecycle_case_status ::
  "bool \<Rightarrow> fresh_ids \<Rightarrow> status_request \<Rightarrow> db \<Rightarrow> (case_err + status_reply) \<times> db \<times> string option" where
  "put_lifecycle_case_status configured f q d = (case check_request configured q of
      Inl e \<Rightarrow> (Inl e, d, None)
    | Inr new \<Rightarrow> let cid = strip (q_case q) in (case transition_body f cid new q d of
          Inl e \<Rightarrow> (Inl e, d, None)
        | Inr (row, next, d') \<Rightarrow>
            (Inr \<lparr>p_case = cid, p_status = status_name next, p_history = db_next_history d, p_audit = db_next_audit d\<rparr>,
             d', if next = Resolved_Fraud \<and> q_graph q \<and> strip (c_link row) \<noteq> [] then Some (strip (c_link row)) else None)))"

section \<open>The status machine, analysed\<close>

lemma parse_status_name [simp]: "parse_status (status_name s) = Some s"
  by (cases s) (simp_all add: parse_status_def all_statuses_def)

lemma parse_status_Some: "parse_status n = Some s \<Longrightarrow> status_name s = n"
  by (auto simp: parse_status_def all_statuses_def split: if_splits)

lemma status_name_inject [simp]: "status_name s = status_name s' \<longleftrightarrow> s = s'"
  by (cases s; cases s') simp_all

text \<open>The adjacency map forbids nothing: only a reopening needs something, its reason.\<close>

lemma transition_status_eq:
  "transition_status cur new r =
     (if cur \<in> set resolved_statuses \<and> new \<notin> set resolved_statuses \<and> (case r of None \<Rightarrow> True | Some x \<Rightarrow> strip x = [])
      then None else Some new)"
  by (cases cur; cases new; cases r)
    (simp_all add: transition_status_def resolved_statuses_def reopen_targets_def)

lemma transition_with_reason: "strip r \<noteq> [] \<Longrightarrow> transition_status cur new (Some r) = Some new"
  by (simp add: transition_status_eq)

lemma check_request_Inr:
  "check_request configured q = Inr s \<longleftrightarrow>
     configured \<and> strip (q_case q) \<noteq> [] \<and> length (strip (q_case q)) \<le> 64 \<and> CHR 0x00 \<notin> set (strip (q_case q)) \<and>
     strip (q_reason q) \<noteq> [] \<and> strip (q_token q) \<noteq> [] \<and> strip (q_status q) = status_name s"
  by (auto simp: check_request_def Let_def dest: parse_status_Some split: option.splits)

section \<open>One request\<close>

lemma enqueue_Inr:
  "enqueue now i e k p tbl = Inr tbl' \<longleftrightarrow> (\<exists>row. create_task now i e k p tbl = Inr (row, tbl'))"
  by (auto simp: enqueue_def split: sum.split outbox_err.split)

text \<open>What a request does to the labels and the outbox, and the rest.\<close>

definition labelled :: "db \<Rightarrow> db \<Rightarrow> bool" where
  "labelled d d' = (\<exists>ls tbl. d' = d\<lparr>db_labels := ls, db_outbox := tbl\<rparr> \<and> outbox_step\<^sup>*\<^sup>* (db_outbox d) tbl)"

lemma labelled_refl: "labelled d d"
  unfolding labelled_def by (intro exI [of _ "db_labels d"] exI [of _ "db_outbox d"]) simp

lemma labelled_trans: "labelled d d1 \<Longrightarrow> labelled d1 d2 \<Longrightarrow> labelled d d2"
  unfolding labelled_def by fastforce

lemma labelled_enter:
  assumes "enqueue now i e k p (db_outbox d) = Inr tbl"
  shows "labelled d (d\<lparr>db_labels := ls, db_outbox := tbl\<rparr>)"
proof -
  have "outbox_step (db_outbox d) tbl" using assms enter unfolding enqueue_Inr by blast
  then show ?thesis unfolding labelled_def by blast
qed

lemma add_label_labelled: "add_label f row next q hid aid d = Inr d' \<Longrightarrow> labelled d d'"
  by (auto simp: add_label_def enqueue_label_propagate_task_def labelled_refl intro: labelled_enter
      split: option.splits sum.splits prod.splits)

lemma add_retro_tag_labelled:
  assumes "add_retro_tag f cid row next q d = Inr d'"
  shows "labelled d d'"
proof (cases "next \<in> set resolved_statuses")
  case True
  then obtain tbl where "enqueue_shadow_retro_tag f cid (c_entity row) next (request_notes q) (db_outbox d) = Inr tbl"
    and d': "d' = d\<lparr>db_outbox := tbl\<rparr>"
    using assms by (auto simp: add_retro_tag_def split: sum.splits)
  then have "labelled d (d\<lparr>db_labels := db_labels d, db_outbox := tbl\<rparr>)"
    unfolding enqueue_shadow_retro_tag_def by (metis labelled_enter)
  then show ?thesis by (simp add: d')
qed (use assms labelled_refl in \<open>simp add: add_retro_tag_def\<close>)

lemma transition_body_Inr:
  assumes "strip (q_reason q) \<noteq> []"
  shows "transition_body f cid new q d = Inr (row, next, d') \<longleftrightarrow>
    next = new \<and> find (\<lambda>c. c_id c = cid) (db_cases d) = Some row \<and> parse_status (c_status row) \<noteq> None \<and>
    strip (c_entity row) \<noteq> [] \<and>
    (\<exists>d1. add_label f row new q (db_next_history d) (db_next_audit d) (record_transition cid row new q d) = Inr d1 \<and>
      add_retro_tag f cid row new q d1 = Inr d')"
  using assms by (auto simp: transition_body_def transition_with_reason split: option.splits sum.splits if_splits)


lemma put_cases:
  assumes "put_lifecycle_case_status configured f q d = (res, d', g)"
  shows "(\<exists>e. res = Inl e \<and> d' = d \<and> g = None) \<or>
    (\<exists>r new row. res = Inr r \<and> check_request configured q = Inr new \<and>
       transition_body f (strip (q_case q)) new q d = Inr (row, new, d'))"
proof (cases "check_request configured q")
  case (Inr new)
  then have rc: "strip (q_reason q) \<noteq> []" by (simp add: check_request_Inr)
  show ?thesis
  proof (cases "transition_body f (strip (q_case q)) new q d")
    case (Inr x)
    then obtain row nxt d'' where x: "transition_body f (strip (q_case q)) new q d = Inr (row, nxt, d'')"
      by (cases x) auto
    then have "nxt = new" using transition_body_Inr [OF rc] by blast
    then show ?thesis using assms x \<open>check_request configured q = Inr new\<close>
      by (auto simp: put_lifecycle_case_status_def Let_def)
  qed (use assms Inr in \<open>auto simp: put_lifecycle_case_status_def Let_def\<close>)
qed (use assms in \<open>auto simp: put_lifecycle_case_status_def\<close>)

lemma body_effect:
  assumes "transition_body f cid new q d = Inr (row, new, d')" and rc: "strip (q_reason q) \<noteq> []"
  shows "row \<in> set (db_cases d)" and "c_id row = cid" and "labelled (record_transition cid row new q d) d'"
proof -
  note b = assms(1) [unfolded transition_body_Inr [OF rc]]
  then have f: "find (\<lambda>c. c_id c = cid) (db_cases d) = Some row" by blast
  then show "row \<in> set (db_cases d)" and "c_id row = cid" by (auto simp: find_Some_iff)
  show "labelled (record_transition cid row new q d) d'"
    using b add_label_labelled add_retro_tag_labelled labelled_trans by blast
qed

section \<open>Requests and workers together\<close>

inductive sys_step :: "db \<Rightarrow> db \<Rightarrow> bool" where
  request: "put_lifecycle_case_status configured f q d = (res, d', g) \<Longrightarrow> sys_step d d'"
| worker: "outbox_step (db_outbox d) tbl \<Longrightarrow> sys_step d (d\<lparr>db_outbox := tbl\<rparr>)"

inductive_cases sys_stepE: "sys_step d d'"

definition transitions :: "db \<Rightarrow> string \<Rightarrow> history_row list" where
  "transitions d cid = filter (\<lambda>h. h_case h = cid \<and> h_to h \<noteq> None) (db_history d)"

text \<open>The status after a list of recorded transitions; \<open>None\<close> when one does not start where the last ended.\<close>

fun replay :: "string \<Rightarrow> history_row list \<Rightarrow> string option" where
  "replay s [] = Some s"
| "replay s (h # hs) = (if h_from h = Some s then (case h_to h of None \<Rightarrow> None | Some s' \<Rightarrow> replay s' hs) else None)"

lemma replay_snoc:
  "replay s hs = Some t \<Longrightarrow> h_from h = Some t \<Longrightarrow> h_to h = Some u \<Longrightarrow> replay s (hs @ [h]) = Some u"
  by (induction hs arbitrary: s) (auto split: if_splits option.splits)

definition trail_ok :: "db \<Rightarrow> case_row \<Rightarrow> bool" where
  "trail_ok d c = (\<exists>s. replay s (transitions d (c_id c)) = Some (c_status c))"

definition logged :: "db \<Rightarrow> history_row \<Rightarrow> bool" where
  "logged d h = (\<exists>a \<in> set (db_audit d). h_audit h = Some (a_id a) \<and> (\<exists>from to actor reason.
     h_from h = Some from \<and> h_to h = Some to \<and> h_actor h = Some actor \<and> h_reason h = Some reason \<and>
     a_action a = audit_action (h_case h) from to actor reason))"

definition db_inv :: "db \<Rightarrow> bool" where
  "db_inv d = (distinct (map c_id (db_cases d)) \<and> list_all (trail_ok d) (db_cases d) \<and>
     list_all (logged d) (filter (\<lambda>h. h_to h \<noteq> None) (db_history d)) \<and>
     distinct (map h_audit (filter (\<lambda>h. h_to h \<noteq> None) (db_history d))) \<and>
     distinct (map a_id (db_audit d)) \<and> list_all (\<lambda>a. a_id a < db_next_audit d) (db_audit d) \<and> outbox_inv (db_outbox d))"

lemma record_trail:
  assumes "distinct (map c_id (db_cases d))" and ok: "\<forall>c \<in> set (db_cases d). trail_ok d c"
    and row: "row \<in> set (db_cases d)" "c_id row = cid"
    and c: "c \<in> set (db_cases (record_transition cid row new q d))"
  shows "trail_ok (record_transition cid row new q d) c"
proof -
  obtain c0 where c0: "c0 \<in> set (db_cases d)" "c = (if c_id c0 = cid then c0\<lparr>c_status := status_name new\<rparr> else c0)"
    using c by (auto simp: record_transition_def Let_def)
  obtain s where s: "replay s (transitions d (c_id c0)) = Some (c_status c0)" using ok c0 by (auto simp: trail_ok_def)
  show ?thesis
  proof (cases "c_id c0 = cid")
    case True
    then have "c0 = row" using assms(1) row c0(1) by (metis distinct_map inj_onD)
    let ?h = "\<lparr>h_id = db_next_history d, h_case = cid, h_audit = Some (db_next_audit d), h_from = Some (c_status row),
       h_to = Some (status_name new), h_reason = Some (strip (q_reason q)), h_actor = Some (sha256_hex (strip (q_token q)))\<rparr>"
    have "transitions (record_transition cid row new q d) cid = transitions d cid @ [?h]"
      by (simp add: transitions_def record_transition_def Let_def)
    moreover have "replay s (transitions d cid @ [?h]) = Some (status_name new)"
      using s \<open>c0 = row\<close> row by (intro replay_snoc) auto
    ultimately show ?thesis using True c0(2) by (auto simp: trail_ok_def)
  next
    case False
    then have "transitions (record_transition cid row new q d) (c_id c0) = transitions d (c_id c0)"
      by (simp add: transitions_def record_transition_def Let_def)
    then show ?thesis using s False c0(2) by (auto simp: trail_ok_def)
  qed
qed

lemma record_inv:
  assumes inv: "db_inv d" and row: "row \<in> set (db_cases d)" "c_id row = cid"
  shows "db_inv (record_transition cid row new q d)"
proof -
  let ?d = "record_transition cid row new q d"
  have ids: "map c_id (db_cases ?d) = map c_id (db_cases d)" by (simp add: record_transition_def Let_def)
  have "list_all (trail_ok ?d) (db_cases ?d)"
    using record_trail [OF _ _ row] inv by (simp add: db_inv_def list_all_iff)
  moreover have "list_all (logged ?d) (filter (\<lambda>h. h_to h \<noteq> None) (db_history ?d))"
  proof -
    have "logged ?d h" if "logged d h" for h
      using that by (auto simp: logged_def record_transition_def Let_def)
    then show ?thesis using inv
      by (auto simp: db_inv_def list_all_iff record_transition_def Let_def logged_def)
  qed
  moreover have "distinct (map h_audit (filter (\<lambda>h. h_to h \<noteq> None) (db_history ?d)))"
  proof -
    have "Some (db_next_audit d) \<notin> h_audit ` set (filter (\<lambda>h. h_to h \<noteq> None) (db_history d))"
      using inv by (fastforce simp: db_inv_def list_all_iff logged_def)
    then show ?thesis using inv by (simp add: db_inv_def record_transition_def Let_def)
  qed
  moreover have "distinct (map a_id (db_audit ?d))" "list_all (\<lambda>a. a_id a < db_next_audit ?d) (db_audit ?d)"
    using inv by (fastforce simp: db_inv_def list_all_iff record_transition_def Let_def)+
  moreover have "outbox_inv (db_outbox ?d)" using inv by (simp add: db_inv_def record_transition_def Let_def)
  ultimately show ?thesis using inv ids by (simp add: db_inv_def)
qed

lemma labelled_inv:
  assumes "db_inv d" and "labelled d d'"
  shows "db_inv d'"
proof -
  obtain ls tbl where d': "d' = d\<lparr>db_labels := ls, db_outbox := tbl\<rparr>" and s: "outbox_step\<^sup>*\<^sup>* (db_outbox d) tbl"
    using assms(2) by (auto simp: labelled_def)
  have "outbox_inv tbl" using ob.steps_keep [OF s] assms(1) by (simp add: db_inv_def)
  moreover have "trail_ok d' = trail_ok d" "logged d' = logged d"
    by (simp_all add: fun_eq_iff trail_ok_def logged_def transitions_def d')
  ultimately show ?thesis using assms(1) by (simp add: db_inv_def d')
qed

text \<open>Rows that are only added and keys that stay.\<close>

definition db_grows :: "db \<Rightarrow> db \<Rightarrow> bool" where
  "db_grows d d' = ((\<exists>hs. db_history d' = db_history d @ hs) \<and> (\<exists>as. db_audit d' = db_audit d @ as) \<and>
     set (map t_key (db_outbox d)) \<subseteq> set (map t_key (db_outbox d')))"

lemma db_grows_refl: "db_grows d d"
  by (simp add: db_grows_def)

lemma db_grows_trans: "db_grows d d1 \<Longrightarrow> db_grows d1 d2 \<Longrightarrow> db_grows d d2"
  by (fastforce simp: db_grows_def)

lemma labelled_grows:
  assumes "db_inv d" and "labelled d d'"
  shows "db_grows d d'"
proof -
  obtain ls tbl where d': "d' = d\<lparr>db_labels := ls, db_outbox := tbl\<rparr>" and s: "outbox_step\<^sup>*\<^sup>* (db_outbox d) tbl"
    using assms(2) by (auto simp: labelled_def)
  have "outbox_inv (db_outbox d)" using assms(1) by (simp add: db_inv_def)
  then show ?thesis using ob.steps_keep [OF s] rows_kept_keys by (fastforce simp: db_grows_def d')
qed

lemma record_grows: "db_grows d (record_transition cid row new q d)"
  by (simp add: db_grows_def record_transition_def Let_def)

lemma put_keeps:
  assumes inv: "db_inv d" and p: "put_lifecycle_case_status configured f q d = (res, d', g)"
  shows "db_inv d' \<and> db_grows d d'"
  using put_cases [OF p]
proof (elim disjE exE conjE)
  fix r new row
  assume c: "check_request configured q = Inr new" and b: "transition_body f (strip (q_case q)) new q d = Inr (row, new, d')"
  have rc: "strip (q_reason q) \<noteq> []" using c by (simp add: check_request_Inr)
  note e = body_effect [OF b rc]
  note i = record_inv [OF inv e(1, 2), of new q]
  show ?thesis using labelled_inv [OF i e(3)] labelled_grows [OF i e(3)] record_grows db_grows_trans by blast
qed (use inv db_grows_refl in auto)

lemma sys_step_keeps:
  assumes "sys_step d d'" and inv: "db_inv d"
  shows "db_inv d' \<and> db_grows d d'"
  using assms(1)
proof cases
  case (worker tbl)
  have "labelled d (d\<lparr>db_labels := db_labels d, db_outbox := tbl\<rparr>)" using worker(2) unfolding labelled_def by blast
  then have "labelled d d'" by (simp add: worker(1))
  then show ?thesis using labelled_inv [OF inv] labelled_grows [OF inv] by blast
qed (use put_keeps [OF inv] in blast)

interpretation cs: growing_store sys_step db_inv db_grows
  using db_grows_refl db_grows_trans sys_step_keeps by unfold_locales blast+

section \<open>When a request succeeds\<close>

text \<open>The ids of the new rows are new, as UUIDs and sequences are, and the label id fits its key.\<close>

definition ids_fresh :: "fresh_ids \<Rightarrow> db \<Rightarrow> bool" where
  "ids_fresh f d = (1 \<le> db_next_history d \<and> f_label f \<notin> set (map l_id (db_labels d)) \<and>
     f_label_task f \<noteq> f_tag_task f \<and> {f_label_task f, f_tag_task f} \<inter> set (map t_id (db_outbox d)) = {} \<and>
     ''label_propagate:'' @ f_label f \<notin> set (map t_key (db_outbox d)) \<and>
     f_label f \<noteq> [] \<and> \<not> is_space (last (f_label f)) \<and> length (f_label f) \<le> 200)"

lemma key_normal:
  assumes "pre \<noteq> []" "\<not> is_space (hd pre)" "s \<noteq> []" "\<not> is_space (last s)" "length pre + length s \<le> 255"
  shows "normalize_idempotency_key (pre @ s) = Some (pre @ s)"
proof -
  have "strip (pre @ s) = pre @ s" using assms by (intro strip_eqI) simp_all
  then show ?thesis using assms by (simp add: normalize_idempotency_key_def)
qed

lemma shadow_key_normal:
  assumes "length cid \<le> 64"
  shows "normalize_idempotency_key (shadow_tag_key cid s) = Some (shadow_tag_key cid s)"
proof -
  have "normalize_idempotency_key (''shadow_tag_case:'' @ (cid @ '':'' @ status_name s)) = Some (''shadow_tag_case:'' @ (cid @ '':'' @ status_name s))"
    using assms by (intro key_normal; cases s) (simp_all add: is_space_def)
  then show ?thesis by (simp add: shadow_tag_key_def)
qed

lemma shadow_key_not_label: "shadow_tag_key cid s \<noteq> ''label_propagate:'' @ x"
  by (simp add: shadow_tag_key_def)

lemma event_normal:
  "normalize_event_type ''SHADOW_RETRO_TAG'' = Some ''SHADOW_RETRO_TAG''"
  "normalize_event_type ''LABEL_PROPAGATE'' = Some ''LABEL_PROPAGATE''"
  by code_simp+

lemma add_retro_tag_ok:
  assumes "length cid \<le> 64" and "f_tag_task f \<notin> set (map t_id (db_outbox d))"
  shows "(\<exists>d'. add_retro_tag f cid row new q d = Inr d') \<longleftrightarrow>
    (new \<in> set resolved_statuses \<longrightarrow> shadow_tag_key cid new \<notin> set (map t_key (db_outbox d)))"
  using assms
  by (simp add: add_retro_tag_def enqueue_shadow_retro_tag_def enqueue_def create_task_def event_normal shadow_key_normal Let_def)

lemma add_label_ok:
  assumes f: "ids_fresh f d" and e: "valid_entity_id (c_entity row)" and h: "1 \<le> hid"
    and d0: "db_labels d0 = db_labels d" "db_outbox d0 = db_outbox d"
  shows "\<exists>d1. add_label f row new q hid aid d0 = Inr d1 \<and> f_tag_task f \<notin> set (map t_id (db_outbox d1)) \<and>
    (shadow_tag_key cid s \<in> set (map t_key (db_outbox d1)) \<longleftrightarrow> shadow_tag_key cid s \<in> set (map t_key (db_outbox d)))"
proof (cases "ground_truth_class_for_resolved_status new")
  case None
  then show ?thesis using f by (auto simp: add_label_def ids_fresh_def d0)
next
  case (Some gt)
  have k: "normalize_idempotency_key (''label_propagate:'' @ f_label f) = Some (''label_propagate:'' @ f_label f)"
    using f by (intro key_normal) (simp_all add: is_space_def ids_fresh_def)
  have "\<exists>l ls. create_analyst_disposition f hid (c_entity row) gt (strip (q_reason q)) (status_name new) [] (db_labels d) = Inr (l, ls) \<and>
      l_id l = f_label f"
    using f e h by (simp add: create_analyst_disposition_def insert_label_def ids_fresh_def)
  then obtain l ls where l: "create_analyst_disposition f hid (c_entity row) gt (strip (q_reason q)) (status_name new) [] (db_labels d) = Inr (l, ls)"
    "l_id l = f_label f" by blast
  define p where "p = build_label_propagate_payload l (c_entity row) (strip (q_reason q)) hid aid"
  have "create_task (f_now f) (f_label_task f) ''LABEL_PROPAGATE'' (''label_propagate:'' @ f_label f) p (db_outbox d) =
     (let r = new_task (f_now f) (f_label_task f) ''LABEL_PROPAGATE'' (''label_propagate:'' @ f_label f) p in Inr (r, db_outbox d @ [r]))"
    using f unfolding create_task_def event_normal k by (simp add: ids_fresh_def)
  then show ?thesis using f shadow_key_not_label [of cid s]
    by (simp add: add_label_def Some l d0 enqueue_label_propagate_task_def enqueue_def Let_def new_task_def ids_fresh_def
        flip: p_def)
qed

lemma retro_tag_key:
  assumes "add_retro_tag f cid row s q d = Inr d'" "s \<in> set resolved_statuses" "length cid \<le> 64"
  shows "shadow_tag_key cid s \<in> set (map t_key (db_outbox d'))" and "shadow_tag_key cid s \<notin> set (map t_key (db_outbox d))"
  using assms by (auto simp: add_retro_tag_def enqueue_shadow_retro_tag_def enqueue_def create_task_def event_normal
      shadow_key_normal Let_def new_task_def split: if_splits)

text \<open>A request that resolves a case enters the key of its tag task, which was not there before.\<close>

lemma resolving_key:
  assumes inv: "db_inv d" and p: "put_lifecycle_case_status configured f q d = (Inr r, d', g)"
    and s: "strip (q_status q) = status_name s" "s \<in> set resolved_statuses"
  shows "shadow_tag_key (strip (q_case q)) s \<in> set (map t_key (db_outbox d'))"
    and "shadow_tag_key (strip (q_case q)) s \<notin> set (map t_key (db_outbox d))"
proof -
  let ?cid = "strip (q_case q)"
  obtain new row where c: "check_request configured q = Inr new" and b: "transition_body f ?cid new q d = Inr (row, new, d')"
    using put_cases [OF p] by auto
  have new: "new = s" and len: "length ?cid \<le> 64" and rc: "strip (q_reason q) \<noteq> []"
    using c s(1) unfolding check_request_Inr by simp_all
  let ?d0 = "record_transition ?cid row new q d"
  obtain d1 where l: "add_label f row new q (db_next_history d) (db_next_audit d) ?d0 = Inr d1"
    and t: "add_retro_tag f ?cid row new q d1 = Inr d'"
    using b unfolding transition_body_Inr [OF rc] by blast
  note k = retro_tag_key [OF t [unfolded new] s(2) len]
  show "shadow_tag_key ?cid s \<in> set (map t_key (db_outbox d'))" by (rule k(1))
  have "db_inv ?d0" using record_inv [OF inv] body_effect(1, 2) [OF b rc] by blast
  then have "db_grows d d1" using labelled_grows add_label_labelled [OF l] record_grows db_grows_trans by blast
  then show "shadow_tag_key ?cid s \<notin> set (map t_key (db_outbox d))" using k(2) by (auto simp: db_grows_def)
qed

lemma put_ok_body:
  assumes "check_request configured q = Inr new"
  shows "(\<exists>r d' g. put_lifecycle_case_status configured f q d = (Inr r, d', g)) \<longleftrightarrow>
    (\<exists>row d'. transition_body f (strip (q_case q)) new q d = Inr (row, new, d'))"
proof -
  have rc: "strip (q_reason q) \<noteq> []" using assms by (simp add: check_request_Inr)
  have "transition_body f (strip (q_case q)) new q d = Inr (row, nxt, d') \<Longrightarrow> nxt = new" for row nxt d'
    using transition_body_Inr [OF rc] by blast
  then show ?thesis
    by (cases "transition_body f (strip (q_case q)) new q d") (auto simp: put_lifecycle_case_status_def assms Let_def)
qed

lemma transition_body_ok:
  assumes f: "ids_fresh f d" and e: "\<forall>c \<in> set (db_cases d). length (strip (c_entity c)) \<le> 512"
    and rc: "strip (q_reason q) \<noteq> []" and len: "length cid \<le> 64"
  shows "(\<exists>d'. transition_body f cid new q d = Inr (row, new, d')) \<longleftrightarrow>
    find (\<lambda>c. c_id c = cid) (db_cases d) = Some row \<and> parse_status (c_status row) \<noteq> None \<and> strip (c_entity row) \<noteq> [] \<and>
    (new \<in> set resolved_statuses \<longrightarrow> shadow_tag_key cid new \<notin> set (map t_key (db_outbox d)))"
proof -
  let ?d0 = "record_transition cid row new q d"
  let ?ok = "find (\<lambda>c. c_id c = cid) (db_cases d) = Some row \<and> parse_status (c_status row) \<noteq> None \<and> strip (c_entity row) \<noteq> []"
  have "(\<exists>d1 d'. add_label f row new q (db_next_history d) (db_next_audit d) ?d0 = Inr d1 \<and> add_retro_tag f cid row new q d1 = Inr d') \<longleftrightarrow>
     (new \<in> set resolved_statuses \<longrightarrow> shadow_tag_key cid new \<notin> set (map t_key (db_outbox d)))" if ok: ?ok
  proof -
    have "row \<in> set (db_cases d)" using ok by (auto simp: find_Some_iff)
    then have "valid_entity_id (c_entity row)" using ok e by (simp add: valid_entity_id_def)
    moreover have "1 \<le> db_next_history d" using f by (simp add: ids_fresh_def)
    moreover have "db_labels ?d0 = db_labels d" "db_outbox ?d0 = db_outbox d" by (simp_all add: record_transition_def Let_def)
    ultimately obtain d1 where d1: "add_label f row new q (db_next_history d) (db_next_audit d) ?d0 = Inr d1"
      "f_tag_task f \<notin> set (map t_id (db_outbox d1))"
      "shadow_tag_key cid new \<in> set (map t_key (db_outbox d1)) \<longleftrightarrow> shadow_tag_key cid new \<in> set (map t_key (db_outbox d))"
      using add_label_ok [OF f] by blast
    then show ?thesis using add_retro_tag_ok [OF len d1(2), of row new q] by simp
  qed
  then show ?thesis unfolding transition_body_Inr [OF rc] by blast
qed

section \<open>An example\<close>

definition example_db :: "string \<Rightarrow> db" where
  "example_db st = \<lparr>db_cases = [\<lparr>c_id = ''c1'', c_transaction = 1, c_link = ''u1'', c_entity = ''e1'', c_status = st,
      c_assignee = None, c_priority = 0\<rparr>],
     db_shadow = [], db_audit = [], db_next_audit = 1, db_history = [], db_next_history = 1, db_labels = [], db_outbox = []\<rparr>"

definition example_ids :: fresh_ids where
  "example_ids = \<lparr>f_now = 5, f_label = ''l1'', f_label_task = 0, f_tag_task = 1, f_source = (\<lambda>_. ''s1'')\<rparr>"

definition example_request :: status_request where
  "example_request = \<lparr>q_case = ''c1'', q_status = ''RESOLVED_FRAUD'', q_reason = ''stolen card'', q_token = ''tok'',
     q_graph = True, q_agent_notes = None, q_analyst_notes = None\<rparr>"

lemma example_inv: "db_inv (example_db st)"
proof -
  have "replay st (transitions (example_db st) ''c1'') = Some st" by (simp add: transitions_def example_db_def)
  then have "trail_ok (example_db st) c" if "c \<in> set (db_cases (example_db st))" for c
    using that by (auto simp: trail_ok_def example_db_def)
  then have "list_all (trail_ok (example_db st)) (db_cases (example_db st))" by (simp add: list_all_iff)
  then show ?thesis by (simp add: db_inv_def example_db_def outbox_inv_def)
qed

lemma example_fresh: "ids_fresh example_ids (example_db st)"
  by (simp add: ids_fresh_def example_ids_def example_db_def is_space_def)

lemma example_check: "check_request True example_request = Inr Resolved_Fraud"
  by code_simp

lemma example_accepted:
  "\<exists>r d' g. put_lifecycle_case_status True example_ids example_request (example_db ''OPEN'') = (Inr r, d', g)"
proof -
  have rc: "strip (q_reason example_request) \<noteq> []" and len: "length (strip (q_case example_request)) \<le> 64"
    using example_check unfolding check_request_Inr by simp_all
  have e: "\<forall>c \<in> set (db_cases (example_db ''OPEN'')). length (strip (c_entity c)) \<le> 512" by code_simp
  have "find (\<lambda>c. c_id c = strip (q_case example_request)) (db_cases (example_db ''OPEN'')) = Some (hd (db_cases (example_db ''OPEN'')))"
    by code_simp
  moreover have "parse_status (c_status (hd (db_cases (example_db ''OPEN'')))) \<noteq> None" by code_simp
  moreover have "strip (c_entity (hd (db_cases (example_db ''OPEN'')))) \<noteq> []" by code_simp
  moreover have "db_outbox (example_db ''OPEN'') = []" by (simp add: example_db_def)
  ultimately show ?thesis
    unfolding put_ok_body [OF example_check] using transition_body_ok [OF example_fresh e rc len] by auto
qed

section \<open>Properties\<close>

text \<open>
  C5: the audit trail of lifecycle cases is complete.  However status requests and outbox workers
  are interleaved, replaying the recorded transitions of a case gives its current status,
  every recorded transition has an audit log of its own that names the same case, statuses, actor
  and reason, case ids and the keys and ids of the outbox stay unique, and history rows
  and audit logs are only ever added.
\<close>

theorem audit_trail_complete:
  assumes "db_inv d" and "sys_step\<^sup>*\<^sup>* d d'"
  shows "db_inv d' \<and> (\<exists>hs. db_history d' = db_history d @ hs) \<and> (\<exists>as. db_audit d' = db_audit d @ as)"
  using cs.steps_keep [OF assms(2, 1)] by (simp add: db_grows_def)

theorem audit_trail_complete_witness:
  "\<exists>d' r g. put_lifecycle_case_status True example_ids example_request (example_db ''OPEN'') = (Inr r, d', g) \<and> db_inv d'"
proof -
  obtain r d' g where p: "put_lifecycle_case_status True example_ids example_request (example_db ''OPEN'') = (Inr r, d', g)"
    using example_accepted by blast
  then have "sys_step\<^sup>*\<^sup>* (example_db ''OPEN'') d'" using request by blast
  then show ?thesis using audit_trail_complete [OF example_inv] p by blast
qed

text \<open>
  Exactly when a status change is accepted.  Given unused ids for the new rows and entity ids
  within the width of their column, a request is accepted exactly when its arguments are well formed,
  the case exists with a known status and an entity, and, for a resolution, the case was not
  resolved to that status before.  No pair of statuses is refused: the reason every request must
  carry also serves as the reason for reopening.
\<close>

theorem status_change_exact:
  assumes f: "ids_fresh f d" and e: "\<forall>c \<in> set (db_cases d). length (strip (c_entity c)) \<le> 512"
  shows "(\<exists>r d' g. put_lifecycle_case_status True f q d = (Inr r, d', g)) \<longleftrightarrow>
    (\<exists>new row. check_request True q = Inr new \<and> find (\<lambda>c. c_id c = strip (q_case q)) (db_cases d) = Some row \<and>
      parse_status (c_status row) \<noteq> None \<and> strip (c_entity row) \<noteq> [] \<and>
      (new \<in> set resolved_statuses \<longrightarrow> shadow_tag_key (strip (q_case q)) new \<notin> set (map t_key (db_outbox d))))"
proof (cases "check_request True q")
  case (Inr new)
  then have rc: "strip (q_reason q) \<noteq> []" and len: "length (strip (q_case q)) \<le> 64" by (simp_all add: check_request_Inr)
  show ?thesis unfolding put_ok_body [OF Inr] transition_body_ok [OF f e rc len] using Inr by simp
qed (simp add: put_lifecycle_case_status_def)

theorem status_change_exact_witness:
  "\<exists>r d' g. put_lifecycle_case_status True example_ids example_request (example_db ''RESOLVED_LEGIT'') = (Inr r, d', g)"
proof -
  let ?d = "example_db ''RESOLVED_LEGIT''"
  have e: "\<forall>c \<in> set (db_cases ?d). length (strip (c_entity c)) \<le> 512" by code_simp
  have "find (\<lambda>c. c_id c = strip (q_case example_request)) (db_cases ?d) = Some (hd (db_cases ?d))" by code_simp
  moreover have "parse_status (c_status (hd (db_cases ?d))) \<noteq> None" by code_simp
  moreover have "strip (c_entity (hd (db_cases ?d))) \<noteq> []" by code_simp
  moreover have "db_outbox ?d = []" by (simp add: example_db_def)
  ultimately show ?thesis unfolding status_change_exact [OF example_fresh e] using example_check by auto
qed

text \<open>
  C31: a case can be resolved to a status once only.  After a request has resolved a case, and
  whatever requests and workers do afterwards, reopening the case included, no later request can resolve it to
  that status again: the key of its tag task does not name the transition, it is still in the outbox,
  and the unique index makes the whole transaction fail and leaves the tables as they were.
\<close>

theorem resolved_again_fails:
  assumes "db_inv d" and "put_lifecycle_case_status configured f q d = (Inr r, d1, g)"
    and "strip (q_status q) = status_name s" and "s \<in> set resolved_statuses"
    and "sys_step\<^sup>*\<^sup>* d1 d2" and "strip (q_case q') = strip (q_case q)" and "strip (q_status q') = strip (q_status q)"
  shows "\<exists>e. put_lifecycle_case_status configured' f' q' d2 = (Inl e, d2, None)"
proof -
  have "db_inv d1" using put_keeps [OF assms(1, 2)] by blast
  note g2 = cs.steps_keep [OF assms(5) this]
  then have k: "shadow_tag_key (strip (q_case q')) s \<in> set (map t_key (db_outbox d2))"
    using resolving_key(1) [OF assms(1, 2, 3, 4)] by (auto simp: db_grows_def assms(6))
  obtain res d3 g3 where p: "put_lifecycle_case_status configured' f' q' d2 = (res, d3, g3)"
    by (cases "put_lifecycle_case_status configured' f' q' d2") auto
  have "\<not> (\<exists>r'. res = Inr r')"
    using resolving_key(2) [of d2 configured' f' q' _ d3 g3 s] g2 p k assms(3, 4, 7) by auto
  then show ?thesis using put_cases [OF p] p by auto
qed

theorem resolved_again_fails_witness:
  "\<exists>r d1 g e. put_lifecycle_case_status True example_ids example_request (example_db ''OPEN'') = (Inr r, d1, g) \<and>
     put_lifecycle_case_status True (example_ids\<lparr>f_label := ''l2'', f_label_task := 2, f_tag_task := 3\<rparr>) example_request d1 = (Inl e, d1, None)"
proof -
  obtain r d1 g where p: "put_lifecycle_case_status True example_ids example_request (example_db ''OPEN'') = (Inr r, d1, g)"
    using example_accepted by blast
  have "strip (q_status example_request) = status_name Resolved_Fraud" by code_simp
  then show ?thesis
    using resolved_again_fails [OF example_inv p, of Resolved_Fraud d1 example_request True] p
    by (auto simp: resolved_statuses_def)
qed

end
