(* ===== verification/Access_Control.thy ===== *)
theory Access_Control
  imports Desk_Provision Sha256
begin

text \<open>
  Who may call a service: \<open>shared/tenant_binding.py\<close> (tenant scopes), \<open>shared/auth_rbac.py\<close> (the
  authentication middleware and the role dependencies), \<open>shared/auth.py\<close> (the API-key dependency) and
  \<open>shared/tarka_request_signature.py\<close> (signed requests).

  A request is what these functions read of it: one value per name in each mapping (what \<open>.get\<close> returns),
  header names in lower case, and \<open>None\<close> for a body that is not JSON.  The process environment is the \<open>host\<close> of the desk provisioning.  Parameters: the decoding
  of one JSON variable, the JWT library and the documents fetched from the identity provider.  A Python set
  is a list without duplicates.
\<close>

section \<open>Requests and answers\<close>

record request =
  rq_path :: string
  rq_headers :: "(string \<times> string) list"
  rq_query :: "(string \<times> string) list"
  rq_path_params :: "(string \<times> string) list"
  rq_cookies :: "(string \<times> string) list"
  rq_json :: "pyval option"

datatype auth_err = HttpError int string | OtherError

definition entry :: "(string \<times> string) list \<Rightarrow> string \<Rightarrow> string" where
  "entry d k = opt_str (map_of d k)"

section \<open>Tenant binding\<close>

definition probe_paths :: "string list" where
  "probe_paths = [''/v1/health'', ''/v1/ready'', ''/v1/health/deep'', ''/health'', ''/health/deep'', ''/metrics'',
     ''/decisions/v1/health'', ''/decisions/v1/ready'', ''/cases/v1/health'', ''/cases/v1/ready'']"

definition tenant_binding_required :: "host \<Rightarrow> bool" where
  "tenant_binding_required h = (lower (env_text h ''TENANT_BINDING_REQUIRED'') \<in> set [''1'', ''true'', ''yes'', ''on''])"

definition helm_environment_is_prod :: "host \<Rightarrow> bool" where
  "helm_environment_is_prod h = (let a = opt_str (env_raw h ''TARKA_HELM_ENVIRONMENT''); b = opt_str (env_raw h ''TARKA_ENVIRONMENT'')
     in lower (strip (if a \<noteq> [] then a else b)) = ''prod'')"

definition production_profile :: "host \<Rightarrow> bool" where
  "production_profile h = (lower (env_text h ''TARKA_DEPLOYMENT_PROFILE'') = ''production'')"

definition production_tenant_lock :: "host \<Rightarrow> bool" where
  "production_tenant_lock h = (production_profile h \<or> helm_environment_is_prod h)"

fun tenants_of_value :: "pyval \<Rightarrow> string list" where
  "tenants_of_value (PStr s) = (if strip s = [] then [] else [strip s])"
| "tenants_of_value (PList vs) = remdups (filter (\<lambda>t. t \<noteq> []) (map (\<lambda>v. strip (py_str v)) vs))"
| "tenants_of_value _ = []"

definition add_key_tenants :: "string \<times> pyval \<Rightarrow> (string \<times> string list) list \<Rightarrow> (string \<times> string list) list" where
  "add_key_tenants kv out = (let k = strip (fst kv) in if k = [] then out else AList.update k (tenants_of_value (snd kv)) out)"

text \<open>\<open>loads\<close> is \<open>json.loads\<close>, \<open>None\<close> when it raises; the left side is the text of the \<open>TenantMapConfigError\<close>.\<close>

definition parse_api_key_tenant_map :: "(string \<Rightarrow> pyval option) \<Rightarrow> host \<Rightarrow> string + (string \<times> string list) list" where
  "parse_api_key_tenant_map loads h = (let raw = env_text h ''API_KEY_TENANT_MAP'' in
     if raw = [] then Inr []
     else (case loads raw of
         None \<Rightarrow> Inl ''API_KEY_TENANT_MAP is not valid JSON (fail closed)''
       | Some (PDict payload) \<Rightarrow> (let out = fold add_key_tenants payload [] in
           if production_tenant_lock h \<and> list_ex (\<lambda>(k, ts). ''*'' \<in> set ts) out
           then Inl (''API_KEY_TENANT_MAP must not grant '' @ [CHR 0x27, CHR 0x2A, CHR 0x27] @ '' tenant scope in production'') else Inr out)
       | Some _ \<Rightarrow> Inl ''API_KEY_TENANT_MAP must be a JSON object''))"

definition tenants_from_claims :: "dict \<Rightarrow> string list" where
  "tenants_from_claims claims = remdups (concat (map (\<lambda>k. tenants_of_value (dget claims k)) [''tenant_id'', ''tenant'', ''tenant_ids'', ''tenants'']))"

definition request_tenant_id :: "request \<Rightarrow> string option" where
  "request_tenant_id rq = (let q = strip (entry (rq_query rq) ''tenant_id''); p = strip (entry (rq_path_params rq) ''tenant_id'');
       hd = strip (entry (rq_headers rq) ''x-tenant-id'') in
     if q \<noteq> [] then Some q else if p \<noteq> [] then Some p else if hd \<noteq> [] then Some hd
     else if \<not> contains_str (lower (entry (rq_headers rq) ''content-type'')) ''application/json'' then None
     else (case rq_json rq of
         Some (PDict payload) \<Rightarrow> (let t = strip (str_or_empty (dget payload ''tenant_id'')) in if t = [] then None else Some t)
       | _ \<Rightarrow> None))"

definition is_tenant_allowed :: "string list \<Rightarrow> string \<Rightarrow> bool" where
  "is_tenant_allowed allowed t = (''*'' \<in> set allowed \<or> t \<in> set allowed)"

definition enforce_tenant_access :: "host \<Rightarrow> request \<Rightarrow> string list option \<Rightarrow> bool option \<Rightarrow> auth_err + unit" where
  "enforce_tenant_access h rq allowed strict =
     (if rq_path rq \<in> set probe_paths then Inr ()
      else if \<not> (case strict of None \<Rightarrow> tenant_binding_required h | Some b \<Rightarrow> b) then Inr ()
      else (case request_tenant_id rq of
          None \<Rightarrow> Inl (HttpError 400 ''tenant_id is required'')
        | Some t \<Rightarrow> (case allowed of
            None \<Rightarrow> Inl (HttpError 403 ''tenant binding is required but caller has no tenant scope'')
          | Some ts \<Rightarrow> if is_tenant_allowed ts t then Inr () else Inl (HttpError 403 (''tenant '' @ [CHR 0x27] @ t @ [CHR 0x27] @ '' is outside caller scope'')))))"

section \<open>Tokens\<close>

record jwks_cache =
  jc_keys :: pyval
  jc_at :: rat

text \<open>
  \<open>fetch\<close> is the JSON document at a URL, \<open>None\<close> when the call raises; \<open>now\<close> and \<open>now'\<close> are the clock before and after the
  fetch.  \<open>httpx\<close> raises on a URL that is not a string, and \<open>.get\<close> raises on a document that is not an object.
\<close>

definition discovered_url :: "pyval option \<Rightarrow> string option" where
  "discovered_url doc = (case doc of
       Some (PDict d) \<Rightarrow> (case dget_or d ''jwks_uri'' (PStr []) of PStr u \<Rightarrow> Some u | v \<Rightarrow> if truthy v then None else Some [])
     | _ \<Rightarrow> None)"

definition fetch_jwks :: "string \<Rightarrow> string \<Rightarrow> (string \<Rightarrow> pyval option) \<Rightarrow> rat \<Rightarrow> rat \<Rightarrow> jwks_cache \<Rightarrow> (auth_err + pyval) \<times> jwks_cache" where
  "fetch_jwks issuer jwks_url fetch now now' c =
     (if truthy (jc_keys c) \<and> now - jc_at c < 3600 then (Inr (jc_keys c), c)
      else (case (if jwks_url = [] \<and> issuer \<noteq> []
              then discovered_url (fetch (rev (dropWhile (\<lambda>x. x = CHR ''/'') (rev issuer)) @ ''/.well-known/openid-configuration''))
              else Some jwks_url) of
          None \<Rightarrow> (Inl OtherError, c)
        | Some u \<Rightarrow> if u = [] then (Inr (PDict []), c)
            else (case fetch u of None \<Rightarrow> (Inl OtherError, c)
              | Some ks \<Rightarrow> (Inr ks, \<lparr>jc_keys = ks, jc_at = now'\<rparr>))))"

text \<open>The JWT library: the keys of a document with their ids, the key id a token names, and the verified claims.\<close>

record 'k jwt_lib =
  jl_installed :: bool
  jl_keys :: "dict \<Rightarrow> (string option \<times> 'k) list option"
  jl_kid :: "string \<Rightarrow> string option option"
  jl_decode :: "string \<Rightarrow> 'k \<Rightarrow> dict option"

definition select_key :: "string option \<Rightarrow> (string option \<times> 'k) list \<Rightarrow> 'k option" where
  "select_key kid keys = (if opt_str kid = [] then (case keys of [] \<Rightarrow> None | (_, k) # _ \<Rightarrow> Some k)
     else map_option snd (find (\<lambda>(i, k). i = kid) keys))"

definition verify_jwt :: "'k jwt_lib \<Rightarrow> auth_err + pyval \<Rightarrow> string \<Rightarrow> auth_err + dict" where
  "verify_jwt lib jwks token =
     (if \<not> jl_installed lib then Inl (HttpError 401 (''PyJWT not installed '' @ em_dash @ '' cannot verify JWT tokens''))
      else (case jwks of
          Inl e \<Rightarrow> Inl e
        | Inr v \<Rightarrow> if \<not> truthy v then Inl (HttpError 401 (''JWKS unavailable '' @ em_dash @ '' cannot verify JWT signature''))
            else (case v of
              PDict d \<Rightarrow> if \<not> truthy (dget d ''keys'') then Inl (HttpError 401 (''JWKS unavailable '' @ em_dash @ '' cannot verify JWT signature''))
                else (case (case jl_keys lib d of None \<Rightarrow> None | Some ks \<Rightarrow>
                    (case jl_kid lib token of None \<Rightarrow> None | Some kid \<Rightarrow>
                      (case select_key kid ks of None \<Rightarrow> None | Some k \<Rightarrow> jl_decode lib token k))) of
                  None \<Rightarrow> Inl (HttpError 401 ''JWT verification failed'')
                | Some claims \<Rightarrow> Inr claims)
            | _ \<Rightarrow> Inl OtherError)))"

section \<open>Users and roles\<close>

definition role_hierarchy :: "(string \<times> int) list" where
  "role_hierarchy = [(''admin'', 4), (''analyst'', 3), (''viewer'', 2), (''service'', 1)]"

record auth_user =
  au_id :: pyval
  au_roles :: pyval
  au_type :: string
  au_claims :: dict
  au_tenants :: "string list"

text \<open>\<open>ROLE_HIERARCHY.get(r, 0)\<close>: a value that cannot be hashed raises.\<close>

fun role_level :: "pyval \<Rightarrow> int res" where
  "role_level (PStr r) = Inr (case map_of role_hierarchy r of None \<Rightarrow> 0 | Some l \<Rightarrow> l)"
| "role_level (PList _) = Inl TypeError"
| "role_level (PDict _) = Inl TypeError"
| "role_level _ = Inr 0"

fun any_level :: "int \<Rightarrow> pyval list \<Rightarrow> bool res" where
  "any_level n [] = Inr False"
| "any_level n (v # vs) = (case role_level v of Inl e \<Rightarrow> Inl e | Inr l \<Rightarrow> if l \<ge> n then Inr True else any_level n vs)"

definition required_level :: "string \<Rightarrow> int" where
  "required_level role = (case map_of role_hierarchy role of None \<Rightarrow> 0 | Some l \<Rightarrow> l)"

definition has_role :: "auth_user \<Rightarrow> string \<Rightarrow> bool res" where
  "has_role u required = (case py_iter (au_roles u) of Inl e \<Rightarrow> Inl e | Inr rs \<Rightarrow> any_level (required_level required) rs)"

text \<open>\<open>max\<close> keeps the first of the highest.\<close>

fun max_role :: "pyval \<Rightarrow> int \<Rightarrow> pyval list \<Rightarrow> pyval res" where
  "max_role best l [] = Inr best"
| "max_role best l (v # vs) = (case role_level v of Inl e \<Rightarrow> Inl e | Inr k \<Rightarrow> if k > l then max_role v k vs else max_role best l vs)"

definition best_role :: "auth_user \<Rightarrow> pyval res" where
  "best_role u = (if \<not> truthy (au_roles u) then Inr (PStr ''viewer'')
     else (case py_iter (au_roles u) of Inl e \<Rightarrow> Inl e
       | Inr [] \<Rightarrow> Inl ValueError
       | Inr (v # vs) \<Rightarrow> (case role_level v of Inl e \<Rightarrow> Inl e | Inr l \<Rightarrow> max_role v l vs)))"

definition allows_tenant :: "auth_user \<Rightarrow> string \<Rightarrow> bool" where
  "allows_tenant u t = (if au_tenants u = [] then False else ''*'' \<in> set (au_tenants u) \<or> t \<in> set (au_tenants u))"

section \<open>Authentication\<close>

record auth_env =
  ae_host :: host
  ae_loads :: "string \<Rightarrow> pyval option"
  ae_issuer :: string
  ae_roles_claim :: string
  ae_verify :: "string \<Rightarrow> auth_err + dict"
  ae_skip_prefixes :: "string list"

definition allow_insecure_no_auth :: "host \<Rightarrow> bool" where
  "allow_insecure_no_auth h = (if production_profile h then False
     else lower (env_text h ''ALLOW_INSECURE_NO_AUTH'') \<in> set [''1'', ''true'', ''yes'', ''on''])"

definition valid_keys :: "host \<Rightarrow> string list" where
  "valid_keys h = (let raw = env_text h ''API_KEYS'' in
     if raw = [] then [] else remdups (filter (\<lambda>k. k \<noteq> []) (map strip (split_on CHR '','' raw))))"

definition internal_token_ok :: "host \<Rightarrow> request \<Rightarrow> bool res" where
  "internal_token_ok h rq = (let t = entry (rq_headers rq) ''x-internal-token''; expected = env_text h ''CASE_INTERNAL_TOKEN'' in
     if t \<noteq> [] \<and> expected \<noteq> [] \<and> length t = length expected then compare_digest t expected else Inr False)"

definition service_roles :: "host \<Rightarrow> string list" where
  "service_roles h = (let r = lower (strip (case env_raw h ''SERVICE_API_KEY_ROLE'' of None \<Rightarrow> ''admin'' | Some s \<Rightarrow> s));
       role = (if r \<in> set (map fst role_hierarchy) then r else ''admin'')
     in sort (remdups [''service'', role]))"

definition key_user :: "host \<Rightarrow> (string \<times> string list) list \<Rightarrow> string \<Rightarrow> auth_err + auth_user" where
  "key_user h tenant_map api_key = (let user = (\<lambda>ts. \<lparr>au_id = PStr ''service'', au_roles = PList (map PStr (service_roles h)),
       au_type = ''api_key'', au_claims = [], au_tenants = ts\<rparr>) in
     if tenant_map \<noteq> [] then Inr (user (case map_of tenant_map api_key of None \<Rightarrow> [] | Some ts \<Rightarrow> ts))
     else if tenant_binding_required h then Inl (HttpError 503 ''API_KEY_TENANT_MAP is required when TENANT_BINDING_REQUIRED is set'')
     else Inr (user [''*'']))"

definition presented_token :: "request \<Rightarrow> string" where
  "presented_token rq = (let a = entry (rq_headers rq) ''authorization'';
       t = (if startswith (lower a) ''bearer '' then strip (drop 7 a) else [])
     in if t \<noteq> [] then t else strip (entry (rq_cookies rq) ''tarka_access''))"

definition token_user :: "auth_env \<Rightarrow> dict \<Rightarrow> auth_err + auth_user" where
  "token_user ev claims = (let roles = dget_or claims (ae_roles_claim ev) (PList [PStr ''viewer'']); ts = tenants_from_claims claims in
     if tenant_binding_required (ae_host ev) \<and> ts = []
     then Inl (HttpError 403 ''tenant binding is required but caller has no tenant scope'')
     else Inr \<lparr>au_id = dget_or claims ''sub'' (dget_or claims ''email'' (PStr ''unknown'')),
       au_roles = (case roles of PStr r \<Rightarrow> PList [PStr r] | v \<Rightarrow> v), au_type = ''jwt'', au_claims = claims, au_tenants = ts\<rparr>)"

definition token_or_anonymous :: "auth_env \<Rightarrow> request \<Rightarrow> auth_err + auth_user" where
  "token_or_anonymous ev rq = (let token = presented_token rq; h = ae_host ev in
     if token \<noteq> [] then (case ae_verify ev token of Inl e \<Rightarrow> Inl e | Inr claims \<Rightarrow> token_user ev claims)
     else if valid_keys h = [] \<and> ae_issuer ev = [] then
       (if allow_insecure_no_auth h
        then Inr \<lparr>au_id = PStr ''anonymous'', au_roles = PList [PStr ''viewer''], au_type = ''none'', au_claims = [], au_tenants = [''*'']\<rparr>
        else Inl (HttpError 503 ''authentication misconfigured: set API_KEYS or OIDC_ISSUER (or ALLOW_INSECURE_NO_AUTH=true for local development)''))
     else Inl (HttpError 401 ''authentication required''))"

definition authenticate :: "auth_env \<Rightarrow> request \<Rightarrow> auth_err + auth_user" where
  "authenticate ev rq = (let h = ae_host ev in
     case internal_token_ok h rq of
       Inl e \<Rightarrow> Inl OtherError
     | Inr True \<Rightarrow> Inr \<lparr>au_id = PStr ''internal-service'', au_roles = PList [PStr ''service'', PStr ''analyst''],
         au_type = ''internal_token'', au_claims = [], au_tenants = [''*'']\<rparr>
     | Inr False \<Rightarrow> (case parse_api_key_tenant_map (ae_loads ev) h of
         Inl msg \<Rightarrow> Inl (HttpError 503 msg)
       | Inr tenant_map \<Rightarrow> (let k = entry (rq_headers rq) ''x-api-key'' in
           if k \<noteq> [] \<and> valid_keys h \<noteq> [] then
             (if k \<in> set (valid_keys h) then key_user h tenant_map k else Inl (HttpError 401 ''invalid API key''))
           else token_or_anonymous ev rq)))"

definition auth_skip_paths :: "string list" where
  "auth_skip_paths = [''/v1/health'', ''/v1/ready'', ''/v1/health/deep'', ''/health'', ''/health/deep'', ''/metrics'', ''/v1/slo'',
     ''/v1/ops/evaluation-posture'']"

datatype gate = Rejected int string | Passed auth_user

definition skipped :: "auth_env \<Rightarrow> request \<Rightarrow> bool" where
  "skipped ev rq = (rq_path rq \<in> set auth_skip_paths \<or> list_ex (startswith (rq_path rq)) (ae_skip_prefixes ev))"

definition dispatch_auth :: "auth_env \<Rightarrow> request \<Rightarrow> gate" where
  "dispatch_auth ev rq =
     (if skipped ev rq then Passed \<lparr>au_id = PStr ''system'', au_roles = PList [PStr ''viewer''], au_type = ''bypass'',
        au_claims = [], au_tenants = [''*'']\<rparr>
      else (case (case authenticate ev rq of Inl e \<Rightarrow> Inl e
          | Inr u \<Rightarrow> if tenant_binding_required (ae_host ev)
              then (case enforce_tenant_access (ae_host ev) rq (Some (au_tenants u)) None of Inl e \<Rightarrow> Inl e | Inr _ \<Rightarrow> Inr u)
              else Inr u) of
        Inl (HttpError code detail) \<Rightarrow> Rejected code detail
      | Inl OtherError \<Rightarrow> Rejected 401 ''authentication failed''
      | Inr u \<Rightarrow> Passed u))"

definition role_detail :: "string \<Rightarrow> auth_user \<Rightarrow> string" where
  "role_detail role u = ''role '' @ [CHR 0x27] @ role @ [CHR 0x27] @ '' required, you have '' @ py_str (au_roles u)"

definition require_role_check :: "string \<Rightarrow> auth_user option \<Rightarrow> auth_err + auth_user" where
  "require_role_check role user = (case user of None \<Rightarrow> Inl (HttpError 401 ''not authenticated'')
     | Some u \<Rightarrow> (case has_role u role of Inl e \<Rightarrow> Inl OtherError
         | Inr ok \<Rightarrow> if ok then Inr u else Inl (HttpError 403 (role_detail role u))))"

definition require_role_or_insecure_desk :: "host \<Rightarrow> string \<Rightarrow> auth_user option \<Rightarrow> auth_err + auth_user" where
  "require_role_or_insecure_desk h role user = (case user of None \<Rightarrow> Inl (HttpError 401 ''not authenticated'')
     | Some u \<Rightarrow> (case has_role u role of Inl e \<Rightarrow> Inl OtherError
         | Inr ok \<Rightarrow> if ok then Inr u
             else if allow_insecure_no_auth h \<and> au_type u = ''none'' then Inr u else Inl (HttpError 403 (role_detail role u))))"

definition get_current_user :: "auth_user option \<Rightarrow> auth_user" where
  "get_current_user user = (case user of Some u \<Rightarrow> u
     | None \<Rightarrow> \<lparr>au_id = PStr ''anonymous'', au_roles = PList [PStr ''viewer''], au_type = ''none'', au_claims = [], au_tenants = []\<rparr>)"

section \<open>The API-key dependency\<close>

definition key_probe_paths :: "string list" where
  "key_probe_paths = [''/v1/health'', ''/v1/ready'', ''/v1/health/deep'', ''/health'', ''/health/deep'', ''/metrics'']"

definition require_api_key :: "(string \<Rightarrow> pyval option) \<Rightarrow> host \<Rightarrow> request \<Rightarrow> auth_err + unit" where
  "require_api_key loads h rq =
     (if rq_path rq \<in> set key_probe_paths then Inr ()
      else (case parse_api_key_tenant_map loads h of
          Inl msg \<Rightarrow> Inl (HttpError 503 msg)
        | Inr tenant_map \<Rightarrow>
            if valid_keys h = [] then
              (if allow_insecure_no_auth h then
                 (if tenant_binding_required h \<and> tenant_map = []
                  then Inl (HttpError 503 ''API_KEY_TENANT_MAP is required when TENANT_BINDING_REQUIRED is set'')
                  else enforce_tenant_access h rq (Some [''*'']) None)
               else Inl (HttpError 503 ''service auth misconfigured: API_KEYS is empty (set API_KEYS or ALLOW_INSECURE_NO_AUTH=true for local development)''))
            else (let k = entry (rq_headers rq) ''x-api-key'' in
              if k \<notin> set (valid_keys h) then Inl (HttpError 401 ''invalid or missing API key'')
              else if tenant_map \<noteq> [] then
                enforce_tenant_access h rq (Some (case map_of tenant_map k of None \<Rightarrow> [] | Some ts \<Rightarrow> ts)) None
              else if tenant_binding_required h
                then Inl (HttpError 503 ''API_KEY_TENANT_MAP is required when TENANT_BINDING_REQUIRED is set'')
              else Inr ())))"

section \<open>Signed requests\<close>

definition signed_message :: "int \<Rightarrow> nat list \<Rightarrow> nat list" where
  "signed_message ts body = utf8 (int_str ts) @ [10] @ body"

definition build_signature_headers :: "nat list \<Rightarrow> string \<Rightarrow> int \<Rightarrow> (string \<times> string) list" where
  "build_signature_headers body secret ts =
     [(''X-Tarka-Timestamp'', int_str ts), (''X-Tarka-Signature'', hmac_sha256_hex secret (signed_message ts body))]"

definition header_or :: "(string \<times> string) list \<Rightarrow> string \<Rightarrow> string \<Rightarrow> string" where
  "header_or headers a b = (if entry headers a \<noteq> [] then entry headers a else entry headers b)"

definition verify_signature :: "nat list \<Rightarrow> (string \<times> string) list \<Rightarrow> string \<Rightarrow> int \<Rightarrow> int \<Rightarrow> bool res" where
  "verify_signature body headers secret max_skew now =
     (let ts_raw = header_or headers ''x-tarka-timestamp'' ''X-Tarka-Timestamp'';
          sig = header_or headers ''x-tarka-signature'' ''X-Tarka-Signature'' in
      if ts_raw = [] \<or> sig = [] then Inr False
      else (case parse_int ts_raw of
          Inl _ \<Rightarrow> Inr False
        | Inr ts \<Rightarrow> if \<bar>now - ts\<bar> > max_skew then Inr False
            else compare_digest (hmac_sha256_hex secret (signed_message ts body)) sig))"

section \<open>The tenant map\<close>

text \<open>A scope the map may hold: stripped names, none of them empty, each once.\<close>

definition well_formed_scope :: "string list \<Rightarrow> bool" where
  "well_formed_scope ts = (distinct ts \<and> (\<forall>t \<in> set ts. t \<noteq> [] \<and> strip t = t))"

lemma tenants_of_value_wf: "well_formed_scope (tenants_of_value v)"
  by (cases v) (auto simp: well_formed_scope_def)

lemma tenants_from_claims_wf: "well_formed_scope (tenants_from_claims c)"
  using tenants_of_value_wf by (auto simp: tenants_from_claims_def well_formed_scope_def)

definition well_formed_map :: "(string \<times> string list) list \<Rightarrow> bool" where
  "well_formed_map m = (distinct (map fst m) \<and> (\<forall>(k, ts) \<in> set m. k \<noteq> [] \<and> strip k = k \<and> well_formed_scope ts))"

lemma add_key_tenants_wf: "well_formed_map m \<Longrightarrow> well_formed_map (add_key_tenants kv m)"
proof -
  assume m: "well_formed_map m"
  have "set (AList.update k v m) \<subseteq> insert (k, v) (set m)" for k :: string and v :: "string list"
    by (induction m) auto
  then show ?thesis using m tenants_of_value_wf [of "snd kv"]
    by (fastforce simp: well_formed_map_def add_key_tenants_def Let_def distinct_update)
qed

lemma fold_add_key_tenants_wf: "well_formed_map m \<Longrightarrow> well_formed_map (fold add_key_tenants kvs m)"
  by (induction kvs arbitrary: m) (auto intro: add_key_tenants_wf)

text \<open>
  C19: a tenant map the services accept is well formed: every API key occurs once, is stripped and not empty,
  its scope holds stripped, non-empty tenant names without repetition, and under the production lock no
  key of the map has the wildcard.
\<close>

theorem tenant_map_well_formed:
  assumes "parse_api_key_tenant_map loads h = Inr m"
  shows "well_formed_map m \<and> (production_tenant_lock h \<longrightarrow> (\<forall>(k, ts) \<in> set m. ''*'' \<notin> set ts))"
proof (cases "env_text h ''API_KEY_TENANT_MAP'' = []")
  case True
  then show ?thesis using assms by (simp add: parse_api_key_tenant_map_def well_formed_map_def)
next
  case False
  then obtain payload where "m = fold add_key_tenants payload []"
    "\<not> (production_tenant_lock h \<and> list_ex (\<lambda>(k, ts). ''*'' \<in> set ts) m)"
    using assms by (auto simp: parse_api_key_tenant_map_def Let_def split: option.splits pyval.splits if_splits)
  moreover have "well_formed_map []" by (simp add: well_formed_map_def)
  ultimately show ?thesis using fold_add_key_tenants_wf by (auto simp: list_ex_iff)
qed

definition key_map_host :: host where
  "key_map_host = \<lparr>host_env = [(''API_KEY_TENANT_MAP'', ''m''), (''TARKA_DEPLOYMENT_PROFILE'', ''production'')], host_files = []\<rparr>"

theorem tenant_map_well_formed_witness:
  "well_formed_map [(''k'', [''acme''])] \<and> ''*'' \<notin> set [''acme'']"
proof -
  have "parse_api_key_tenant_map (\<lambda>_. Some (PDict [('' k '', PList [PStr '' acme '', PStr ''acme'', PStr ''''])])) key_map_host
      = Inr [(''k'', [''acme''])]" by code_simp
  moreover have "production_tenant_lock key_map_host" by code_simp
  ultimately show ?thesis using tenant_map_well_formed by fastforce
qed

section \<open>Authentication\<close>

text \<open>What backs a user: the internal token, a configured API key, a verified token, or the local development switch.\<close>

definition backed :: "auth_env \<Rightarrow> request \<Rightarrow> auth_user \<Rightarrow> bool" where
  "backed ev rq u = (let h = ae_host ev in
     (au_type u = ''internal_token'' \<and> entry (rq_headers rq) ''x-internal-token'' = env_text h ''CASE_INTERNAL_TOKEN'' \<and>
        env_text h ''CASE_INTERNAL_TOKEN'' \<noteq> []) \<or>
     (au_type u = ''api_key'' \<and> entry (rq_headers rq) ''x-api-key'' \<in> set (valid_keys h)) \<or>
     (au_type u = ''jwt'' \<and> presented_token rq \<noteq> [] \<and> ae_verify ev (presented_token rq) = Inr (au_claims u) \<and>
        au_tenants u = tenants_from_claims (au_claims u)) \<or>
     (au_type u = ''none'' \<and> au_roles u = PList [PStr ''viewer''] \<and> \<not> production_profile h \<and>
        valid_keys h = [] \<and> ae_issuer ev = []))"

lemma internal_token_okD:
  "internal_token_ok h rq = Inr True \<Longrightarrow> entry (rq_headers rq) ''x-internal-token'' = env_text h ''CASE_INTERNAL_TOKEN'' \<and>
     env_text h ''CASE_INTERNAL_TOKEN'' \<noteq> []"
  by (auto simp: internal_token_ok_def compare_digest_def Let_def split: if_splits)

lemma key_user_type: "key_user h m k = Inr u \<Longrightarrow> au_type u = ''api_key''"
  by (auto simp: key_user_def Let_def split: if_splits)

lemma token_user_fields:
  "token_user ev c = Inr u \<Longrightarrow> au_type u = ''jwt'' \<and> au_claims u = c \<and> au_tenants u = tenants_from_claims c"
  by (auto simp: token_user_def Let_def split: if_splits)

lemma token_or_anonymous_backed: "token_or_anonymous ev rq = Inr u \<Longrightarrow> backed ev rq u"
  by (auto simp: token_or_anonymous_def backed_def Let_def allow_insecure_no_auth_def
      dest: token_user_fields split: if_splits sum.splits)

lemma authenticate_backed:
  assumes "authenticate ev rq = Inr u"
  shows "backed ev rq u"
proof (cases "internal_token_ok (ae_host ev) rq = Inr True")
  case True
  then show ?thesis using assms internal_token_okD [OF True] by (auto simp: authenticate_def backed_def Let_def)
next
  case False
  then have "token_or_anonymous ev rq = Inr u \<or> (\<exists>m. entry (rq_headers rq) ''x-api-key'' \<in> set (valid_keys (ae_host ev)) \<and>
      key_user (ae_host ev) m (entry (rq_headers rq) ''x-api-key'') = Inr u)"
    using assms by (auto simp: authenticate_def Let_def split: sum.splits bool.splits if_splits)
  then show ?thesis using token_or_anonymous_backed key_user_type by (auto simp: backed_def Let_def)
qed

lemma dispatch_passed:
  assumes "dispatch_auth ev rq = Passed u" "\<not> skipped ev rq"
  shows "authenticate ev rq = Inr u"
    and "tenant_binding_required (ae_host ev) \<Longrightarrow> enforce_tenant_access (ae_host ev) rq (Some (au_tenants u)) None = Inr ()"
  using assms by (auto simp: dispatch_auth_def split: sum.splits auth_err.splits if_splits)

lemma enforce_within_scope:
  assumes "enforce_tenant_access h rq (Some ts) None = Inr ()" "tenant_binding_required h" "rq_path rq \<notin> set probe_paths"
  shows "\<exists>t. request_tenant_id rq = Some t \<and> is_tenant_allowed ts t"
  using assms by (auto simp: enforce_tenant_access_def split: option.splits if_splits)


definition key_request :: request where
  "key_request = \<lparr>rq_path = ''/v1/cases'', rq_headers = [(''x-api-key'', ''k1''), (''content-type'', ''application/json'')],
     rq_query = [(''tenant_id'', ''acme'')], rq_path_params = [], rq_cookies = [], rq_json = None\<rparr>"

definition bound_env :: auth_env where
  "bound_env = \<lparr>ae_host = \<lparr>host_env = [(''API_KEYS'', ''k1, k2''), (''TENANT_BINDING_REQUIRED'', ''true''),
       (''API_KEY_TENANT_MAP'', ''m'')], host_files = []\<rparr>,
     ae_loads = (\<lambda>_. Some (PDict [(''k1'', PStr ''acme'')])), ae_issuer = [], ae_roles_claim = ''roles'',
     ae_verify = (\<lambda>_. Inl OtherError), ae_skip_prefixes = []\<rparr>"

definition acme_key_user :: auth_user where
  "acme_key_user = \<lparr>au_id = PStr ''service'', au_roles = PList [PStr ''admin'', PStr ''service''], au_type = ''api_key'',
     au_claims = [], au_tenants = [''acme'']\<rparr>"

lemma bound_env_passes: "dispatch_auth bound_env key_request = Passed acme_key_user" "\<not> skipped bound_env key_request"
  by code_simp+


text \<open>Nothing but the tenant of a request depends on its body.\<close>

lemma body_irrelevant_to_credentials:
  "internal_token_ok h (rq\<lparr>rq_json := j\<rparr>) = internal_token_ok h rq"
  "token_or_anonymous ev (rq\<lparr>rq_json := j\<rparr>) = token_or_anonymous ev rq"
  "skipped ev (rq\<lparr>rq_json := j\<rparr>) = skipped ev rq"
  by (simp_all add: internal_token_ok_def token_or_anonymous_def presented_token_def skipped_def Let_def cong: if_cong)

lemma authenticate_body: "authenticate ev (rq\<lparr>rq_json := j\<rparr>) = authenticate ev rq"
  unfolding authenticate_def body_irrelevant_to_credentials
  by (simp add: Let_def cong: sum.case_cong bool.case_cong if_cong)

lemma enforce_body:
  "request_tenant_id (rq\<lparr>rq_json := j\<rparr>) = request_tenant_id rq \<Longrightarrow>
     enforce_tenant_access h (rq\<lparr>rq_json := j\<rparr>) ts strict = enforce_tenant_access h rq ts strict"
  by (simp add: enforce_tenant_access_def)

text \<open>
  C35: the tenant check reads one place only.  When the query names a tenant, the decision of the middleware is the same
  whatever JSON body the request carries, so a caller scoped to one tenant passes with a body naming another.
\<close>

theorem body_tenant_not_checked:
  assumes "strip (entry (rq_query rq) ''tenant_id'') \<noteq> []"
  shows "dispatch_auth ev (rq\<lparr>rq_json := Some (PDict [(''tenant_id'', PStr other)])\<rparr>) = dispatch_auth ev rq"
proof -
  let ?r = "rq\<lparr>rq_json := Some (PDict [(''tenant_id'', PStr other)])\<rparr>"
  have "request_tenant_id ?r = request_tenant_id rq" using assms by (simp add: request_tenant_id_def Let_def)
  then show ?thesis unfolding dispatch_auth_def body_irrelevant_to_credentials authenticate_body
    by (simp add: enforce_body cong: sum.case_cong if_cong)
qed

theorem body_tenant_not_checked_witness:
  "dispatch_auth bound_env (key_request\<lparr>rq_json := Some (PDict [(''tenant_id'', PStr ''globex'')])\<rparr>) = Passed acme_key_user"
proof -
  have "strip (entry (rq_query key_request) ''tenant_id'') \<noteq> []" by code_simp
  then show ?thesis using body_tenant_not_checked [of key_request bound_env "''globex''"] bound_env_passes by simp
qed

text \<open>The map is optional: with none configured, and no binding demanded, a key has every tenant, in production too.\<close>

theorem missing_map_grants_every_tenant:
  assumes "env_text h ''API_KEY_TENANT_MAP'' = []" and "\<not> tenant_binding_required h"
  shows "\<exists>u. parse_api_key_tenant_map loads h = Inr [] \<and> key_user h [] k = Inr u \<and> is_tenant_allowed (au_tenants u) t"
  using assms by (simp add: parse_api_key_tenant_map_def key_user_def is_tenant_allowed_def)

section \<open>Roles\<close>

lemma any_level_mono: "n \<le> m \<Longrightarrow> any_level m vs = Inr True \<Longrightarrow> any_level n vs = Inr True"
  by (induction vs) (auto split: sum.splits if_splits)

text \<open>A higher role carries the lower ones, and a role the hierarchy does not know is met by any role at all.\<close>

lemma has_role_mono:
  assumes "required_level r \<le> required_level s" "has_role u s = Inr True"
  shows "has_role u r = Inr True"
  using assms any_level_mono by (auto simp: has_role_def split: sum.splits)

lemma unknown_role_fails_open:
  "map_of role_hierarchy r = None \<Longrightarrow> au_roles u = PList (PStr s # vs) \<Longrightarrow> require_role_check r (Some u) = Inr u"
  by (auto simp: require_role_check_def has_role_def required_level_def role_hierarchy_def split: option.splits)

lemma insecure_desk_in_production:
  "production_profile h \<Longrightarrow> require_role_or_insecure_desk h r user = require_role_check r user"
  by (auto simp: require_role_or_insecure_desk_def require_role_check_def allow_insecure_no_auth_def split: option.splits sum.splits)

section \<open>Signed requests\<close>

lemma hex_ascii: "set s \<subseteq> hex_chars \<Longrightarrow> c \<in> set s \<Longrightarrow> (of_char c :: nat) < 128"
  by (auto simp: hex_chars_def)

lemma int_str_nonempty: "int_str i \<noteq> []"
  using parse_int_int_str [of i] by (auto simp: parse_int_def read_sign_def)

text \<open>
  The headers built for a body verify under the same secret exactly while the clock is within the allowed
  skew of their timestamp.
\<close>

theorem signed_request_verifies:
  "verify_signature body (build_signature_headers body secret ts) secret max_skew now = Inr (\<bar>now - ts\<bar> \<le> max_skew)"
proof -
  let ?sig = "hmac_sha256_hex secret (signed_message ts body)"
  have "is_hex64 ?sig" by (rule hmac_sha256_hex_is_hex64)
  then have "?sig \<noteq> []" "compare_digest ?sig ?sig = Inr True"
    using hex_ascii [of ?sig] by (auto simp: is_hex64_def compare_digest_def not_le)
  then show ?thesis
    by (simp add: verify_signature_def build_signature_headers_def header_or_def entry_def opt_str_def int_str_nonempty Let_def)
qed

lemma verified_signature_binds_body:
  assumes "verify_signature body headers secret max_skew now = Inr True"
  shows "\<exists>ts. \<bar>now - ts\<bar> \<le> max_skew \<and>
    header_or headers ''x-tarka-signature'' ''X-Tarka-Signature'' = hmac_sha256_hex secret (signed_message ts body)"
proof -
  obtain ts where "\<not> \<bar>now - ts\<bar> > max_skew"
    "hmac_sha256_hex secret (signed_message ts body) = header_or headers ''x-tarka-signature'' ''X-Tarka-Signature''"
    using assms by (auto simp: verify_signature_def Let_def compare_digest_def split: if_splits sum.splits)
  then show ?thesis by (intro exI [of _ ts]) simp
qed

end
