(* ===== verification/Minute_Limiter.thy ===== *)
theory Minute_Limiter
  imports Py_Value
begin

text \<open>
  The in-process sliding-window limiter, \<open>shared/minute_rate_limit.py\<close>.  Times of the monotonic clock are exact rationals; the
  body of \<open>allow\<close> runs under a lock, so it is one step.
\<close>

record minute_limiter =
  ml_max :: int
  ml_window :: rat
  ml_dq :: "(string \<times> rat list) list"

definition new_limiter :: "int \<Rightarrow> rat \<Rightarrow> minute_limiter" where
  "new_limiter max_events window = \<lparr>ml_max = max 1 max_events, ml_window = window, ml_dq = []\<rparr>"

definition ml_times :: "string \<Rightarrow> minute_limiter \<Rightarrow> rat list" where
  "ml_times key m = (case map_of (ml_dq m) key of None \<Rightarrow> [] | Some d \<Rightarrow> d)"

definition minute_allow :: "rat \<Rightarrow> string \<Rightarrow> minute_limiter \<Rightarrow> bool \<times> minute_limiter" where
  "minute_allow now key m = (let d = dropWhile (\<lambda>t. t < now - ml_window m) (ml_times key m) in
     if int (length d) \<ge> ml_max m then (False, m\<lparr>ml_dq := AList.update key d (ml_dq m)\<rparr>)
     else (True, m\<lparr>ml_dq := AList.update key (d @ [now]) (ml_dq m)\<rparr>))"

text \<open>A run over timed calls, and the times at which a key was admitted.\<close>

fun minute_run :: "(rat \<times> string) list \<Rightarrow> minute_limiter \<Rightarrow> (rat \<times> string \<times> bool) list" where
  "minute_run [] m = []"
| "minute_run ((now, key) # cs) m = (case minute_allow now key m of (ok, m') \<Rightarrow> (now, key, ok) # minute_run cs m')"

definition admitted_times :: "string \<Rightarrow> (rat \<times> string \<times> bool) list \<Rightarrow> rat list" where
  "admitted_times k tr = map fst (filter (\<lambda>(t, key, ok). key = k \<and> ok) tr)"

definition in_window :: "rat \<Rightarrow> rat \<Rightarrow> rat list \<Rightarrow> nat" where
  "in_window x w ts = length (filter (\<lambda>t. x \<le> t \<and> t \<le> x + w) ts)"

section \<open>The bound\<close>

text \<open>The deque of a key after the admissions \<open>adm\<close>: it is in order, and has every admission a later cutoff keeps.\<close>

definition window_inv :: "rat \<Rightarrow> rat \<Rightarrow> int \<Rightarrow> rat list \<Rightarrow> rat list \<Rightarrow> bool" where
  "window_inv t0 w m adm d = (sorted d \<and> (\<forall>t \<in> set adm \<union> set d. t \<le> t0) \<and>
     (\<forall>c \<ge> t0 - w. filter (\<lambda>t. c \<le> t) adm = filter (\<lambda>t. c \<le> t) d) \<and> (\<forall>x. int (in_window x w adm) \<le> m))"

lemma dropWhile_sorted: "sorted d \<Longrightarrow> dropWhile (\<lambda>t. t < c) d = filter (\<lambda>t. c \<le> t) d" for c :: rat
proof (induction d)
  case (Cons t d)
  show ?case
  proof (cases "t < c")
    case False
    then have "\<forall>x \<in> set d. c \<le> x" using Cons.prems by fastforce
    then show ?thesis using False by simp
  qed (use Cons in simp)
qed simp

lemma filter_later: "c \<le> c' \<Longrightarrow> filter (\<lambda>t. c' \<le> t) (filter (\<lambda>t. c \<le> t) d) = filter (\<lambda>t. c' \<le> t) d" for c :: rat
  by (induction d) auto

lemma in_window_append: "in_window x w (adm @ [now]) = in_window x w adm + (if x \<le> now \<and> now \<le> x + w then 1 else 0)"
  by (simp add: in_window_def)

lemma window_mono:
  assumes "window_inv t0 w m adm d" "t0 \<le> now"
  shows "window_inv now w m adm d"
proof -
  have "t \<le> now" if "t \<in> set adm \<union> set d" for t using assms that unfolding window_inv_def by (meson order_trans)
  moreover have "filter (\<lambda>t. c \<le> t) adm = filter (\<lambda>t. c \<le> t) d" if "now - w \<le> c" for c
  proof -
    have "t0 - w \<le> c" using that assms(2) by linarith
    then show ?thesis using assms(1) unfolding window_inv_def by blast
  qed
  ultimately show ?thesis using assms(1) unfolding window_inv_def by blast
qed

lemma window_later:
  assumes "window_inv t0 w m adm d" "t0 \<le> now"
  shows "window_inv now w m adm (filter (\<lambda>t. now - w \<le> t) d)"
proof -
  let ?d = "filter (\<lambda>t. now - w \<le> t) d"
  have inv: "window_inv now w m adm d" by (rule window_mono [OF assms])
  then have "filter (\<lambda>t. c \<le> t) adm = filter (\<lambda>t. c \<le> t) ?d" if "now - w \<le> c" for c
    unfolding filter_later [OF that] using that by (simp add: window_inv_def)
  moreover have "sorted ?d" using inv by (simp add: window_inv_def sorted_filter [where f = id, simplified])
  moreover have "t \<le> now" if "t \<in> set adm \<union> set ?d" for t using inv that by (auto simp: window_inv_def)
  ultimately show ?thesis using inv unfolding window_inv_def by blast
qed

lemma window_admit:
  assumes inv: "window_inv now w m adm d" and d: "\<forall>t \<in> set d. now - w \<le> t" and "int (length d) < m" "0 \<le> w"
  shows "window_inv now w m (adm @ [now]) (d @ [now])"
proof -
  have "int (in_window x w (adm @ [now])) \<le> m" for x
  proof (cases "x \<le> now \<and> now \<le> x + w")
    case True
    have "in_window x w adm \<le> length (filter (\<lambda>t. now - w \<le> t) adm)"
      unfolding in_window_def using True by (induction adm) auto
    also have "filter (\<lambda>t. now - w \<le> t) adm = d" using inv d by (simp add: window_inv_def)
    finally show ?thesis using True assms(3) by (simp add: in_window_append)
  next
    case False
    then show ?thesis using inv by (auto simp: in_window_append window_inv_def)
  qed
  then show ?thesis using inv by (auto simp: window_inv_def sorted_append)
qed

lemma allow_other: "j \<noteq> k \<Longrightarrow> ml_times j (snd (minute_allow now k m)) = ml_times j m"
  by (simp add: minute_allow_def ml_times_def Let_def update_conv')

lemma allow_params: "ml_max (snd (minute_allow now k m)) = ml_max m" "ml_window (snd (minute_allow now k m)) = ml_window m"
  by (simp_all add: minute_allow_def Let_def)

lemma allow_same:
  assumes "window_inv t0 (ml_window m) (ml_max m) adm (ml_times k m)" "t0 \<le> now" "0 \<le> ml_window m"
  shows "window_inv now (ml_window m) (ml_max m) (adm @ (if fst (minute_allow now k m) then [now] else [])) (ml_times k (snd (minute_allow now k m)))"
proof -
  let ?d = "filter (\<lambda>t. now - ml_window m \<le> t) (ml_times k m)"
  have "dropWhile (\<lambda>t. t < now - ml_window m) (ml_times k m) = ?d"
    using assms(1) by (intro dropWhile_sorted) (simp add: window_inv_def)
  then have a: "minute_allow now k m = (if int (length ?d) \<ge> ml_max m then (False, m\<lparr>ml_dq := AList.update k ?d (ml_dq m)\<rparr>)
      else (True, m\<lparr>ml_dq := AList.update k (?d @ [now]) (ml_dq m)\<rparr>))" by (simp add: minute_allow_def)
  show ?thesis using window_later [OF assms(1, 2)] window_admit [OF window_later [OF assms(1, 2)]] assms(3)
    by (simp add: a ml_times_def update_conv')
qed

lemma run_bound:
  assumes "window_inv t0 (ml_window m) (ml_max m) adm (ml_times k m)" "sorted (t0 # map fst cs)" "0 \<le> ml_window m"
  shows "int (in_window x (ml_window m) (adm @ admitted_times k (minute_run cs m))) \<le> ml_max m"
  using assms
proof (induction cs arbitrary: m adm t0)
  case Nil
  then show ?case by (simp add: window_inv_def admitted_times_def)
next
  case (Cons c cs)
  obtain now key where c: "c = (now, key)" by fastforce
  obtain ok m' where m': "minute_allow now key m = (ok, m')" by fastforce
  have par: "ml_max m' = ml_max m" "ml_window m' = ml_window m" using allow_params [of now key m] m' by simp_all
  have le: "t0 \<le> now" and srt: "sorted (now # map fst cs)" using Cons.prems(2) c by auto
  define add where "add = (if key = k \<and> ok then [now] else [])"
  have "window_inv now (ml_window m') (ml_max m') (adm @ add) (ml_times k m')"
  proof (cases "key = k")
    case True
    then show ?thesis using allow_same [OF Cons.prems(1) le Cons.prems(3)] m' par by (simp add: add_def)
  next
    case False
    then have "ml_times k m' = ml_times k m" using allow_other [of k key now m] m' by simp
    moreover have "window_inv now (ml_window m) (ml_max m) adm (ml_times k m)"
      using Cons.prems(1) le by (rule window_mono)
    ultimately show ?thesis using False par by (simp add: add_def)
  qed
  from Cons.IH [OF this srt] Cons.prems(3) par have
    "int (in_window x (ml_window m) ((adm @ add) @ admitted_times k (minute_run cs m'))) \<le> ml_max m" by simp
  moreover have "admitted_times k (minute_run (c # cs) m) = add @ admitted_times k (minute_run cs m')"
    by (auto simp: c m' admitted_times_def add_def)
  ultimately show ?case by simp
qed

text \<open>
  C15: over any run of calls at times that do not go back, no closed interval as long as the window holds more than
  \<open>max_events\<close> (at least one) admitted calls of one key, wherever the interval starts.
\<close>

theorem sliding_window_bound:
  assumes "sorted (map fst calls)" and "0 \<le> window"
  shows "int (in_window x window (admitted_times k (minute_run calls (new_limiter max_events window)))) \<le> max 1 max_events"
proof (cases calls)
  case Nil
  then show ?thesis by (simp add: admitted_times_def in_window_def)
next
  case (Cons c cs)
  have "window_inv (fst c) (ml_window (new_limiter max_events window)) (ml_max (new_limiter max_events window)) []
      (ml_times k (new_limiter max_events window))"
    by (simp add: window_inv_def new_limiter_def ml_times_def in_window_def)
  from run_bound [OF this, of calls x] show ?thesis using assms Cons by (simp add: new_limiter_def)
qed

theorem sliding_window_bound_witness:
  "int (in_window 0 60 (admitted_times ''k'' (minute_run [(0, ''k''), (1, ''k''), (60, ''k''), (61, ''k'')] (new_limiter 1 60)))) \<le> 1"
  using sliding_window_bound [of "[(0, ''k''), (1, ''k''), (60, ''k''), (61, ''k'')]" 60 0 "''k''" 1] by simp

end
