(* ===== verification/Entity_Lists.thy ===== *)
theory Entity_Lists
  imports Py_Datetime
begin

text \<open>
  Allow, deny and bypass lists: \<open>shared/entity_lists.py\<close>, with its in-process, Redis and file stores.

  The clock is microseconds since the epoch; \<open>stamp\<close> is the text \<open>datetime.now(UTC).isoformat()\<close> of it.  A JSON text
  the stores write is represented by the entry it decodes to, so \<open>from_dict\<close> of a stored entry is \<open>__post_init__\<close>
  on it.  A Redis hash is a list of fields, with the order in which \<open>hgetall\<close> returns them as a parameter.
  The store behind an external HTTP interface is not modelled.

  What the stores promise is the locale \<open>list_store\<close>: every run of operations answers as one abstract table does.
\<close>

section \<open>Entries\<close>

record list_entry =
  le_type :: string
  le_tenant :: string
  le_entity :: string
  le_reason :: string
  le_by :: string
  le_expires :: "string option"
  le_meta :: dict
  le_created :: string

definition all_list_types :: "string list" where
  "all_list_types = [''whitelist'', ''blacklist'', ''test_bypass'']"

definition check_order :: "string list" where
  "check_order = [''blacklist'', ''whitelist'', ''test_bypass'']"

definition entry_post_init :: "string \<Rightarrow> list_entry \<Rightarrow> list_entry" where
  "entry_post_init stamp e = (if le_created e = [] then e\<lparr>le_created := stamp\<rparr> else e)"

text \<open>Comparing an aware with a naive datetime raises \<open>TypeError\<close>, which is caught like a malformed text.\<close>

definition is_expired :: "int \<Rightarrow> list_entry \<Rightarrow> bool" where
  "is_expired now e = (case le_expires e of
       None \<Rightarrow> False
     | Some s \<Rightarrow> if s = [] then False
         else (case fromisoformat s of Inr (local, Some off) \<Rightarrow> now > local - off | _ \<Rightarrow> False))"

record list_result =
  lr_found :: bool
  lr_type :: "string option"
  lr_action :: string
  lr_reason :: string
  lr_entry :: "list_entry option"

definition not_listed :: list_result where
  "not_listed = \<lparr>lr_found = False, lr_type = None, lr_action = ''evaluate'', lr_reason = [], lr_entry = None\<rparr>"

definition list_action :: "string \<Rightarrow> string" where
  "list_action lt = (if lt = ''whitelist'' then ''allow'' else if lt = ''blacklist'' then ''deny'' else ''evaluate'')"

definition build_list_result :: "int \<Rightarrow> list_entry option \<Rightarrow> list_result" where
  "build_list_result now entry = (case entry of
       None \<Rightarrow> not_listed
     | Some e \<Rightarrow> if is_expired now e then not_listed
         else \<lparr>lr_found = True, lr_type = Some (le_type e), lr_action = list_action (le_type e), lr_reason = le_reason e, lr_entry = Some e\<rparr>)"

definition live :: "int \<Rightarrow> list_entry option \<Rightarrow> list_entry option" where
  "live now entry = (case entry of None \<Rightarrow> None | Some e \<Rightarrow> if is_expired now e then None else Some e)"

text \<open>\<open>xs[:limit]\<close>, and \<open>sort\<close> by creation with \<open>reverse=True\<close>, which keeps the order of equal keys.\<close>

definition take_limit :: "int \<Rightarrow> 'a list \<Rightarrow> 'a list" where
  "take_limit n xs = (if n < 0 then take (length xs - nat (- n)) xs else take (nat n) xs)"

definition newest_first :: "list_entry list \<Rightarrow> list_entry list" where
  "newest_first es = rev (sort_key le_created (rev es))"

section \<open>The in-process store\<close>

type_synonym mem_lists = "(string \<times> list_entry) list"

definition mem_key :: "string \<Rightarrow> string \<Rightarrow> string \<Rightarrow> string" where
  "mem_key lt tid eid = lt @ '':'' @ tid @ '':'' @ eid"

definition mem_add :: "string \<Rightarrow> list_entry \<Rightarrow> mem_lists \<Rightarrow> list_entry \<times> mem_lists" where
  "mem_add stamp e s = (let e' = entry_post_init stamp e in (e', AList.update (mem_key (le_type e) (le_tenant e) (le_entity e)) e' s))"

definition mem_remove :: "string \<Rightarrow> string \<Rightarrow> string \<Rightarrow> mem_lists \<Rightarrow> bool \<times> mem_lists" where
  "mem_remove lt tid eid s = (map_of s (mem_key lt tid eid) \<noteq> None, AList.delete (mem_key lt tid eid) s)"

fun mem_check_in :: "string list \<Rightarrow> int \<Rightarrow> string \<Rightarrow> string \<Rightarrow> mem_lists \<Rightarrow> list_result" where
  "mem_check_in [] now tid eid s = not_listed"
| "mem_check_in (lt # lts) now tid eid s = (case map_of s (mem_key lt tid eid) of
       Some e \<Rightarrow> if \<not> is_expired now e then build_list_result now (Some e) else mem_check_in lts now tid eid s
     | None \<Rightarrow> mem_check_in lts now tid eid s)"

definition mem_check :: "int \<Rightarrow> string \<Rightarrow> string \<Rightarrow> mem_lists \<Rightarrow> list_result \<times> mem_lists" where
  "mem_check now tid eid s = (mem_check_in check_order now tid eid s, s)"

definition mem_rows :: "int \<Rightarrow> string \<Rightarrow> string \<Rightarrow> mem_lists \<Rightarrow> list_entry list" where
  "mem_rows now lt tid s = map snd (filter (\<lambda>(k, e). startswith k (lt @ '':'' @ tid @ '':'') \<and> \<not> is_expired now e) s)"

definition mem_get_all :: "int \<Rightarrow> string \<Rightarrow> string \<Rightarrow> int \<Rightarrow> mem_lists \<Rightarrow> list_entry list" where
  "mem_get_all now lt tid limit s = take_limit limit (mem_rows now lt tid s)"

definition mem_get_entry :: "int \<Rightarrow> string \<Rightarrow> string \<Rightarrow> string \<Rightarrow> mem_lists \<Rightarrow> list_entry option" where
  "mem_get_entry now lt tid eid s = live now (map_of s (mem_key lt tid eid))"

definition mem_count :: "int \<Rightarrow> string \<Rightarrow> string \<Rightarrow> mem_lists \<Rightarrow> nat" where
  "mem_count now lt tid s = length (mem_rows now lt tid s)"

section \<open>The Redis store\<close>

type_synonym redis_lists = "(string \<times> (string \<times> list_entry) list) list"

definition redis_key :: "string \<Rightarrow> string \<Rightarrow> string" where
  "redis_key lt tid = ''tarka:lists:'' @ lt @ '':'' @ tid"

definition redis_hash :: "string \<Rightarrow> redis_lists \<Rightarrow> (string \<times> list_entry) list" where
  "redis_hash k s = (case map_of s k of None \<Rightarrow> [] | Some h \<Rightarrow> h)"

definition hset :: "string \<Rightarrow> string \<Rightarrow> list_entry \<Rightarrow> redis_lists \<Rightarrow> redis_lists" where
  "hset k f e s = AList.update k (AList.update f e (redis_hash k s)) s"

definition hdel :: "string \<Rightarrow> string \<Rightarrow> redis_lists \<Rightarrow> redis_lists" where
  "hdel k f s = (let h = AList.delete f (redis_hash k s) in if h = [] then AList.delete k s else AList.update k h s)"

definition redis_add :: "string \<Rightarrow> list_entry \<Rightarrow> redis_lists \<Rightarrow> list_entry \<times> redis_lists" where
  "redis_add stamp e s = (let e' = entry_post_init stamp e in (e', hset (redis_key (le_type e) (le_tenant e)) (le_entity e) e' s))"

definition redis_remove :: "string \<Rightarrow> string \<Rightarrow> string \<Rightarrow> redis_lists \<Rightarrow> bool \<times> redis_lists" where
  "redis_remove lt tid eid s = (map_of (redis_hash (redis_key lt tid) s) eid \<noteq> None, hdel (redis_key lt tid) eid s)"

fun redis_check_in :: "string list \<Rightarrow> string \<Rightarrow> int \<Rightarrow> string \<Rightarrow> string \<Rightarrow> redis_lists \<Rightarrow> list_result \<times> redis_lists" where
  "redis_check_in [] stamp now tid eid s = (not_listed, s)"
| "redis_check_in (lt # lts) stamp now tid eid s = (case map_of (redis_hash (redis_key lt tid) s) eid of
       Some raw \<Rightarrow> (let e = entry_post_init stamp raw in
         if \<not> is_expired now e then (build_list_result now (Some e), s)
         else redis_check_in lts stamp now tid eid (hdel (redis_key lt tid) eid s))
     | None \<Rightarrow> redis_check_in lts stamp now tid eid s)"

definition redis_check :: "string \<Rightarrow> int \<Rightarrow> string \<Rightarrow> string \<Rightarrow> redis_lists \<Rightarrow> list_result \<times> redis_lists" where
  "redis_check stamp now tid eid s = redis_check_in check_order stamp now tid eid s"

definition redis_get_all :: "(list_entry list \<Rightarrow> list_entry list) \<Rightarrow> string \<Rightarrow> int \<Rightarrow> string \<Rightarrow> string \<Rightarrow> int \<Rightarrow> redis_lists \<Rightarrow> list_entry list" where
  "redis_get_all order stamp now lt tid limit s = take_limit limit (newest_first (filter (\<lambda>e. \<not> is_expired now e)
     (map (entry_post_init stamp) (order (map snd (redis_hash (redis_key lt tid) s))))))"

definition redis_get_entry :: "string \<Rightarrow> int \<Rightarrow> string \<Rightarrow> string \<Rightarrow> string \<Rightarrow> redis_lists \<Rightarrow> list_entry option" where
  "redis_get_entry stamp now lt tid eid s = live now (map_option (entry_post_init stamp) (map_of (redis_hash (redis_key lt tid) s) eid))"

definition redis_count :: "string \<Rightarrow> string \<Rightarrow> redis_lists \<Rightarrow> nat" where
  "redis_count lt tid s = length (redis_hash (redis_key lt tid) s)"

section \<open>The file store\<close>

type_synonym file_table = "(string \<times> (string \<times> list_entry) list) list"

record file_lists =
  fl_data :: "(string \<times> file_table) list"
  fl_disk :: "(string \<times> file_table) list"

definition get_table :: "'k \<Rightarrow> ('k \<times> 'v list) list \<Rightarrow> 'v list" where
  "get_table k d = (case map_of d k of None \<Rightarrow> [] | Some v \<Rightarrow> v)"

definition file_load :: "string \<Rightarrow> (string \<times> file_table) list \<Rightarrow> string \<Rightarrow> file_table" where
  "file_load stamp disk lt = map (\<lambda>(tid, es). (tid, map (\<lambda>(eid, e). (eid, entry_post_init stamp e)) es)) (get_table lt disk)"

definition file_connect :: "string \<Rightarrow> file_lists \<Rightarrow> file_lists" where
  "file_connect stamp s = s\<lparr>fl_data := fold (\<lambda>lt d. AList.update lt (file_load stamp (fl_disk s) lt) d) all_list_types (fl_data s)\<rparr>"

definition file_save :: "string \<Rightarrow> file_lists \<Rightarrow> file_lists" where
  "file_save lt s = s\<lparr>fl_disk := AList.update lt (get_table lt (fl_data s)) (fl_disk s)\<rparr>"

definition file_close :: "file_lists \<Rightarrow> file_lists" where
  "file_close s = fold file_save all_list_types s"

definition file_add :: "string \<Rightarrow> list_entry \<Rightarrow> file_lists \<Rightarrow> list_entry \<times> file_lists" where
  "file_add stamp e s = (let e' = entry_post_init stamp e; t = get_table (le_type e) (fl_data s) in
     (e', file_save (le_type e) (s\<lparr>fl_data := AList.update (le_type e)
        (AList.update (le_tenant e) (AList.update (le_entity e) e' (get_table (le_tenant e) t)) t) (fl_data s)\<rparr>)))"

definition file_find :: "string \<Rightarrow> string \<Rightarrow> string \<Rightarrow> file_lists \<Rightarrow> list_entry option" where
  "file_find lt tid eid s = map_of (get_table tid (get_table lt (fl_data s))) eid"

definition file_remove :: "string \<Rightarrow> string \<Rightarrow> string \<Rightarrow> file_lists \<Rightarrow> bool \<times> file_lists" where
  "file_remove lt tid eid s = (case file_find lt tid eid s of
       None \<Rightarrow> (False, s)
     | Some _ \<Rightarrow> (let t = get_table lt (fl_data s) in
         (True, file_save lt (s\<lparr>fl_data := AList.update lt (AList.update tid (AList.delete eid (get_table tid t)) t) (fl_data s)\<rparr>))))"

fun file_check_in :: "string list \<Rightarrow> int \<Rightarrow> string \<Rightarrow> string \<Rightarrow> file_lists \<Rightarrow> list_result" where
  "file_check_in [] now tid eid s = not_listed"
| "file_check_in (lt # lts) now tid eid s = (case file_find lt tid eid s of
       Some e \<Rightarrow> if \<not> is_expired now e then build_list_result now (Some e) else file_check_in lts now tid eid s
     | None \<Rightarrow> file_check_in lts now tid eid s)"

definition file_check :: "int \<Rightarrow> string \<Rightarrow> string \<Rightarrow> file_lists \<Rightarrow> list_result \<times> file_lists" where
  "file_check now tid eid s = (file_check_in check_order now tid eid s, s)"

definition file_rows :: "int \<Rightarrow> string \<Rightarrow> string \<Rightarrow> file_lists \<Rightarrow> list_entry list" where
  "file_rows now lt tid s = filter (\<lambda>e. \<not> is_expired now e) (map snd (get_table tid (get_table lt (fl_data s))))"

definition file_get_all :: "int \<Rightarrow> string \<Rightarrow> string \<Rightarrow> int \<Rightarrow> file_lists \<Rightarrow> list_entry list" where
  "file_get_all now lt tid limit s = take_limit limit (newest_first (file_rows now lt tid s))"

definition file_get_entry :: "int \<Rightarrow> string \<Rightarrow> string \<Rightarrow> string \<Rightarrow> file_lists \<Rightarrow> list_entry option" where
  "file_get_entry now lt tid eid s = live now (file_find lt tid eid s)"

definition file_count :: "int \<Rightarrow> string \<Rightarrow> string \<Rightarrow> file_lists \<Rightarrow> nat" where
  "file_count now lt tid s = length (file_rows now lt tid s)"

section \<open>The factory\<close>

datatype list_backend = MemoryBackend | RedisBackend string | FileBackend string | ApiBackend string string

definition create_list_store :: "string \<Rightarrow> string \<Rightarrow> string \<Rightarrow> string \<Rightarrow> string \<Rightarrow> list_backend res" where
  "create_list_store backend redis_url file_dir api_url api_key = (let b = lower backend in
     if b = ''redis'' then (if redis_url = [] then Inl ValueError else Inr (RedisBackend redis_url))
     else if b = ''file'' then Inr (FileBackend file_dir)
     else if b = ''api'' then (if api_url = [] then Inl ValueError else Inr (ApiBackend api_url api_key))
     else Inr MemoryBackend)"

section \<open>The contract of a store\<close>

type_synonym lists_spec = "string \<Rightarrow> string \<Rightarrow> string \<Rightarrow> list_entry option"

definition spec_add :: "list_entry \<Rightarrow> lists_spec \<Rightarrow> lists_spec" where
  "spec_add e a = (\<lambda>lt tid eid. if lt = le_type e \<and> tid = le_tenant e \<and> eid = le_entity e then Some e else a lt tid eid)"

definition spec_remove :: "string \<Rightarrow> string \<Rightarrow> string \<Rightarrow> lists_spec \<Rightarrow> lists_spec" where
  "spec_remove lt tid eid a = (\<lambda>l t e. if l = lt \<and> t = tid \<and> e = eid then None else a l t e)"

fun spec_check_in :: "string list \<Rightarrow> int \<Rightarrow> string \<Rightarrow> string \<Rightarrow> lists_spec \<Rightarrow> list_result" where
  "spec_check_in [] now tid eid a = not_listed"
| "spec_check_in (lt # lts) now tid eid a =
     (case live now (a lt tid eid) of Some e \<Rightarrow> build_list_result now (Some e) | None \<Rightarrow> spec_check_in lts now tid eid a)"

text \<open>A timed operation, what a caller sees of it, and a run over the operations of any store.\<close>

datatype list_op = LAdd list_entry | LRemove string string string | LCheck string string | LGet string string string

datatype list_obs = Checked list_result | Got "list_entry option" | Unit

fun spec_step :: "int \<times> list_op \<Rightarrow> lists_spec \<Rightarrow> list_obs \<times> lists_spec" where
  "spec_step (now, LAdd e) a = (Unit, spec_add e a)"
| "spec_step (now, LRemove lt tid eid) a = (Unit, spec_remove lt tid eid a)"
| "spec_step (now, LCheck tid eid) a = (Checked (spec_check_in check_order now tid eid a), a)"
| "spec_step (now, LGet lt tid eid) a = (Got (live now (a lt tid eid)), a)"

fun run_ops :: "(int \<times> list_op \<Rightarrow> 's \<Rightarrow> list_obs \<times> 's) \<Rightarrow> (int \<times> list_op) list \<Rightarrow> 's \<Rightarrow> list_obs list \<times> 's" where
  "run_ops step [] s = ([], s)"
| "run_ops step (x # xs) s = (case step x s of (ob, s') \<Rightarrow> (case run_ops step xs s' of (obs, s'') \<Rightarrow> (ob # obs, s'')))"

text \<open>Operations on lists of the three kinds, with stamped entries, for tenants the store can name.\<close>

fun op_ok :: "(string \<Rightarrow> bool) \<Rightarrow> list_op \<Rightarrow> bool" where
  "op_ok nm (LAdd e) = (nm (le_tenant e) \<and> le_type e \<in> set all_list_types \<and> le_created e \<noteq> [])"
| "op_ok nm (LRemove lt tid eid) = (nm tid \<and> lt \<in> set all_list_types)"
| "op_ok nm (LCheck tid eid) = nm tid"
| "op_ok nm (LGet lt tid eid) = (nm tid \<and> lt \<in> set all_list_types)"

definition same_live :: "(string \<Rightarrow> bool) \<Rightarrow> int \<Rightarrow> lists_spec \<Rightarrow> lists_spec \<Rightarrow> bool" where
  "same_live nm now a b = (\<forall>lt tid eid. lt \<in> set all_list_types \<longrightarrow> nm tid \<longrightarrow> live now (a lt tid eid) = live now (b lt tid eid))"

lemma is_expired_mono: "now \<le> later \<Longrightarrow> is_expired now e \<Longrightarrow> is_expired later e"
  by (auto simp: is_expired_def split: option.splits sum.splits if_splits)

lemma live_later: "now \<le> later \<Longrightarrow> live later x = live later (live now x)"
  using is_expired_mono [of now later] by (cases x) (auto simp: live_def)

lemma live_mono: "live now x = live now y \<Longrightarrow> now \<le> later \<Longrightarrow> live later x = live later y"
  by (metis live_later)

lemma same_live_mono: "same_live nm now a b \<Longrightarrow> now \<le> later \<Longrightarrow> same_live nm later a b"
  unfolding same_live_def by (blast intro: live_mono)

lemma same_live_trans: "same_live nm now a b \<Longrightarrow> same_live nm now b c \<Longrightarrow> same_live nm now a c"
  by (simp add: same_live_def)

lemma same_live_add: "same_live nm now a b \<Longrightarrow> same_live nm now (spec_add e a) (spec_add e b)"
  by (simp add: same_live_def spec_add_def)

lemma same_live_remove: "same_live nm now a b \<Longrightarrow> same_live nm now (spec_remove lt tid eid a) (spec_remove lt tid eid b)"
  by (simp add: same_live_def spec_remove_def)

lemma same_live_check_in:
  "same_live nm now a b \<Longrightarrow> nm tid \<Longrightarrow> set lts \<subseteq> set all_list_types \<Longrightarrow> spec_check_in lts now tid eid a = spec_check_in lts now tid eid b"
  by (induction lts) (auto simp: same_live_def split: option.splits)

lemma check_order_types: "set check_order \<subseteq> set all_list_types"
  by (simp add: check_order_def all_list_types_def)

locale list_store =
  fixes step :: "int \<times> list_op \<Rightarrow> 's \<Rightarrow> list_obs \<times> 's"
    and view :: "'s \<Rightarrow> lists_spec"
    and good :: "'s \<Rightarrow> bool"
    and nm :: "string \<Rightarrow> bool"
  assumes good_step: "good s \<Longrightarrow> op_ok nm op \<Longrightarrow> good (snd (step (now, op) s))"
    and obs_step: "good s \<Longrightarrow> op_ok nm op \<Longrightarrow> fst (step (now, op) s) = fst (spec_step (now, op) (view s))"
    and view_step: "good s \<Longrightarrow> op_ok nm op \<Longrightarrow> same_live nm now (view (snd (step (now, op) s))) (snd (spec_step (now, op) (view s)))"
begin

lemma spec_step_same:
  assumes "same_live nm now a b" "op_ok nm op"
  shows "fst (spec_step (now, op) a) = fst (spec_step (now, op) b) \<and>
    same_live nm now (snd (spec_step (now, op) a)) (snd (spec_step (now, op) b))"
  using assms same_live_check_in [OF assms(1) _ check_order_types]
  by (cases op) (simp_all add: same_live_add same_live_remove, simp add: same_live_def)

lemma run_refines:
  assumes "good s" "same_live nm t (view s) a" "sorted (t # map fst ops)" "\<forall>x \<in> set ops. op_ok nm (snd x)"
  shows "fst (run_ops step ops s) = fst (run_ops spec_step ops a)"
  using assms
proof (induction ops arbitrary: s a t)
  case (Cons x ops)
  obtain now op where x: "x = (now, op)" by fastforce
  have ok: "op_ok nm op" and le: "t \<le> now" using Cons.prems x by auto
  have sim: "same_live nm now (view s) a" using same_live_mono [OF Cons.prems(2) le] .
  note sp = spec_step_same [OF sim ok]
  have "same_live nm now (view (snd (step x s))) (snd (spec_step x a))"
    using same_live_trans [OF view_step [OF Cons.prems(1) ok]] sp x by blast
  moreover have "good (snd (step x s))" using good_step [OF Cons.prems(1) ok] x by simp
  ultimately have "fst (run_ops step ops (snd (step x s))) = fst (run_ops spec_step ops (snd (spec_step x a)))"
    using Cons.prems x by (intro Cons.IH [of _ now]) auto
  moreover have "fst (step x s) = fst (spec_step x a)" using obs_step [OF Cons.prems(1) ok] sp x by simp
  ultimately show ?case by (simp add: case_prod_unfold)
qed simp

end

section \<open>The stores keep it\<close>

fun mem_step :: "int \<times> list_op \<Rightarrow> mem_lists \<Rightarrow> list_obs \<times> mem_lists" where
  "mem_step (now, LAdd e) s = (Unit, snd (mem_add [] e s))"
| "mem_step (now, LRemove lt tid eid) s = (Unit, snd (mem_remove lt tid eid s))"
| "mem_step (now, LCheck tid eid) s = (case mem_check now tid eid s of (r, s') \<Rightarrow> (Checked r, s'))"
| "mem_step (now, LGet lt tid eid) s = (Got (mem_get_entry now lt tid eid s), s)"

fun redis_step :: "int \<times> list_op \<Rightarrow> redis_lists \<Rightarrow> list_obs \<times> redis_lists" where
  "redis_step (now, LAdd e) s = (Unit, snd (redis_add [] e s))"
| "redis_step (now, LRemove lt tid eid) s = (Unit, snd (redis_remove lt tid eid s))"
| "redis_step (now, LCheck tid eid) s = (case redis_check [] now tid eid s of (r, s') \<Rightarrow> (Checked r, s'))"
| "redis_step (now, LGet lt tid eid) s = (Got (redis_get_entry [] now lt tid eid s), s)"

fun file_step :: "int \<times> list_op \<Rightarrow> file_lists \<Rightarrow> list_obs \<times> file_lists" where
  "file_step (now, LAdd e) s = (Unit, snd (file_add [] e s))"
| "file_step (now, LRemove lt tid eid) s = (Unit, snd (file_remove lt tid eid s))"
| "file_step (now, LCheck tid eid) s = (case file_check now tid eid s of (r, s') \<Rightarrow> (Checked r, s'))"
| "file_step (now, LGet lt tid eid) s = (Got (file_get_entry now lt tid eid s), s)"

definition colon_free :: "string \<Rightarrow> bool" where
  "colon_free s = (CHR '':'' \<notin> set s)"

definition mem_view :: "mem_lists \<Rightarrow> lists_spec" where
  "mem_view s = (\<lambda>lt tid eid. map_of s (mem_key lt tid eid))"

lemma append_sep_inj: "c \<notin> set a \<Longrightarrow> c \<notin> set b \<Longrightarrow> a @ c # x = b @ c # y \<longleftrightarrow> a = b \<and> x = y"
proof (induction a arbitrary: b)
  case Nil
  then show ?case by (cases b) auto
next
  case (Cons d a)
  then show ?case by (cases b) auto
qed

lemma list_type_colon_free: "lt \<in> set all_list_types \<Longrightarrow> CHR '':'' \<notin> set lt"
  by (auto simp: all_list_types_def)

lemma mem_key_inj:
  assumes "lt \<in> set all_list_types" "lt' \<in> set all_list_types" "colon_free tid" "colon_free tid'"
  shows "mem_key lt tid eid = mem_key lt' tid' eid' \<longleftrightarrow> lt = lt' \<and> tid = tid' \<and> eid = eid'"
  using assms list_type_colon_free by (simp add: mem_key_def append_sep_inj colon_free_def)

lemma redis_key_inj:
  "lt \<in> set all_list_types \<Longrightarrow> lt' \<in> set all_list_types \<Longrightarrow> redis_key lt tid = redis_key lt' tid' \<longleftrightarrow> lt = lt' \<and> tid = tid'"
  using list_type_colon_free by (simp add: redis_key_def append_sep_inj)

lemma post_init_stamped [simp]: "le_created e \<noteq> [] \<Longrightarrow> entry_post_init st e = e"
  by (simp add: entry_post_init_def)

lemma mem_check_in_spec: "mem_check_in lts now tid eid s = spec_check_in lts now tid eid (mem_view s)"
  by (induction lts) (auto simp: mem_view_def live_def split: option.splits)

lemma mem_view_add:
  assumes "op_ok colon_free (LAdd e)" "lt \<in> set all_list_types" "colon_free tid"
  shows "mem_view (snd (mem_add st e s)) lt tid eid = spec_add e (mem_view s) lt tid eid"
proof -
  have "mem_key lt tid eid = mem_key (le_type e) (le_tenant e) (le_entity e) \<longleftrightarrow> lt = le_type e \<and> tid = le_tenant e \<and> eid = le_entity e"
    using assms by (intro mem_key_inj) auto
  then show ?thesis using assms(1) by (simp add: mem_view_def mem_add_def Let_def spec_add_def update_conv')
qed

lemma mem_view_remove:
  assumes "op_ok colon_free (LRemove l t e)" "lt \<in> set all_list_types" "colon_free tid"
  shows "mem_view (snd (mem_remove l t e s)) lt tid eid = spec_remove l t e (mem_view s) lt tid eid"
proof -
  have "mem_key lt tid eid = mem_key l t e \<longleftrightarrow> lt = l \<and> tid = t \<and> eid = e"
    using assms by (intro mem_key_inj) auto
  then show ?thesis by (simp add: mem_view_def mem_remove_def spec_remove_def delete_conv')
qed

interpretation ml: list_store mem_step mem_view "\<lambda>_. True" colon_free
proof unfold_locales
  fix now op s
  assume ok: "op_ok colon_free op"
  show "fst (mem_step (now, op) s) = fst (spec_step (now, op) (mem_view s))"
    by (cases op) (simp_all add: mem_check_def mem_check_in_spec mem_get_entry_def mem_view_def)
  show "same_live colon_free now (mem_view (snd (mem_step (now, op) s))) (snd (spec_step (now, op) (mem_view s)))"
    using ok mem_view_add mem_view_remove by (cases op) (simp_all add: same_live_def mem_check_def)
qed simp

text \<open>Redis: a field is in the hash of its list and tenant, and an expired field may have been dropped.\<close>

definition redis_view :: "redis_lists \<Rightarrow> lists_spec" where
  "redis_view s = (\<lambda>lt tid eid. map_of (redis_hash (redis_key lt tid) s) eid)"

definition redis_good :: "redis_lists \<Rightarrow> bool" where
  "redis_good s = (\<forall>k f e. map_of (redis_hash k s) f = Some e \<longrightarrow> le_created e \<noteq> [])"

lemma redis_hash_hset: "map_of (redis_hash k' (hset k f e s)) f' = (if k' = k \<and> f' = f then Some e else map_of (redis_hash k' s) f')"
  by (simp add: redis_hash_def hset_def update_conv')

lemma redis_hash_hdel: "map_of (redis_hash k' (hdel k f s)) f' = (if k' = k \<and> f' = f then None else map_of (redis_hash k' s) f')"
proof (cases "AList.delete f (redis_hash k s) = []")
  case True
  then have "map_of (redis_hash k s) g = None" if "g \<noteq> f" for g
    using that by (metis delete_conv' fun_upd_other map_of.simps(1))
  then show ?thesis using True by (auto simp: hdel_def redis_hash_def delete_conv')
next
  case False
  then show ?thesis by (simp add: hdel_def Let_def) (simp add: redis_hash_def update_conv' delete_conv')
qed

lemma redis_good_hset: "redis_good s \<Longrightarrow> le_created e \<noteq> [] \<Longrightarrow> redis_good (hset k f e s)"
  by (simp add: redis_good_def redis_hash_hset)

lemma redis_good_hdel: "redis_good s \<Longrightarrow> redis_good (hdel k f s)"
  by (simp add: redis_good_def redis_hash_hdel)

lemma redis_view_hdel:
  assumes "lt \<in> set all_list_types" "l \<in> set all_list_types"
  shows "redis_view (hdel (redis_key l t) f s) lt tid eid = spec_remove l t f (redis_view s) lt tid eid"
  using redis_key_inj [OF assms] by (auto simp: redis_view_def redis_hash_hdel spec_remove_def)

lemma redis_view_hset:
  assumes "lt \<in> set all_list_types" "le_type e \<in> set all_list_types"
  shows "redis_view (hset (redis_key (le_type e) (le_tenant e)) (le_entity e) e s) lt tid eid = spec_add e (redis_view s) lt tid eid"
  using redis_key_inj [OF assms] by (auto simp: redis_view_def redis_hash_hset spec_add_def)

lemma redis_drop_expired:
  assumes "redis_view s l t f = Some e" "is_expired now e" "l \<in> set all_list_types"
  shows "same_live nm now (redis_view (hdel (redis_key l t) f s)) (redis_view s)"
  using assms by (simp add: same_live_def redis_view_hdel spec_remove_def live_def)

lemma redis_check_in_spec:
  assumes "redis_good s" "set lts \<subseteq> set all_list_types"
  shows "redis_good (snd (redis_check_in lts st now tid eid s)) \<and>
    fst (redis_check_in lts st now tid eid s) = spec_check_in lts now tid eid (redis_view s) \<and>
    same_live (\<lambda>_. True) now (redis_view (snd (redis_check_in lts st now tid eid s))) (redis_view s)"
  using assms
proof (induction lts arbitrary: s)
  case (Cons lt lts)
  show ?case
  proof (cases "redis_view s lt tid eid")
    case None
    then show ?thesis using Cons by (simp add: redis_view_def live_def)
  next
    case (Some e)
    then have raw: "map_of (redis_hash (redis_key lt tid) s) eid = Some e" by (simp add: redis_view_def)
    then have st: "entry_post_init st e = e" using Cons.prems(1) by (simp add: redis_good_def)
    show ?thesis
    proof (cases "is_expired now e")
      case False
      then show ?thesis using Cons.prems Some raw st by (simp add: live_def same_live_def Let_def)
    next
      case True
      let ?s = "hdel (redis_key lt tid) eid s"
      have same: "same_live (\<lambda>_. True) now (redis_view ?s) (redis_view s)"
        using redis_drop_expired [OF Some True] Cons.prems by simp
      have "spec_check_in lts now tid eid (redis_view ?s) = spec_check_in lts now tid eid (redis_view s)"
        using same_live_check_in [OF same] Cons.prems by simp
      then show ?thesis using Cons.IH [OF redis_good_hdel [OF Cons.prems(1)]] Cons.prems True Some raw st same
        by (auto simp: live_def Let_def intro: same_live_trans)
    qed
  qed
qed (simp add: same_live_def)

interpretation rl: list_store redis_step redis_view redis_good "\<lambda>_. True"
proof unfold_locales
  fix now op s
  assume g: "redis_good s" and ok: "op_ok (\<lambda>_. True) op"
  note ck = redis_check_in_spec [OF g check_order_types]
  show "redis_good (snd (redis_step (now, op) s))"
    using g ok ck by (cases op) (simp_all add: redis_add_def redis_remove_def redis_check_def Let_def redis_good_hset redis_good_hdel case_prod_unfold)
  have "map_option (entry_post_init st) (map_of (redis_hash k s) f) = map_of (redis_hash k s) f" for st k f
    using g by (cases "map_of (redis_hash k s) f") (auto simp: redis_good_def)
  then show "fst (redis_step (now, op) s) = fst (spec_step (now, op) (redis_view s))"
    using ck by (cases op) (simp_all add: redis_check_def redis_get_entry_def case_prod_unfold, simp add: redis_view_def)
  show "same_live (\<lambda>_. True) now (redis_view (snd (redis_step (now, op) s))) (snd (spec_step (now, op) (redis_view s)))"
    using ok ck by (cases op) (simp_all add: redis_add_def redis_remove_def redis_check_def Let_def case_prod_unfold
        same_live_def redis_view_hset redis_view_hdel)
qed

text \<open>The file store: what is on disk is what is in memory.\<close>

definition file_view :: "file_lists \<Rightarrow> lists_spec" where
  "file_view s = (\<lambda>lt tid eid. file_find lt tid eid s)"

definition file_good :: "file_lists \<Rightarrow> bool" where
  "file_good s = ((\<forall>lt \<in> set all_list_types. get_table lt (fl_disk s) = get_table lt (fl_data s)) \<and>
     (\<forall>lt \<in> set all_list_types. \<forall>(tid, es) \<in> set (get_table lt (fl_data s)). \<forall>(eid, e) \<in> set es. le_created e \<noteq> []))"

lemma get_table_update: "get_table k' (AList.update k v d) = (if k' = k then v else get_table k' d)"
  by (simp add: get_table_def update_conv')

lemma set_update_subset: "set (AList.update k v d) \<subseteq> insert (k, v) (set d)"
  by (induction d) auto

lemma set_delete_subset: "set (AList.delete k d) \<subseteq> set d"
  by (induction d) auto

lemma get_table_member: "x \<in> set (get_table k d) \<Longrightarrow> \<exists>v. (k, v) \<in> set d \<and> x \<in> set v"
  by (cases "map_of d k") (auto simp: get_table_def dest: map_of_SomeD)

lemma file_view_add: "file_view (snd (file_add st e s)) = spec_add (entry_post_init st e) (file_view s)"
  by (intro ext) (auto simp: file_view_def file_find_def file_add_def file_save_def Let_def get_table_update update_conv'
      spec_add_def entry_post_init_def)

lemma file_view_remove: "file_view (snd (file_remove lt tid eid s)) = spec_remove lt tid eid (file_view s)"
  by (intro ext) (auto simp: file_view_def file_remove_def file_save_def Let_def spec_remove_def file_find_def get_table_update
      delete_conv' split: option.splits)

lemma file_check_in_spec: "file_check_in lts now tid eid s = spec_check_in lts now tid eid (file_view s)"
  by (induction lts) (auto simp: file_view_def live_def split: option.splits)

lemma file_good_put:
  assumes "file_good s" "\<And>f x. (f, x) \<in> set es \<Longrightarrow> le_created x \<noteq> []"
  shows "file_good (file_save lt (s\<lparr>fl_data := AList.update lt (AList.update tid es (get_table lt (fl_data s))) (fl_data s)\<rparr>))"
  using assms set_update_subset [of tid es "get_table lt (fl_data s)"]
  by (fastforce simp: file_good_def file_save_def get_table_update)

lemma file_good_rows:
  assumes "file_good s" "lt \<in> set all_list_types" "(f, x) \<in> set (get_table tid (get_table lt (fl_data s)))"
  shows "le_created x \<noteq> []"
  using assms get_table_member [OF assms(3)] by (fastforce simp: file_good_def)

lemma file_good_add: "file_good s \<Longrightarrow> op_ok nm (LAdd e) \<Longrightarrow> file_good (snd (file_add st e s))"
  unfolding file_add_def Let_def snd_conv
  using file_good_rows [of s "le_type e"] set_update_subset by (intro file_good_put) fastforce+

lemma file_good_remove: "file_good s \<Longrightarrow> lt \<in> set all_list_types \<Longrightarrow> file_good (snd (file_remove lt tid eid s))"
proof (cases "file_find lt tid eid s")
  case (Some e)
  assume g: "file_good s" and lt: "lt \<in> set all_list_types"
  have "le_created x \<noteq> []" if "(f, x) \<in> set (AList.delete eid (get_table tid (get_table lt (fl_data s))))" for f x
    using file_good_rows [OF g lt, of f x tid] set_delete_subset [of eid "get_table tid (get_table lt (fl_data s))"] that by auto
  then show ?thesis using Some file_good_put [OF g] by (simp add: file_remove_def Let_def)
qed (simp add: file_remove_def)

interpretation fl: list_store file_step file_view file_good "\<lambda>_. True"
proof unfold_locales
  fix now op s
  assume g: "file_good s" and ok: "op_ok (\<lambda>_. True) op"
  show "file_good (snd (file_step (now, op) s))"
    using g ok file_good_add [OF g] file_good_remove [OF g] by (cases op) (simp_all add: file_check_def)
  show "fst (file_step (now, op) s) = fst (spec_step (now, op) (file_view s))"
    by (cases op) (simp_all add: file_check_def file_check_in_spec file_get_entry_def file_view_def)
  show "same_live (\<lambda>_. True) now (file_view (snd (file_step (now, op) s))) (snd (spec_step (now, op) (file_view s)))"
    using ok by (cases op) (simp_all add: file_view_add file_view_remove file_check_def same_live_def)
qed

section \<open>Properties of the lists\<close>


definition sample_entry :: "string \<Rightarrow> string \<Rightarrow> string \<Rightarrow> string option \<Rightarrow> list_entry" where
  "sample_entry lt tid eid ex = \<lparr>le_type = lt, le_tenant = tid, le_entity = eid, le_reason = ''r'', le_by = ''system'',
     le_expires = ex, le_meta = [], le_created = ''2026-01-01''\<rparr>"

definition sample_ops :: "(int \<times> list_op) list" where
  "sample_ops = [(1, LAdd (sample_entry ''whitelist'' ''t'' ''e'' None)),
     (2, LAdd (sample_entry ''blacklist'' ''t'' ''e'' (Some ''1970-01-01T00:00:00+00:00''))), (3, LCheck ''t'' ''e'')]"


text \<open>
  The in-process store mixes tenants.  Its key joins list, tenant and entity with colons, so whatever is listed for
  entity \<open>b:c\<close> of tenant \<open>a\<close> is what tenant \<open>a:b\<close> finds for entity \<open>c\<close>.
\<close>

theorem mem_tenants_collide:
  "mem_check now (a @ '':'' @ b) c s = mem_check now a (b @ '':'' @ c) s"
proof -
  have "mem_key lt (a @ '':'' @ b) c = mem_key lt a (b @ '':'' @ c)" for lt by (simp add: mem_key_def)
  then have "mem_check_in lts now (a @ '':'' @ b) c s = mem_check_in lts now a (b @ '':'' @ c) s" for lts
    by (induction lts) (simp_all split: option.splits)
  then show ?thesis by (simp add: mem_check_def)
qed

text \<open>
  An expiry without a UTC offset, or one that is not a date, never comes: at every time the entry is live.
\<close>

theorem unzoned_expiry_never_comes:
  assumes "le_expires e = Some s" and "\<And>local off. fromisoformat s \<noteq> Inr (local, Some off)"
  shows "\<not> is_expired now e"
  using assms by (auto simp: is_expired_def split: sum.splits option.splits)

theorem unzoned_expiry_never_comes_witness:
  "\<not> is_expired 99999999999999999 (sample_entry ''whitelist'' ''t'' ''e'' (Some ''1970-01-02T00:00:00''))"
proof -
  have "fromisoformat ''1970-01-02T00:00:00'' = Inr (86400000000, None)" by code_simp
  then show ?thesis
    by (intro unzoned_expiry_never_comes [where s = "''1970-01-02T00:00:00''"]) (simp_all add: sample_entry_def)
qed

lemma blacklist_wins:
  "live now (a ''blacklist'' tid eid) = Some e \<Longrightarrow> le_type e = ''blacklist'' \<Longrightarrow> lr_action (spec_check_in check_order now tid eid a) = ''deny''"
  by (auto simp: check_order_def build_list_result_def list_action_def live_def split: option.splits if_splits)

text \<open>Redis counts the fields of the hash, so it counts entries \<open>get_all\<close> does not return.\<close>

lemma redis_count_counts_expired:
  assumes "is_expired now e" "le_created e \<noteq> []"
  shows "redis_count (le_type e) (le_tenant e) (snd (redis_add st e [])) = 1 \<and>
    redis_get_all id st now (le_type e) (le_tenant e) n (snd (redis_add st e [])) = []"
  using assms by (simp add: redis_count_def redis_get_all_def redis_add_def hset_def redis_hash_def newest_first_def take_limit_def)

section \<open>Reopening the file store\<close>

lemma file_load_good:
  assumes "file_good s" "lt \<in> set all_list_types"
  shows "file_load st (fl_disk s) lt = get_table lt (fl_data s)"
proof -
  have "map (\<lambda>(eid, e). (eid, entry_post_init st e)) es = es" if "(tid, es) \<in> set (get_table lt (fl_data s))" for tid es
    using that assms by (intro map_idI) (fastforce simp: file_good_def)
  then have "map (\<lambda>(tid, es). (tid, map (\<lambda>(eid, e). (eid, entry_post_init st e)) es)) (get_table lt (fl_data s)) = get_table lt (fl_data s)"
    by (intro map_idI) auto
  then show ?thesis using assms by (simp add: file_load_def file_good_def)
qed

lemma file_connect_table: "lt \<in> set all_list_types \<Longrightarrow> get_table lt (fl_data (file_connect st s)) = file_load st (fl_disk s) lt"
  by (auto simp: file_connect_def all_list_types_def get_table_update)

lemma run_file_good: "file_good s \<Longrightarrow> \<forall>x \<in> set ops. op_ok (\<lambda>_. True) (snd x) \<Longrightarrow> file_good (snd (run_ops file_step ops s))"
proof (induction ops arbitrary: s)
  case (Cons x ops)
  then have "file_good (snd (file_step x s))" using fl.good_step [of s "snd x" "fst x"] by simp
  then show ?case using Cons by (simp add: case_prod_unfold)
qed simp

text \<open>
  C20: nothing is lost when a process ends.  After any run of operations on an empty file store, a new process that connects
  to the same directory finds every entry of every list.
\<close>

theorem file_store_survives_restart:
  assumes "\<forall>x \<in> set ops. op_ok (\<lambda>_. True) (snd x)" and "lt \<in> set all_list_types"
    and "s = snd (run_ops file_step ops \<lparr>fl_data = [], fl_disk = []\<rparr>)"
  shows "file_find lt tid eid (file_connect st \<lparr>fl_data = [], fl_disk = fl_disk s\<rparr>) = file_find lt tid eid s"
proof -
  have "file_good \<lparr>fl_data = [], fl_disk = []\<rparr>" by (simp add: file_good_def get_table_def)
  then have "file_load st (fl_disk s) lt = get_table lt (fl_data s)"
    using file_load_good [OF _ assms(2)] run_file_good [OF _ assms(1)] assms(3) by blast
  then show ?thesis using assms(2) by (simp add: file_find_def file_connect_table)
qed

theorem file_store_survives_restart_witness:
  "file_find ''whitelist'' ''t'' ''e'' (file_connect [] \<lparr>fl_data = [],
     fl_disk = fl_disk (snd (run_ops file_step sample_ops \<lparr>fl_data = [], fl_disk = []\<rparr>))\<rparr>) = Some (sample_entry ''whitelist'' ''t'' ''e'' None)"
proof -
  have "\<forall>x \<in> set sample_ops. op_ok (\<lambda>_. True) (snd x)" "''whitelist'' \<in> set all_list_types" by code_simp+
  moreover have "file_find ''whitelist'' ''t'' ''e'' (snd (run_ops file_step sample_ops \<lparr>fl_data = [], fl_disk = []\<rparr>))
      = Some (sample_entry ''whitelist'' ''t'' ''e'' None)" by code_simp
  ultimately show ?thesis using file_store_survives_restart [OF _ _ refl] by metis
qed

end
