(* ===== verification/Webhook_Sender.thy ===== *)
theory Webhook_Sender
  imports Py_Json
begin

text \<open>
  Webhook delivery with retries and a dead letter queue: \<open>shared/webhook_sender.py\<close>.

  The coroutines interleave at their awaits, so a webhook in flight is a task of the state and every stretch of code between
  two awaits is one operation: creating a record, the end of a request, the start of the retry loop, taking a record
  from the dead letter queue.  Records are shared objects and live in a table by id.  The id (\<open>uuid4\<close>), the time texts
  and the outcome of a request are inputs.  The requests made are logged, so that their headers can be spoken of.
\<close>

section \<open>State\<close>

datatype outcome = Answer int | Raised string

record wh_attempt =
  wa_number :: nat
  wa_code :: "int option"
  wa_error :: "string option"
  wa_time :: string

record wh_record =
  wr_url :: string
  wr_payload :: dict
  wr_status :: string
  wr_attempts :: "wh_attempt list"
  wr_created :: string

type_synonym headers_opt = "(string \<times> string) list option"

datatype wh_task = Sending headers_opt | Scheduled headers_opt | Looping nat headers_opt | DlqRetrying

record sender =
  ws_max :: int
  ws_recs :: "(string \<times> wh_record) list"
  ws_pending :: "string list"
  ws_dlq :: "string list"
  ws_tasks :: "(string \<times> wh_task) list"
  ws_sent :: "(string \<times> (string \<times> string) list) list"

definition new_sender :: "int \<Rightarrow> sender" where
  "new_sender m = \<lparr>ws_max = m, ws_recs = [], ws_pending = [], ws_dlq = [], ws_tasks = [], ws_sent = []\<rparr>"

section \<open>Operations\<close>

definition upd_rec :: "string \<Rightarrow> (wh_record \<Rightarrow> wh_record) \<Rightarrow> sender \<Rightarrow> sender" where
  "upd_rec i f s = (case map_of (ws_recs s) i of None \<Rightarrow> s | Some r \<Rightarrow> s\<lparr>ws_recs := AList.update i (f r) (ws_recs s)\<rparr>)"

definition request_headers :: "string \<Rightarrow> headers_opt \<Rightarrow> (string \<times> string) list" where
  "request_headers i hs = (let h = [(''Content-Type'', ''application/json''), (''X-Webhook-Id'', i)] in
     case hs of None \<Rightarrow> h | Some extra \<Rightarrow> fold (\<lambda>(k, v) d. AList.update k v d) extra h)"

definition outcome_ok :: "outcome \<Rightarrow> bool" where
  "outcome_ok out = (case out of Answer c \<Rightarrow> 200 \<le> c \<and> c < 300 | Raised _ \<Rightarrow> False)"

definition attempt_of :: "nat \<Rightarrow> outcome \<Rightarrow> string \<Rightarrow> wh_attempt" where
  "attempt_of n out t = (case out of
       Answer c \<Rightarrow> \<lparr>wa_number = n, wa_code = Some c, wa_error = None, wa_time = t\<rparr>
     | Raised e \<Rightarrow> \<lparr>wa_number = n, wa_code = None, wa_error = Some e, wa_time = t\<rparr>)"

definition wh_attempt_done :: "string \<Rightarrow> headers_opt \<Rightarrow> outcome \<Rightarrow> string \<Rightarrow> sender \<Rightarrow> sender" where
  "wh_attempt_done i hs out t s = upd_rec i (\<lambda>r. r\<lparr>wr_attempts := wr_attempts r @ [attempt_of (length (wr_attempts r) + 1) out t]\<rparr>)
     (s\<lparr>ws_sent := ws_sent s @ [(i, request_headers i hs)]\<rparr>)"

definition delivered :: "string \<Rightarrow> sender \<Rightarrow> sender" where
  "delivered i s = upd_rec i (\<lambda>r. r\<lparr>wr_status := ''delivered''\<rparr>)
     (s\<lparr>ws_pending := removeAll i (ws_pending s), ws_tasks := AList.delete i (ws_tasks s)\<rparr>)"

definition to_dlq :: "string \<Rightarrow> sender \<Rightarrow> sender" where
  "to_dlq i s = upd_rec i (\<lambda>r. r\<lparr>wr_status := ''dlq''\<rparr>)
     (s\<lparr>ws_pending := removeAll i (ws_pending s), ws_dlq := ws_dlq s @ [i], ws_tasks := AList.delete i (ws_tasks s)\<rparr>)"

text \<open>\<open>for i in range(1, max_retries)\<close>, entered or continued at \<open>n\<close>.\<close>

definition loop_at :: "string \<Rightarrow> headers_opt \<Rightarrow> nat \<Rightarrow> sender \<Rightarrow> sender" where
  "loop_at i hs n s = (if int n < ws_max s then s\<lparr>ws_tasks := AList.update i (Looping n hs) (ws_tasks s)\<rparr> else to_dlq i s)"

definition send_start :: "string \<Rightarrow> string \<Rightarrow> dict \<Rightarrow> headers_opt \<Rightarrow> string \<Rightarrow> sender \<Rightarrow> sender" where
  "send_start i url payload hs t s = s\<lparr>
     ws_recs := AList.update i \<lparr>wr_url = url, wr_payload = payload, wr_status = ''pending'', wr_attempts = [], wr_created = t\<rparr> (ws_recs s),
     ws_pending := ws_pending s @ [i], ws_tasks := AList.update i (Sending hs) (ws_tasks s)\<rparr>"

definition send_done :: "string \<Rightarrow> headers_opt \<Rightarrow> outcome \<Rightarrow> string \<Rightarrow> sender \<Rightarrow> sender" where
  "send_done i hs out t s = (let s1 = wh_attempt_done i hs out t s in
     if outcome_ok out then delivered i s1 else s1\<lparr>ws_tasks := AList.update i (Scheduled hs) (ws_tasks s1)\<rparr>)"

definition loop_done :: "string \<Rightarrow> nat \<Rightarrow> headers_opt \<Rightarrow> outcome \<Rightarrow> string \<Rightarrow> sender \<Rightarrow> sender" where
  "loop_done i n hs out t s = (let s1 = wh_attempt_done i hs out t s in
     if outcome_ok out then delivered i s1 else loop_at i hs (Suc n) s1)"

definition retry_delay :: "rat \<Rightarrow> rat \<Rightarrow> nat \<Rightarrow> rat" where
  "retry_delay base max_delay n = min (base * 2 ^ n) max_delay"

text \<open>\<open>retry_dlq_item\<close> up to its await, and after it.  A record not in the queue leaves the state as it is.\<close>

definition dlq_start :: "string \<Rightarrow> sender \<Rightarrow> sender" where
  "dlq_start i s = (if i \<in> set (ws_dlq s)
     then upd_rec i (\<lambda>r. r\<lparr>wr_status := ''pending''\<rparr>) (s\<lparr>ws_dlq := remove1 i (ws_dlq s), ws_tasks := AList.update i DlqRetrying (ws_tasks s)\<rparr>)
     else s)"

definition dlq_done :: "string \<Rightarrow> outcome \<Rightarrow> string \<Rightarrow> sender \<Rightarrow> bool \<times> sender" where
  "dlq_done i out t s = (let s1 = (wh_attempt_done i None out t s)\<lparr>ws_tasks := AList.delete i (ws_tasks s)\<rparr> in
     if outcome_ok out then (True, upd_rec i (\<lambda>r. r\<lparr>wr_status := ''delivered''\<rparr>) s1)
     else (False, s1\<lparr>ws_dlq := ws_dlq s1 @ [i]\<rparr>))"

definition get_dlq :: "sender \<Rightarrow> (string \<times> string \<times> string \<times> nat \<times> string \<times> string option) list" where
  "get_dlq s = concat (map (\<lambda>i. case map_of (ws_recs s) i of None \<Rightarrow> []
     | Some r \<Rightarrow> [(i, wr_url r, wr_status r, length (wr_attempts r), wr_created r,
         if wr_attempts r = [] then None else wa_error (last (wr_attempts r)))]) (ws_dlq s))"

definition get_pending :: "sender \<Rightarrow> (string \<times> string \<times> nat) list" where
  "get_pending s = concat (map (\<lambda>i. case map_of (ws_recs s) i of None \<Rightarrow> []
     | Some r \<Rightarrow> [(i, wr_url r, length (wr_attempts r))]) (ws_pending s))"

text \<open>One step of the event loop; a new record has a fresh id.\<close>

inductive ws_step :: "sender \<Rightarrow> sender \<Rightarrow> bool" where
  ws_send: "map_of (ws_recs s) i = None \<Longrightarrow> ws_step s (send_start i url payload hs t s)"
| ws_sent: "map_of (ws_tasks s) i = Some (Sending hs) \<Longrightarrow> ws_step s (send_done i hs out t s)"
| ws_loop: "map_of (ws_tasks s) i = Some (Scheduled hs) \<Longrightarrow> ws_step s (loop_at i hs 1 s)"
| ws_retried: "map_of (ws_tasks s) i = Some (Looping n hs) \<Longrightarrow> ws_step s (loop_done i n hs out t s)"
| ws_dlq_retry: "ws_step s (dlq_start i s)"
| ws_dlq_retried: "map_of (ws_tasks s) i = Some DlqRetrying \<Longrightarrow> ws_step s (snd (dlq_done i out t s))"

section \<open>No webhook is lost\<close>

text \<open>The situation of one record, from its status, its task and its membership in the two collections.\<close>

fun task_fits :: "int \<Rightarrow> wh_task \<Rightarrow> bool \<Rightarrow> wh_record \<Rightarrow> bool" where
  "task_fits m (Sending _) p r = (p \<and> wr_attempts r = [])"
| "task_fits m (Scheduled _) p r = (p \<and> length (wr_attempts r) = 1)"
| "task_fits m (Looping n _) p r = (p \<and> length (wr_attempts r) = n \<and> 1 \<le> n \<and> int n < m)"
| "task_fits m DlqRetrying p r = (\<not> p \<and> max 1 m \<le> int (length (wr_attempts r)))"

definition rec_fits :: "int \<Rightarrow> wh_task option \<Rightarrow> bool \<Rightarrow> nat \<Rightarrow> wh_record \<Rightarrow> bool" where
  "rec_fits m task p d r = (case task of
       Some tk \<Rightarrow> d = 0 \<and> wr_status r = ''pending'' \<and> task_fits m tk p r
     | None \<Rightarrow> \<not> p \<and> (if d = 0 then wr_status r = ''delivered'' else d = 1 \<and> wr_status r \<in> {''dlq'', ''pending''} \<and>
         max 1 m \<le> int (length (wr_attempts r))))"

definition ws_ok_at :: "sender \<Rightarrow> string \<Rightarrow> bool" where
  "ws_ok_at s i = (case map_of (ws_recs s) i of
       None \<Rightarrow> map_of (ws_tasks s) i = None \<and> i \<notin> set (ws_pending s) \<and> count_list (ws_dlq s) i = 0
     | Some r \<Rightarrow> rec_fits (ws_max s) (map_of (ws_tasks s) i) (i \<in> set (ws_pending s)) (count_list (ws_dlq s) i) r)"

definition ws_ok :: "sender \<Rightarrow> bool" where
  "ws_ok s = (\<forall>i. ws_ok_at s i)"

lemma upd_rec_fields [simp]:
  "ws_max (upd_rec i f s) = ws_max s" "ws_pending (upd_rec i f s) = ws_pending s" "ws_dlq (upd_rec i f s) = ws_dlq s"
  "ws_tasks (upd_rec i f s) = ws_tasks s" "ws_sent (upd_rec i f s) = ws_sent s"
  by (simp_all add: upd_rec_def split: option.splits)

lemma upd_rec_recs [simp]: "map_of (ws_recs (upd_rec i f s)) j = (if j = i then map_option f (map_of (ws_recs s) i) else map_of (ws_recs s) j)"
  by (simp add: upd_rec_def update_conv' split: option.splits)

lemma ws_okI:
  assumes "ws_ok s" "ws_max s' = ws_max s"
    and "\<And>j. j \<noteq> i \<Longrightarrow> map_of (ws_recs s') j = map_of (ws_recs s) j"
    and "\<And>j. j \<noteq> i \<Longrightarrow> map_of (ws_tasks s') j = map_of (ws_tasks s) j"
    and "\<And>j. j \<noteq> i \<Longrightarrow> (j \<in> set (ws_pending s') \<longleftrightarrow> j \<in> set (ws_pending s))"
    and "\<And>j. j \<noteq> i \<Longrightarrow> count_list (ws_dlq s') j = count_list (ws_dlq s) j"
    and "ws_ok_at s' i"
  shows "ws_ok s'"
  unfolding ws_ok_def
proof
  fix j
  show "ws_ok_at s' j"
  proof (cases "j = i")
    case False
    have "ws_ok_at s j" using assms(1) by (simp add: ws_ok_def)
    then show ?thesis unfolding ws_ok_at_def assms(2) assms(3-6) [OF False] .
  qed (simp add: assms(7))
qed

lemma ws_ok_task:
  assumes "ws_ok s" "map_of (ws_tasks s) i = Some tk"
  obtains r where "map_of (ws_recs s) i = Some r" "count_list (ws_dlq s) i = 0" "wr_status r = ''pending''"
    "task_fits (ws_max s) tk (i \<in> set (ws_pending s)) r"
proof -
  have "ws_ok_at s i" using assms(1) by (simp add: ws_ok_def)
  then show ?thesis using assms(2) that by (cases "map_of (ws_recs s) i") (simp_all add: ws_ok_at_def rec_fits_def)
qed

lemma count_remove1: "count_list (remove1 i xs) j = (if j = i then count_list xs i - 1 else count_list xs j)"
  by (induction xs) (auto simp: count_list_0_iff)

lemmas ws_op_defs = send_start_def send_done_def loop_at_def loop_done_def dlq_start_def dlq_done_def delivered_def to_dlq_def
  wh_attempt_done_def Let_def

lemmas ws_updates = update_conv' delete_conv' rec_fits_def ws_ok_at_def

lemma ws_ok_send:
  assumes "ws_ok s" "map_of (ws_recs s) i = None"
  shows "ws_ok (send_start i url payload hs t s)"
proof -
  have "ws_ok_at s i" using assms(1) by (simp add: ws_ok_def)
  then show ?thesis using assms(2) by (intro ws_okI [OF assms(1), of _ i]) (simp_all add: ws_op_defs ws_updates)
qed

lemma ws_ok_sent:
  assumes "ws_ok s" "map_of (ws_tasks s) i = Some (Sending hs)"
  shows "ws_ok (send_done i hs out t s)"
proof -
  obtain r where "map_of (ws_recs s) i = Some r" "count_list (ws_dlq s) i = 0" "wr_status r = ''pending''"
    "task_fits (ws_max s) (Sending hs) (i \<in> set (ws_pending s)) r" using ws_ok_task [OF assms] .
  then show ?thesis using assms(2) by (intro ws_okI [OF assms(1), of _ i]) (simp_all add: ws_op_defs ws_updates)
qed

lemma ws_ok_loop:
  assumes "ws_ok s" "map_of (ws_tasks s) i = Some (Scheduled hs)"
  shows "ws_ok (loop_at i hs 1 s)"
proof -
  obtain r where "map_of (ws_recs s) i = Some r" "count_list (ws_dlq s) i = 0" "wr_status r = ''pending''"
    "task_fits (ws_max s) (Scheduled hs) (i \<in> set (ws_pending s)) r" using ws_ok_task [OF assms] .
  then show ?thesis using assms(2) by (intro ws_okI [OF assms(1), of _ i]) (simp_all add: ws_op_defs ws_updates)
qed

lemma ws_ok_retried:
  assumes "ws_ok s" "map_of (ws_tasks s) i = Some (Looping n hs)"
  shows "ws_ok (loop_done i n hs out t s)"
proof -
  obtain r where "map_of (ws_recs s) i = Some r" "count_list (ws_dlq s) i = 0" "wr_status r = ''pending''"
    "task_fits (ws_max s) (Looping n hs) (i \<in> set (ws_pending s)) r" using ws_ok_task [OF assms] .
  then show ?thesis using assms(2) by (intro ws_okI [OF assms(1), of _ i]) (simp_all add: ws_op_defs ws_updates)
qed

lemma ws_ok_dlq_retried:
  assumes "ws_ok s" "map_of (ws_tasks s) i = Some (DlqRetrying)"
  shows "ws_ok (snd (dlq_done i out t s))"
proof -
  obtain r where "map_of (ws_recs s) i = Some r" "count_list (ws_dlq s) i = 0" "wr_status r = ''pending''"
    "task_fits (ws_max s) (DlqRetrying) (i \<in> set (ws_pending s)) r" using ws_ok_task [OF assms] .
  then show ?thesis using assms(2) by (intro ws_okI [OF assms(1), of _ i]) (simp_all add: ws_op_defs ws_updates)
qed

lemma ws_ok_dlq_retry:
  assumes "ws_ok s"
  shows "ws_ok (dlq_start i s)"
proof (cases "i \<in> set (ws_dlq s)")
  case True
  then have c: "count_list (ws_dlq s) i \<noteq> 0" by (simp add: count_list_0_iff)
  have "ws_ok_at s i" using assms by (simp add: ws_ok_def)
  then obtain r where "map_of (ws_recs s) i = Some r" "map_of (ws_tasks s) i = None" "i \<notin> set (ws_pending s)"
    "count_list (ws_dlq s) i = 1" "max 1 (ws_max s) \<le> int (length (wr_attempts r))"
    using c by (auto simp: ws_ok_at_def rec_fits_def split: option.splits)
  then show ?thesis using True
    by (intro ws_okI [OF assms, of _ i]) (simp_all add: ws_op_defs ws_updates count_remove1)
qed (simp add: dlq_start_def assms)

lemma ws_step_ok: "ws_step s s' \<Longrightarrow> ws_ok s \<Longrightarrow> ws_ok s'"
  by (erule ws_step.cases)
    (blast intro: ws_ok_send ws_ok_sent ws_ok_loop ws_ok_retried ws_ok_dlq_retry ws_ok_dlq_retried)+

lemma ws_reachable_ok: "ws_step\<^sup>*\<^sup>* (new_sender m) s \<Longrightarrow> ws_ok s"
proof (induction rule: rtranclp_induct)
  case base
  show ?case by (simp add: ws_ok_def ws_ok_at_def new_sender_def)
qed (rule ws_step_ok)

lemma ws_max_step: "ws_step s s' \<Longrightarrow> ws_max s' = ws_max s"
  by (erule ws_step.cases) (simp_all add: ws_op_defs)

lemma ws_max_reachable: "ws_step\<^sup>*\<^sup>* (new_sender m) s \<Longrightarrow> ws_max s = m"
proof (induction rule: rtranclp_induct)
  case base
  show ?case by (simp add: new_sender_def)
qed (simp add: ws_max_step)

text \<open>
  C14: no webhook is lost, under any interleaving of sends, retries and dead letter retries.  In every state the sender can reach,
  a record is delivered, or in flight (with fewer than \<open>max_retries\<close> attempts inside the retry loop, one for each round), or
  exactly once in the dead letter queue after at least \<open>max(1, max_retries)\<close> attempts; and only one of the three.
\<close>

theorem webhook_never_lost:
  assumes "ws_step\<^sup>*\<^sup>* (new_sender m) s" and "map_of (ws_recs s) i = Some r"
  shows "(case map_of (ws_tasks s) i of
      Some tk \<Rightarrow> i \<notin> set (ws_dlq s) \<and> wr_status r = ''pending'' \<and> (\<forall>n hs. tk = Looping n hs \<longrightarrow> length (wr_attempts r) = n \<and> int n < m)
    | None \<Rightarrow> i \<notin> set (ws_pending s) \<and> ((wr_status r = ''delivered'' \<and> i \<notin> set (ws_dlq s)) \<or>
        (count_list (ws_dlq s) i = 1 \<and> max 1 m \<le> int (length (wr_attempts r)))))"
proof -
  have "ws_ok_at s i" using ws_reachable_ok [OF assms(1)] by (simp add: ws_ok_def)
  then have "rec_fits m (map_of (ws_tasks s) i) (i \<in> set (ws_pending s)) (count_list (ws_dlq s) i) r"
    using assms(2) ws_max_reachable [OF assms(1)] by (simp add: ws_ok_at_def)
  then show ?thesis
    by (auto simp: rec_fits_def count_list_0_iff split: option.splits if_splits)
qed

theorem webhook_never_lost_witness:
  "\<exists>s. ws_step\<^sup>*\<^sup>* (new_sender 1) s \<and> count_list (ws_dlq s) ''w'' = 1"
proof -
  define s1 where "s1 = send_start ''w'' ''u'' [] None ''t'' (new_sender 1)"
  define s2 where "s2 = send_done ''w'' None (Answer 500) ''t'' s1"
  define s3 where "s3 = loop_at ''w'' None 1 s2"
  have "ws_step (new_sender 1) s1" unfolding s1_def by (rule ws_send) (simp add: new_sender_def)
  moreover have "ws_step s1 s2" unfolding s2_def by (rule ws_sent) (simp add: s1_def send_start_def update_conv')
  moreover have "ws_step s2 s3" unfolding s3_def
    by (rule ws_loop) (simp add: s2_def s1_def ws_op_defs outcome_ok_def new_sender_def update_conv')
  ultimately have reach: "ws_step\<^sup>*\<^sup>* (new_sender 1) s3" by (meson converse_rtranclp_into_rtranclp rtranclp.rtrancl_refl)
  have "map_of (ws_tasks s3) ''w'' = None" "map_option wr_status (map_of (ws_recs s3) ''w'') = Some ''dlq''"
    unfolding s3_def s2_def s1_def by code_simp+
  then show ?thesis using webhook_never_lost [OF reach, of "''w''"] reach by fastforce
qed

text \<open>
  A dead letter whose retry fails goes back to the queue as \<open>pending\<close>, not as \<open>dlq\<close>, while \<open>get_pending\<close> does not list it;
  and its request carried none of the headers the caller had given.
\<close>

theorem failed_dlq_retry_stays_pending:
  assumes "ws_ok s" and "i \<in> set (ws_dlq s)" and "\<not> outcome_ok out" and "s' = snd (dlq_done i out t (dlq_start i s))"
  shows "(\<exists>r. map_of (ws_recs s') i = Some r \<and> wr_status r = ''pending'') \<and> i \<in> set (ws_dlq s') \<and>
    i \<notin> set (ws_pending s') \<and> last (ws_sent s') = (i, [(''Content-Type'', ''application/json''), (''X-Webhook-Id'', i)])"
proof -
  have c: "count_list (ws_dlq s) i \<noteq> 0" using assms(2) by (simp add: count_list_0_iff)
  have "ws_ok_at s i" using assms(1) by (simp add: ws_ok_def)
  then obtain r where "map_of (ws_recs s) i = Some r" "i \<notin> set (ws_pending s)"
    using c by (auto simp: ws_ok_at_def rec_fits_def split: option.splits)
  then show ?thesis using assms by (simp add: ws_op_defs request_headers_def)
qed

definition dead_letter :: sender where
  "dead_letter = \<lparr>ws_max = 1, ws_recs = [(''w'', \<lparr>wr_url = ''u'', wr_payload = [], wr_status = ''dlq'',
     wr_attempts = [attempt_of 1 (Answer 500) ''t''], wr_created = ''t''\<rparr>)], ws_pending = [], ws_dlq = [''w''], ws_tasks = [], ws_sent = []\<rparr>"

theorem failed_dlq_retry_stays_pending_witness:
  "\<exists>r. map_of (ws_recs (snd (dlq_done ''w'' (Raised ''x'') ''t'' (dlq_start ''w'' dead_letter)))) ''w'' = Some r \<and> wr_status r = ''pending''"
proof -
  have "ws_ok dead_letter" by (simp add: ws_ok_def ws_ok_at_def dead_letter_def rec_fits_def)
  moreover have "''w'' \<in> set (ws_dlq dead_letter)" "\<not> outcome_ok (Raised ''x'')" by code_simp+
  ultimately show ?thesis using failed_dlq_retry_stays_pending [OF _ _ _ refl] by blast
qed

end
