(* ===== verification/Privacy.thy ===== *)
theory Privacy
  imports Sha256
begin

text \<open>
  Region-aware privacy: \<open>shared/privacy.py\<close>.  The profiles of the regions, the classification of field names, masking,
  pseudonyms, anonymisation and the record of processing activities.  A region is the text of its enum member.

  Not modelled: \<open>detect_pii_in_value\<close>, whose patterns are regular expressions.
\<close>

section \<open>Profiles\<close>

record privacy_profile =
  pp_region :: string
  pp_display_name :: string
  pp_regulation_name :: string
  pp_max_retention_days :: int
  pp_pii_retention_days :: int
  pp_audit_retention_days :: int
  pp_requires_explicit_consent :: bool
  pp_consent_for_profiling :: bool
  pp_consent_for_automated_decisions :: bool
  pp_right_to_opt_out_of_sale :: bool
  pp_right_to_access :: bool
  pp_right_to_erasure :: bool
  pp_right_to_portability :: bool
  pp_right_to_rectification :: bool
  pp_right_to_restrict_processing :: bool
  pp_right_to_object :: bool
  pp_anonymize_after_retention :: bool
  pp_pseudonymize_at_rest :: bool
  pp_mask_pii_in_logs :: bool
  pp_mask_pii_in_responses :: bool
  pp_restrict_cross_border :: bool
  pp_adequacy_required :: bool
  pp_breach_notify_hours :: int
  pp_breach_notify_authority :: bool
  pp_breach_notify_subjects :: bool
  pp_encrypt_pii_at_rest :: bool
  pp_min_encryption_standard :: string

definition default_profile :: "string \<Rightarrow> string \<Rightarrow> string \<Rightarrow> privacy_profile" where
  "default_profile region display_name regulation_name = \<lparr>
     pp_region = region, pp_display_name = display_name, pp_regulation_name = regulation_name,
     pp_max_retention_days = 365 * 7, pp_pii_retention_days = 365 * 3, pp_audit_retention_days = 365 * 5,
     pp_requires_explicit_consent = False, pp_consent_for_profiling = False, pp_consent_for_automated_decisions = False,
     pp_right_to_opt_out_of_sale = False, pp_right_to_access = True, pp_right_to_erasure = False,
     pp_right_to_portability = False, pp_right_to_rectification = False, pp_right_to_restrict_processing = False,
     pp_right_to_object = False, pp_anonymize_after_retention = False, pp_pseudonymize_at_rest = False,
     pp_mask_pii_in_logs = True, pp_mask_pii_in_responses = False, pp_restrict_cross_border = False,
     pp_adequacy_required = False, pp_breach_notify_hours = 72, pp_breach_notify_authority = False,
     pp_breach_notify_subjects = False, pp_encrypt_pii_at_rest = False, pp_min_encryption_standard = ''AES-256''\<rparr>"

definition privacy_profiles :: "(string \<times> privacy_profile) list" where
  "privacy_profiles = [
    (''eu'', (default_profile ''eu'' ''European Union'' ''GDPR'')
       \<lparr>pp_max_retention_days := 365 * 5, pp_pii_retention_days := 365 * 3, pp_requires_explicit_consent := True,
        pp_consent_for_profiling := True, pp_consent_for_automated_decisions := True, pp_right_to_access := True,
        pp_right_to_erasure := True, pp_right_to_portability := True, pp_right_to_rectification := True,
        pp_right_to_restrict_processing := True, pp_right_to_object := True, pp_anonymize_after_retention := True,
        pp_pseudonymize_at_rest := True, pp_mask_pii_in_logs := True, pp_mask_pii_in_responses := False,
        pp_restrict_cross_border := True, pp_adequacy_required := True, pp_breach_notify_hours := 72,
        pp_breach_notify_authority := True, pp_breach_notify_subjects := True, pp_encrypt_pii_at_rest := True\<rparr>),
    (''uk'', (default_profile ''uk'' ''United Kingdom'' ''UK GDPR'')
       \<lparr>pp_max_retention_days := 365 * 5, pp_pii_retention_days := 365 * 3, pp_requires_explicit_consent := True,
        pp_consent_for_profiling := True, pp_consent_for_automated_decisions := True, pp_right_to_access := True,
        pp_right_to_erasure := True, pp_right_to_portability := True, pp_right_to_rectification := True,
        pp_right_to_restrict_processing := True, pp_right_to_object := True, pp_anonymize_after_retention := True,
        pp_pseudonymize_at_rest := True, pp_mask_pii_in_logs := True, pp_restrict_cross_border := True,
        pp_adequacy_required := True, pp_breach_notify_hours := 72, pp_breach_notify_authority := True,
        pp_breach_notify_subjects := True, pp_encrypt_pii_at_rest := True\<rparr>),
    (''us_ca'', (default_profile ''us_ca'' ''California'' ''CCPA/CPRA'')
       \<lparr>pp_max_retention_days := 365 * 7, pp_pii_retention_days := 365 * 3, pp_right_to_opt_out_of_sale := True,
        pp_right_to_access := True, pp_right_to_erasure := True, pp_right_to_portability := False,
        pp_right_to_rectification := True, pp_mask_pii_in_logs := True, pp_breach_notify_hours := 72,
        pp_breach_notify_authority := True\<rparr>),
    (''br'', (default_profile ''br'' ''Brazil'' ''LGPD'')
       \<lparr>pp_requires_explicit_consent := True, pp_consent_for_profiling := True, pp_right_to_access := True,
        pp_right_to_erasure := True, pp_right_to_portability := True, pp_right_to_rectification := True,
        pp_anonymize_after_retention := True, pp_restrict_cross_border := True, pp_adequacy_required := True,
        pp_breach_notify_authority := True, pp_encrypt_pii_at_rest := True\<rparr>),
    (''in'', (default_profile ''in'' ''India'' ''DPDP Act 2023'')
       \<lparr>pp_requires_explicit_consent := True, pp_right_to_access := True, pp_right_to_erasure := True,
        pp_right_to_rectification := True, pp_restrict_cross_border := True, pp_breach_notify_hours := 72,
        pp_breach_notify_authority := True, pp_encrypt_pii_at_rest := True\<rparr>),
    (''sg'', (default_profile ''sg'' ''Singapore'' ''PDPA'')
       \<lparr>pp_requires_explicit_consent := True, pp_right_to_access := True, pp_right_to_rectification := True,
        pp_restrict_cross_border := True, pp_breach_notify_hours := 72, pp_breach_notify_authority := True\<rparr>),
    (''jp'', (default_profile ''jp'' ''Japan'' ''APPI'')
       \<lparr>pp_requires_explicit_consent := True, pp_consent_for_profiling := True, pp_right_to_access := True,
        pp_right_to_erasure := True, pp_right_to_rectification := True, pp_restrict_cross_border := True,
        pp_adequacy_required := True, pp_breach_notify_authority := True\<rparr>),
    (''ca'', (default_profile ''ca'' ''Canada'' ''PIPEDA'')
       \<lparr>pp_requires_explicit_consent := True, pp_right_to_access := True, pp_right_to_rectification := True,
        pp_breach_notify_hours := 72, pp_breach_notify_authority := True, pp_breach_notify_subjects := True\<rparr>),
    (''za'', (default_profile ''za'' ''South Africa'' ''POPIA'')
       \<lparr>pp_requires_explicit_consent := True, pp_right_to_access := True, pp_right_to_erasure := True,
        pp_right_to_rectification := True, pp_right_to_object := True, pp_restrict_cross_border := True,
        pp_breach_notify_authority := True\<rparr>),
    (''au'', (default_profile ''au'' ''Australia'' ''Privacy Act 1988'')
       \<lparr>pp_right_to_access := True, pp_right_to_rectification := True, pp_breach_notify_hours := 72,
        pp_breach_notify_authority := True\<rparr>),
    (''us'', (default_profile ''us'' ''United States (Federal)'' ''No federal privacy law'')
       \<lparr>pp_max_retention_days := 365 * 7, pp_audit_retention_days := 365 * 7\<rparr>),
    (''global'', (default_profile ''global'' ''Global Baseline'' ''Tarka Default'')
       \<lparr>pp_mask_pii_in_logs := True\<rparr>)]"

definition global_profile :: privacy_profile where
  "global_profile = the (map_of privacy_profiles ''global'')"

definition get_profile :: "string \<Rightarrow> privacy_profile" where
  "get_profile region = (case map_of privacy_profiles (lower region) of Some p \<Rightarrow> p | None \<Rightarrow> global_profile)"

section \<open>Fields\<close>

datatype pii_category = Direct | Quasi | Sensitive | Contact | Financial | Device | Behavioral

definition pii_fields :: "(string \<times> pii_category) list" where
  "pii_fields = [
     (''name'', Direct), (''first_name'', Direct), (''last_name'', Direct), (''full_name'', Direct),
     (''ssn'', Direct), (''social_security'', Direct), (''passport'', Direct), (''passport_number'', Direct),
     (''national_id'', Direct), (''driver_license'', Direct), (''email'', Contact), (''email_address'', Contact),
     (''phone'', Contact), (''phone_number'', Contact), (''address'', Contact), (''street'', Contact),
     (''zip_code'', Contact), (''postal_code'', Contact), (''card_number'', Financial), (''credit_card'', Financial),
     (''bank_account'', Financial), (''iban'', Financial), (''routing_number'', Financial), (''account_number'', Financial),
     (''income'', Financial), (''date_of_birth'', Quasi), (''dob'', Quasi), (''age'', Quasi),
     (''gender'', Quasi), (''zip'', Quasi), (''ip'', Device), (''ip_address'', Device),
     (''device_id'', Device), (''fingerprint'', Device), (''mac_address'', Device), (''user_agent'', Device),
     (''race'', Sensitive), (''ethnicity'', Sensitive), (''religion'', Sensitive), (''health_status'', Sensitive),
     (''biometric'', Sensitive)]"

definition classify_field :: "string \<Rightarrow> pii_category option" where
  "classify_field name = map_of pii_fields (replace_char CHR ''-'' CHR ''_'' (lower name))"

section \<open>Masking\<close>

definition last_n :: "nat \<Rightarrow> string \<Rightarrow> string" where
  "last_n n s = drop (length s - n) s"

definition partial_mask :: "string \<Rightarrow> string" where
  "partial_mask s = (if length s > 4 then take 2 s @ replicate (length s - 4) CHR ''*'' @ last_n 2 s else ''****'')"

definition mask_contact :: "string \<Rightarrow> string" where
  "mask_contact s = (case split_once CHR ''@'' s of (local, Some domain) \<Rightarrow> take 2 local @ ''***@'' @ domain | (_, None) \<Rightarrow> partial_mask s)"

definition mask_value :: "pyval \<Rightarrow> pii_category option \<Rightarrow> pyval" where
  "mask_value v category = (case v of PNone \<Rightarrow> PNone | _ \<Rightarrow> (let s = py_str v in
     if s = [] then PStr s
     else PStr (case category of
         Some Financial \<Rightarrow> if length s > 4 then ''****'' @ last_n 4 s else ''****''
       | Some Direct \<Rightarrow> ''***REDACTED***''
       | Some Contact \<Rightarrow> mask_contact s
       | Some Device \<Rightarrow> ''hash:'' @ take 12 (sha256_hex s)
       | Some Quasi \<Rightarrow> ''hash:'' @ take 12 (sha256_hex s)
       | Some Sensitive \<Rightarrow> ''***SENSITIVE***''
       | _ \<Rightarrow> partial_mask s)))"

definition pseudonymize_value :: "pyval \<Rightarrow> string \<Rightarrow> string" where
  "pseudonymize_value v salt = ''pseudo:'' @ take 16 (sha256_hex (salt @ (case v of PNone \<Rightarrow> [] | _ \<Rightarrow> py_str v)))"

fun mask_pairs :: "privacy_profile \<Rightarrow> dict \<Rightarrow> dict" where
  "mask_pairs p [] = []"
| "mask_pairs p ((k, v) # kvs) = (k, case classify_field k of
       Some c \<Rightarrow> if pp_pseudonymize_at_rest p then PStr (pseudonymize_value v []) else mask_value v (Some c)
     | None \<Rightarrow> (case v of PDict d \<Rightarrow> PDict (mask_pairs p d) | _ \<Rightarrow> v)) # mask_pairs p kvs"

definition mask_dict :: "dict \<Rightarrow> privacy_profile \<Rightarrow> dict" where
  "mask_dict data p = (if \<not> pp_mask_pii_in_logs p \<and> \<not> pp_mask_pii_in_responses p then data else mask_pairs p data)"

fun anonymize_record :: "dict \<Rightarrow> dict" where
  "anonymize_record [] = []"
| "anonymize_record ((k, v) # kvs) = (k, case classify_field k of
       Some c \<Rightarrow> if truthy v then PStr (take 8 (sha256_hex (py_str v))) else PNone
     | None \<Rightarrow> (case v of PDict d \<Rightarrow> PDict (anonymize_record d) | _ \<Rightarrow> v)) # anonymize_record kvs"

section \<open>Record of processing activities\<close>

definition get_data_processing_record :: "string \<Rightarrow> privacy_profile \<Rightarrow> dict" where
  "get_data_processing_record tenant p = [
     (''controller'', PStr tenant),
     (''processor'', PStr ''Tarka Fraud Detection Platform''),
     (''purposes'', PList (map PStr [''Fraud prevention and detection'', ''Anti-money laundering compliance'',
        ''Risk scoring and decisioning'', ''Investigation and case management''])),
     (''data_subjects'', PList (map PStr [''Customers'', ''Users'', ''Account holders''])),
     (''data_categories'', PList (map PStr [''Transaction data'', ''Device and browser data'', ''IP address and geolocation'',
        ''Email and phone (for enrichment)'', ''Behavioral biometrics''])),
     (''recipients'', PList (map PStr [''Internal fraud analysts'', ''Compliance officers'', ''Law enforcement (upon legal request)''])),
     (''retention'', PDict [(''transaction_data'', PStr (int_str (pp_max_retention_days p) @ '' days'')),
        (''pii_data'', PStr (int_str (pp_pii_retention_days p) @ '' days'')),
        (''audit_logs'', PStr (int_str (pp_audit_retention_days p) @ '' days''))]),
     (''cross_border_transfers'', PStr (if pp_restrict_cross_border p then ''Restricted'' else ''Permitted'')),
     (''security_measures'', PList (map PStr [if pp_encrypt_pii_at_rest p then ''Encryption at rest (AES-256)'' else ''Standard database security'',
        ''TLS 1.3 in transit'', ''RBAC access control'', ''Field-level audit trail'', ''PII masking in logs''])),
     (''regulation'', PStr (pp_regulation_name p)),
     (''region'', PStr (pp_display_name p))]"

section \<open>What anonymisation removes\<close>

text \<open>
  A dictionary with no personal value left: at every depth of nested dictionaries, a classified field is \<open>None\<close> or eight
  hexadecimal digits.
\<close>

fun anonymous_dict :: "dict \<Rightarrow> bool" where
  "anonymous_dict [] = True"
| "anonymous_dict ((k, v) # kvs) = ((case classify_field k of
       Some c \<Rightarrow> v = PNone \<or> (\<exists>s. v = PStr s \<and> length s = 8 \<and> set s \<subseteq> hex_chars)
     | None \<Rightarrow> (case v of PDict d \<Rightarrow> anonymous_dict d | _ \<Rightarrow> True)) \<and> anonymous_dict kvs)"

lemma sha256_hex_prefix: "n \<le> 64 \<Longrightarrow> length (take n (sha256_hex s)) = n \<and> set (take n (sha256_hex s)) \<subseteq> hex_chars"
  using sha256_hex_is_hex64 [of s] set_take_subset [of n "sha256_hex s"] by (auto simp: is_hex64_def)

text \<open>
  C21: anonymising a record leaves no value of a classified field, at any depth of nested dictionaries, and keeps the field names.
\<close>

theorem anonymized_record_is_anonymous:
  "anonymous_dict (anonymize_record d) \<and> map fst (anonymize_record d) = map fst d"
proof (induction d rule: anonymize_record.induct)
  case (2 k v kvs)
  then show ?case using sha256_hex_prefix [of 8 "py_str v"]
    by (cases "classify_field k"; cases v) auto
qed simp



section \<open>What masking shows\<close>

text \<open>A card or account number shows at most its last four characters, and a mask has at least as many stars as it hides.\<close>

lemma financial_mask:
  assumes "s \<noteq> []"
  shows "mask_value (PStr s) (Some Financial) = PStr (''****'' @ (if length s > 4 then last_n 4 s else []))"
  using assms by (simp add: mask_value_def)

lemma partial_mask_length: "length s > 4 \<Longrightarrow> length (partial_mask s) = length s"
  by (simp add: partial_mask_def last_n_def)

text \<open>The local part of an address of at most two characters is shown whole.\<close>

lemma split_once_found: "c \<notin> set a \<Longrightarrow> split_once c (a @ c # b) = (a, Some b)"
  by (induction a) auto

lemma short_local_part_shown:
  "length a \<le> 2 \<Longrightarrow> CHR ''@'' \<notin> set a \<Longrightarrow> mask_value (PStr (a @ ''@'' @ b)) (Some Contact) = PStr (a @ ''***@'' @ b)"
  by (simp add: mask_value_def mask_contact_def split_once_found)

text \<open>
  Pseudonyms are the plain digest of the value: \<open>mask_dict\<close> passes no salt, so a pseudonym is the same for every tenant
  and anyone can compute it from a guess of the value.
\<close>

theorem pseudonym_is_unsalted_digest:
  assumes "pp_mask_pii_in_logs p \<or> pp_mask_pii_in_responses p" and "pp_pseudonymize_at_rest p" and "classify_field k = Some c"
  shows "mask_dict [(k, PStr s)] p = [(k, PStr (''pseudo:'' @ take 16 (sha256_hex s)))]"
  using assms by (auto simp: mask_dict_def pseudonymize_value_def)

theorem pseudonym_is_unsalted_digest_witness:
  "mask_dict [(''email'', PStr ''a@b.c'')] (get_profile ''EU'') = [(''email'', PStr (''pseudo:'' @ take 16 (sha256_hex ''a@b.c'')))]"
proof -
  have "pp_mask_pii_in_logs (get_profile ''EU'')" "pp_pseudonymize_at_rest (get_profile ''EU'')" "classify_field ''email'' = Some Contact"
    by code_simp+
  then show ?thesis using pseudonym_is_unsalted_digest by blast
qed

end
