(* ===== verification/Case_Disposition.thy ===== *)
theory Case_Disposition
  imports Desk_Provision
begin

text \<open>
  How a case is closed: \<open>case_api/disposition.py\<close> (reason codes and the maker-checker rule), \<open>case_api/leftover.py\<close> (the
  leftover queue and its claims), and the parts of \<open>case_api/main.py\<close> and \<open>template_apply.py\<close> that set the status or the
  labels of a case.

  A case is the columns these functions read or write; labels are strings.  A blank column \<open>claimed_by\<close> is \<open>None\<close> or empty.
\<close>

section \<open>Reason codes\<close>

datatype disp_err = PolicyError string | MissingKey

definition disposition_reason_codes :: "(string \<times> string) list" where
  "disposition_reason_codes = [(''CONFIRMED_FRAUD'', ''FRAUD''), (''ACCOUNT_TAKEOVER'', ''FRAUD''), (''FRIENDLY_FRAUD'', ''FRAUD''),
     (''SAR_FILED'', ''FRAUD''), (''FALSE_POSITIVE'', ''LEGITIMATE''), (''CUSTOMER_CLEARED'', ''LEGITIMATE''),
     (''INSUFFICIENT_EVIDENCE'', ''LEGITIMATE'')]"

definition terminal_statuses :: "string list" where
  "terminal_statuses = [''resolved'', ''closed'', ''resolved_fraud'', ''resolved_legit'', ''sar_filed'']"

definition default_mc_statuses :: "string list" where
  "default_mc_statuses = [''resolved_fraud'', ''sar_filed'']"

definition mc_pending_prefix :: string where "mc_pending_prefix = ''mc_pending:''"

definition mc_requester_prefix :: string where "mc_requester_prefix = ''mc_requester:''"

definition reason_label_prefix :: string where "reason_label_prefix = ''disposition:''"

definition parse_maker_checker_statuses :: "string option \<Rightarrow> string list" where
  "parse_maker_checker_statuses raw = (let token = strip (opt_str raw) in
     if token = [] then default_mc_statuses
     else (let out = remdups (map (\<lambda>p. lower (strip p)) (filter (\<lambda>p. strip p \<noteq> []) (split_on CHR '','' token)))
       in if out = [] then default_mc_statuses else out))"

definition normalize_reason_code :: "string option \<Rightarrow> disp_err + string" where
  "normalize_reason_code raw = (let token = upper (strip (opt_str raw)) in
     if token = [] then Inr []
     else if map_of disposition_reason_codes token = None then Inl (PolicyError (''unknown disposition_reason_code: '' @ token))
     else Inr token)"

definition reason_class :: "string \<Rightarrow> disp_err + string" where
  "reason_class code = (case map_of disposition_reason_codes code of None \<Rightarrow> Inl MissingKey | Some y \<Rightarrow> Inr y)"

definition y_label_class_for_reason :: "string \<Rightarrow> disp_err + string" where
  "y_label_class_for_reason reason = (case normalize_reason_code (Some reason) of Inl e \<Rightarrow> Inl e | Inr c \<Rightarrow> reason_class c)"

definition is_terminal_status :: "string option \<Rightarrow> bool" where
  "is_terminal_status st = (lower (strip (opt_str st)) \<in> set terminal_statuses)"

definition escalate_status_for_reason :: "string \<Rightarrow> string option \<Rightarrow> disp_err + string" where
  "escalate_status_for_reason status reason_code = (let st = lower (strip status) in
     if opt_str reason_code = [] then Inr st
     else (case normalize_reason_code reason_code of Inl e \<Rightarrow> Inl e
       | Inr reason \<Rightarrow> (case reason_class reason of Inl e \<Rightarrow> Inl e
         | Inr y \<Rightarrow> Inr (if st \<in> {''resolved'', ''closed''} \<and> y = ''FRAUD'' then (if reason = ''SAR_FILED'' then ''sar_filed'' else ''resolved_fraud'')
             else if st \<in> {''resolved'', ''closed''} \<and> y = ''LEGITIMATE'' then (if st = ''resolved'' then ''resolved_legit'' else st)
             else st))))"

section \<open>Maker-checker\<close>

definition strip_mc_labels :: "string list \<Rightarrow> string list" where
  "strip_mc_labels labels = filter (\<lambda>x. \<not> startswith x mc_pending_prefix \<and> \<not> startswith x mc_requester_prefix) labels"

definition pending_target_status :: "string list \<Rightarrow> string option" where
  "pending_target_status labels = (case find (\<lambda>s. startswith s mc_pending_prefix) labels of
       None \<Rightarrow> None
     | Some s \<Rightarrow> (let t = lower (strip (drop (length mc_pending_prefix) s)) in if t = [] then None else Some t))"

definition pending_requester :: "string list \<Rightarrow> string option" where
  "pending_requester labels = (case find (\<lambda>s. startswith s mc_requester_prefix) labels of
       None \<Rightarrow> None
     | Some s \<Rightarrow> (let t = strip (drop (length mc_requester_prefix) s) in if t = [] then None else Some t))"

record mc_result =
  mc_applied :: bool
  mc_pending :: bool
  mc_target :: "string option"
  mc_requester :: "string option"
  mc_labels :: "string list"
  mc_status :: string
  mc_detail :: string

text \<open>\<open>sorted(set(clean))\<close>, and the reason label put on a list of labels.\<close>

definition label_set :: "string list \<Rightarrow> string list" where
  "label_set xs = sort (remdups xs)"

definition with_reason :: "string option \<Rightarrow> string list \<Rightarrow> disp_err + string list" where
  "with_reason reason_code clean = (if opt_str reason_code = [] then Inr clean
     else (case normalize_reason_code reason_code of Inl e \<Rightarrow> Inl e
       | Inr code \<Rightarrow> Inr (filter (\<lambda>x. \<not> startswith x reason_label_prefix) clean @ [reason_label_prefix @ code])))"

definition actor_name :: "string \<Rightarrow> string" where
  "actor_name actor = (if strip actor = [] then ''anonymous'' else strip actor)"

definition mc_approve :: "string list \<Rightarrow> string \<Rightarrow> string option \<Rightarrow> disp_err + mc_result" where
  "mc_approve labels actor_id reason_code = (case pending_target_status labels of
       None \<Rightarrow> Inl (PolicyError ''no pending maker-checker disposition to approve'')
     | Some target \<Rightarrow> (if pending_requester labels = Some actor_id then Inl (PolicyError ''maker-checker requires a distinct second actor'')
         else (case with_reason reason_code (strip_mc_labels labels) of Inl e \<Rightarrow> Inl e
           | Inr clean \<Rightarrow> Inr \<lparr>mc_applied = True, mc_pending = False, mc_target = Some target, mc_requester = pending_requester labels,
               mc_labels = label_set clean, mc_status = target, mc_detail = ''approved''\<rparr>)))"

definition mc_request :: "string list \<Rightarrow> string list \<Rightarrow> string \<Rightarrow> string \<Rightarrow> string option \<Rightarrow> string \<Rightarrow> disp_err + mc_result" where
  "mc_request maker_statuses labels actor_id requested reason_code current =
     (case escalate_status_for_reason requested reason_code of Inl e \<Rightarrow> Inl e
      | Inr target \<Rightarrow> (case with_reason reason_code (strip_mc_labels labels) of Inl e \<Rightarrow> Inl e
        | Inr clean \<Rightarrow> if target \<in> set maker_statuses
            then Inr \<lparr>mc_applied = False, mc_pending = True, mc_target = Some target, mc_requester = Some actor_id,
              mc_labels = label_set (clean @ [mc_pending_prefix @ target, mc_requester_prefix @ actor_id]),
              mc_status = current, mc_detail = ''pending_second_actor''\<rparr>
            else Inr \<lparr>mc_applied = True, mc_pending = False, mc_target = Some target, mc_requester = None,
              mc_labels = label_set clean, mc_status = target, mc_detail = ''applied''\<rparr>))"

definition apply_status_with_maker_checker ::
  "string \<Rightarrow> string list \<Rightarrow> string \<Rightarrow> string option \<Rightarrow> string option \<Rightarrow> bool \<Rightarrow> string list \<Rightarrow> disp_err + mc_result" where
  "apply_status_with_maker_checker current labels actor requested reason_code approve maker_statuses =
     (if approve then mc_approve labels (actor_name actor) reason_code
      else (case requested of
          None \<Rightarrow> Inr \<lparr>mc_applied = False, mc_pending = pending_target_status labels \<noteq> None, mc_target = pending_target_status labels,
            mc_requester = pending_requester labels, mc_labels = labels, mc_status = current, mc_detail = ''no_status_change''\<rparr>
        | Some st \<Rightarrow> mc_request maker_statuses labels (actor_name actor) st reason_code current))"

definition maker_checker_public :: "string list \<Rightarrow> string \<Rightarrow> dict" where
  "maker_checker_public labels status = [
     (''pending'', PBool (pending_target_status labels \<noteq> None)),
     (''target_status'', case pending_target_status labels of None \<Rightarrow> PNone | Some t \<Rightarrow> PStr t),
     (''requester'', case pending_requester labels of None \<Rightarrow> PNone | Some t \<Rightarrow> PStr t),
     (''status'', PStr status)]"

section \<open>Cases\<close>

record desk_case =
  cz_status :: string
  cz_labels :: "string list"
  cz_entity :: string
  cz_claimed :: "string option"
  cz_claimed_at :: "int option"
  cz_last_act :: "string option"
  cz_priority :: pyval
  cz_team :: pyval
  cz_title :: pyval

text \<open>
  The part of \<open>PATCH /v1/cases/{id}\<close> that decides status and labels: \<open>hdr\<close> is the header \<open>X-Actor-Id\<close>, \<open>user\<close> the id of the
  authenticated user.  A policy error is the answer 409.
\<close>

definition patch_actor :: "string \<Rightarrow> string \<Rightarrow> string" where
  "patch_actor hdr user = (if strip hdr \<noteq> [] then strip hdr else user)"

definition set_case_fields :: "dict \<Rightarrow> desk_case \<Rightarrow> desk_case" where
  "set_case_fields body c = c\<lparr>
     cz_priority := (if has_key body ''priority'' then dget body ''priority'' else cz_priority c),
     cz_team := (if has_key body ''assigned_team'' then dget body ''assigned_team'' else cz_team c),
     cz_title := (if has_key body ''title'' then dget body ''title'' else cz_title c)\<rparr>"

definition patch_reason :: "dict \<Rightarrow> string option" where
  "patch_reason body = (case dget body ''disposition_reason_code'' of PNone \<Rightarrow> None | v \<Rightarrow> Some (strip (py_str v)))"

definition update_case :: "string list \<Rightarrow> string \<Rightarrow> string \<Rightarrow> dict \<Rightarrow> desk_case \<Rightarrow> disp_err + desk_case" where
  "update_case maker_statuses hdr user body c = (let
       c1 = set_case_fields body c;
       approve = truthy (dget body ''maker_checker_approve'');
       reason = patch_reason body;
       requested = (case dget body ''status'' of PNone \<Rightarrow> None | v \<Rightarrow> Some (py_str v)) in
     if approve \<or> requested \<noteq> None \<or> opt_str reason \<noteq> [] then
       (case apply_status_with_maker_checker (cz_status c) (cz_labels c) (patch_actor hdr user) requested reason approve maker_statuses of
          Inl e \<Rightarrow> Inl e
        | Inr mc \<Rightarrow> Inr (c1\<lparr>cz_labels := mc_labels mc, cz_status := (if mc_applied mc then mc_status mc else cz_status c)\<rparr>))
     else Inr c1)"

definition apply_labels :: "string list \<Rightarrow> desk_case \<Rightarrow> desk_case" where
  "apply_labels ls c = c\<lparr>cz_labels := label_set (cz_labels c @ ls)\<rparr>"

text \<open>The payload of a bulk update or of a template.\<close>

definition apply_case_payload_to_case :: "dict \<Rightarrow> desk_case \<Rightarrow> desk_case" where
  "apply_case_payload_to_case payload c = (let
       c1 = (if truthy (dget payload ''status'') then c\<lparr>cz_status := py_str (dget payload ''status'')\<rparr> else c);
       c2 = (if truthy (dget payload ''priority'') then c1\<lparr>cz_priority := PStr (py_str (dget payload ''priority''))\<rparr> else c1);
       c3 = (if has_key payload ''assigned_team'' then c2\<lparr>cz_team := dget payload ''assigned_team''\<rparr> else c2) in
     case dget payload ''labels'' of
       PList vs \<Rightarrow> c3\<lparr>cz_labels := label_set (cz_labels c @ filter (\<lambda>s. strip s \<noteq> []) (map py_str vs))\<rparr>
     | _ \<Rightarrow> c3)"

section \<open>Leftovers\<close>

definition leftover_origin :: "string list \<Rightarrow> string" where
  "leftover_origin labels = (if ''act:hold'' \<in> set labels \<and> ''origin:evaluate'' \<in> set labels then ''both''
     else if ''origin:evaluate'' \<in> set labels then ''evaluate'' else ''hold'')"

definition is_leftover :: "desk_case \<Rightarrow> bool" where
  "is_leftover c = (lower (strip (cz_status c)) \<in> {''open'', ''investigating''} \<and> strip (cz_entity c) \<noteq> [] \<and>
     (''act:hold'' \<in> set (cz_labels c) \<or> ''origin:evaluate'' \<in> set (cz_labels c)))"

definition leftover_last_act :: "desk_case \<Rightarrow> string option" where
  "leftover_last_act c = (let stored = strip (opt_str (cz_last_act c)) in
     if stored \<noteq> [] then Some stored else if ''act:hold'' \<in> set (cz_labels c) then Some ''held'' else None)"

definition leftover_pack_id :: "string list \<Rightarrow> string" where
  "leftover_pack_id labels = (case find (\<lambda>t. startswith t ''pack:'') labels of None \<Rightarrow> [] | Some t \<Rightarrow> strip (drop 5 t))"

definition leftover_rule_hits :: "string list \<Rightarrow> string list" where
  "leftover_rule_hits labels = filter (\<lambda>h. h \<noteq> []) (map (\<lambda>t. strip (drop 4 t)) (filter (\<lambda>t. startswith t ''hit:'') labels))"

definition leftover_brief :: "string list \<Rightarrow> string option \<Rightarrow> string" where
  "leftover_brief labels brief_comment = (let
       c0 = strip (opt_str brief_comment);
       comment = (if startswith c0 ''System:'' then [] else c0);
       pack = leftover_pack_id labels;
       hits = leftover_rule_hits labels;
       bits = (if pack \<noteq> [] then [''Pack '' @ pack] else []) @ (if hits \<noteq> [] then [''hits '' @ join_str '', '' hits] else []);
       base = join_str ('' '' @ em_dash @ '' '') bits in
     if comment \<noteq> [] \<and> base = [] then take 500 comment
     else if comment \<noteq> [] then base @ '' '' @ em_dash @ '' '' @ take 240 comment
     else base)"

definition multi_analyst_claim_enabled :: "host \<Rightarrow> bool" where
  "multi_analyst_claim_enabled h = leftover_flag h ''TARKA_MULTI_ANALYST_CLAIM'' ''multi_analyst_claim''"

definition qa_queue_isolates :: "host \<Rightarrow> bool" where
  "qa_queue_isolates h = leftover_flag h ''TARKA_QA_QUEUE_ISOLATES'' ''qa_queue_isolates''"

definition receipt_brief_enabled :: "host \<Rightarrow> bool" where
  "receipt_brief_enabled h = leftover_flag h ''TARKA_RECEIPT_BRIEF'' ''receipt_brief_enabled''"

definition is_qa_pending :: "desk_case \<Rightarrow> bool" where
  "is_qa_pending c = (''qa:pending'' \<in> set (cz_labels c))"

definition actor_from_request :: "string \<Rightarrow> string \<Rightarrow> string" where
  "actor_from_request hdr user = (if strip hdr \<noteq> [] then strip hdr else if strip user \<noteq> [] then strip user else ''anonymous'')"

definition claimed_by_other :: "host \<Rightarrow> desk_case \<Rightarrow> string \<Rightarrow> string option" where
  "claimed_by_other h c actor = (if multi_analyst_claim_enabled h then None
     else (let other = strip (opt_str (cz_claimed c)) in if other \<noteq> [] \<and> other \<noteq> actor then Some other else None))"

definition apply_claim :: "string \<Rightarrow> int \<Rightarrow> desk_case \<Rightarrow> desk_case" where
  "apply_claim actor now c = c\<lparr>cz_claimed := Some actor, cz_claimed_at := Some now\<rparr>"

definition clear_claim :: "desk_case \<Rightarrow> desk_case" where
  "clear_claim c = c\<lparr>cz_claimed := None, cz_claimed_at := None\<rparr>"

datatype act_answer = ActDone desk_case | ActConflict string | ActHttp int string

definition claim_leftover :: "host \<Rightarrow> string \<Rightarrow> int \<Rightarrow> desk_case \<Rightarrow> act_answer" where
  "claim_leftover h actor now c = (if \<not> is_leftover c then ActHttp 404 ''not a leftover''
     else (case claimed_by_other h c actor of Some other \<Rightarrow> ActConflict other | None \<Rightarrow> ActDone (apply_claim actor now c)))"

text \<open>\<open>act_on_entity\<close> on the open case of the entity; a new case for \<open>hold\<close> has the defaults the handler gives it.\<close>

definition held_case :: "string \<Rightarrow> desk_case" where
  "held_case eid = \<lparr>cz_status = ''open'', cz_labels = [''act:hold''], cz_entity = eid, cz_claimed = None, cz_claimed_at = None,
     cz_last_act = Some ''held'', cz_priority = PStr ''medium'', cz_team = PNone, cz_title = PStr (''Act: hold '' @ eid)\<rparr>"

definition act_hold :: "host \<Rightarrow> string \<Rightarrow> string \<Rightarrow> int \<Rightarrow> desk_case option \<Rightarrow> act_answer" where
  "act_hold h eid actor now found = (case found of
       None \<Rightarrow> ActDone (apply_claim actor now (held_case eid))
     | Some c \<Rightarrow> (case claimed_by_other h c actor of
         Some other \<Rightarrow> ActConflict other
       | None \<Rightarrow> (let c1 = (if ''act:hold'' \<in> set (cz_labels c) then c else c\<lparr>cz_labels := cz_labels c @ [''act:hold'']\<rparr>) in
           ActDone (apply_claim actor now (c1\<lparr>cz_last_act := Some ''held''\<rparr>)))))"

definition act_release :: "host \<Rightarrow> string \<Rightarrow> desk_case \<Rightarrow> act_answer" where
  "act_release h actor c = (case claimed_by_other h c actor of
       Some other \<Rightarrow> ActConflict other
     | None \<Rightarrow> ActDone ((clear_claim c)\<lparr>cz_last_act := Some ''released''\<rparr>))"

definition act_resolve :: "string option \<Rightarrow> desk_case \<Rightarrow> act_answer" where
  "act_resolve reason_code c = (case normalize_reason_code reason_code of
       Inl _ \<Rightarrow> ActHttp 400 ''reason_code is required and must be known''
     | Inr reason \<Rightarrow> if reason = [] then ActHttp 400 ''reason_code is required and must be known''
         else (case escalate_status_for_reason ''resolved'' (Some reason) of
             Inl _ \<Rightarrow> ActHttp 500 ''Internal Server Error''
           | Inr st \<Rightarrow> ActDone (clear_claim (c\<lparr>cz_status := st, cz_last_act := Some ''resolved''\<rparr>))))"

definition act_on_entity :: "host \<Rightarrow> string \<Rightarrow> string \<Rightarrow> string \<Rightarrow> string option \<Rightarrow> int \<Rightarrow> desk_case option \<Rightarrow> act_answer" where
  "act_on_entity h entity_id action actor reason_code now found = (let eid = strip entity_id in
     if eid = [] then ActHttp 400 ''entity_id is required''
     else if action = ''hold'' then act_hold h eid actor now found
     else (case found of
         None \<Rightarrow> ActHttp 404 ''leftover not found''
       | Some c \<Rightarrow> if \<not> is_leftover c then ActHttp 404 ''leftover not found''
           else if action = ''release'' then act_release h actor c
           else act_resolve reason_code c))"

section \<open>Labels of the maker-checker rule\<close>

definition mc_label :: "string \<Rightarrow> bool" where
  "mc_label x = (startswith x mc_pending_prefix \<or> startswith x mc_requester_prefix)"

lemma set_label_set [simp]: "set (label_set xs) = set xs"
  by (simp add: label_set_def)

lemma find_unique:
  assumes "x \<in> set xs" "P x" "\<And>y. y \<in> set xs \<Longrightarrow> P y \<Longrightarrow> y = x"
  shows "find P xs = Some x"
proof -
  obtain z where "find P xs = Some z" using assms(1, 2) find_None_iff [of P xs] by (cases "find P xs") blast+
  moreover from this have "z \<in> set xs" "P z" by (auto simp: find_Some_iff)
  ultimately show ?thesis using assms(3) by blast
qed

lemma mc_label_prefixes [simp]:
  "\<not> mc_label (reason_label_prefix @ c)"
  "\<not> startswith (mc_pending_prefix @ c) mc_requester_prefix"
  "\<not> startswith (mc_requester_prefix @ c) mc_pending_prefix"
  unfolding mc_label_def startswith_iff mc_pending_prefix_def mc_requester_prefix_def reason_label_prefix_def by simp_all

lemma with_reason_clean:
  assumes "with_reason r (strip_mc_labels labels) = Inr clean" "x \<in> set clean"
  shows "\<not> mc_label x"
proof -
  have "y \<in> set (strip_mc_labels labels) \<Longrightarrow> \<not> mc_label y" for y by (simp add: strip_mc_labels_def mc_label_def)
  then show ?thesis using assms by (auto simp: with_reason_def split: if_splits sum.splits)
qed

lemma no_mc_labels: "(\<And>x. x \<in> set labels \<Longrightarrow> \<not> mc_label x) \<Longrightarrow> pending_target_status labels = None \<and> pending_requester labels = None"
proof -
  assume no: "\<And>x. x \<in> set labels \<Longrightarrow> \<not> mc_label x"
  have "find (\<lambda>s. startswith s mc_pending_prefix) labels = None" "find (\<lambda>s. startswith s mc_requester_prefix) labels = None"
    using no unfolding find_None_iff mc_label_def by blast+
  then show ?thesis by (simp add: pending_target_status_def pending_requester_def)
qed

lemma actor_name_normal: "strip (actor_name a) = actor_name a \<and> actor_name a \<noteq> []"
proof -
  have "strip ''anonymous'' = ''anonymous''" by code_simp
  then show ?thesis by (simp add: actor_name_def)
qed

lemma requested_labels:
  assumes "\<And>x. x \<in> set clean \<Longrightarrow> \<not> mc_label x"
  shows "pending_requester (label_set (clean @ [mc_pending_prefix @ t, mc_requester_prefix @ actor_name a])) = Some (actor_name a)"
proof -
  let ?ls = "label_set (clean @ [mc_pending_prefix @ t, mc_requester_prefix @ actor_name a])"
  have "find (\<lambda>s. startswith s mc_requester_prefix) ?ls = Some (mc_requester_prefix @ actor_name a)"
    using assms by (intro find_unique) (auto simp: mc_label_def)
  then show ?thesis using actor_name_normal by (simp add: pending_requester_def)
qed

section \<open>Two persons for a high-impact close\<close>

text \<open>A history of successful \<open>PATCH\<close> requests on a case, with the actors they named.\<close>

inductive patched :: "string list \<Rightarrow> desk_case \<Rightarrow> string list \<Rightarrow> desk_case \<Rightarrow> bool" for ms c0 where
  patched_start: "patched ms c0 [] c0"
| patched_step: "patched ms c0 actors c \<Longrightarrow> update_case ms hdr user body c = Inr c' \<Longrightarrow>
    patched ms c0 (actors @ [actor_name (patch_actor hdr user)]) c'"

definition requester_known :: "string list \<Rightarrow> desk_case \<Rightarrow> bool" where
  "requester_known actors c = (pending_target_status (cz_labels c) \<noteq> None \<longrightarrow> (\<exists>a \<in> set actors. pending_requester (cz_labels c) = Some a))"

definition two_actors :: "string list \<Rightarrow> bool" where
  "two_actors actors = (\<exists>a \<in> set actors. \<exists>b \<in> set actors. a \<noteq> b)"

lemma mc_approve_result:
  assumes "mc_approve labels a r = Inr mc"
  shows "pending_target_status labels = Some (mc_status mc)" "pending_requester labels \<noteq> Some a"
    "pending_target_status (mc_labels mc) = None"
proof -
  obtain clean where c: "with_reason r (strip_mc_labels labels) = Inr clean" "mc_labels mc = label_set clean"
    and "pending_target_status labels = Some (mc_status mc)" "pending_requester labels \<noteq> Some a"
    using assms by (auto simp: mc_approve_def split: option.splits if_splits sum.splits)
  then show "pending_target_status labels = Some (mc_status mc)" "pending_requester labels \<noteq> Some a" by blast+
  show "pending_target_status (mc_labels mc) = None"
    using c with_reason_clean [OF c(1)] no_mc_labels [of "mc_labels mc"] by simp
qed

lemma mc_request_result:
  assumes "mc_request ms labels (actor_name a) st r cur = Inr mc"
  shows "(mc_applied mc \<and> mc_status mc \<notin> set ms \<and> pending_target_status (mc_labels mc) = None) \<or>
    (\<not> mc_applied mc \<and> pending_requester (mc_labels mc) = Some (actor_name a))"
proof -
  obtain target clean where c: "with_reason r (strip_mc_labels labels) = Inr clean"
    and mc: "(target \<in> set ms \<and> \<not> mc_applied mc \<and> mc_labels mc = label_set (clean @ [mc_pending_prefix @ target, mc_requester_prefix @ actor_name a])) \<or>
      (target \<notin> set ms \<and> mc_applied mc \<and> mc_status mc = target \<and> mc_labels mc = label_set clean)"
    using assms by (auto simp: mc_request_def split: sum.splits if_splits)
  have "pending_target_status (label_set clean) = None" using with_reason_clean [OF c] no_mc_labels [of "label_set clean"] by simp
  moreover have "pending_requester (label_set (clean @ [mc_pending_prefix @ target, mc_requester_prefix @ actor_name a])) = Some (actor_name a)"
    by (rule requested_labels [OF with_reason_clean [OF c]])
  ultimately show ?thesis using mc by auto
qed

text \<open>What one status decision does to the labels and the status.\<close>

lemma maker_checker_decision:
  assumes "apply_status_with_maker_checker cur labels actor req r approve ms = Inr mc"
  shows "(mc_labels mc = labels \<and> \<not> mc_applied mc) \<or>
    (\<not> mc_applied mc \<and> pending_requester (mc_labels mc) = Some (actor_name actor)) \<or>
    (mc_applied mc \<and> pending_target_status (mc_labels mc) = None \<and>
      (mc_status mc \<notin> set ms \<or> (pending_target_status labels \<noteq> None \<and> pending_requester labels \<noteq> Some (actor_name actor))))"
proof (cases approve)
  case True
  then have m: "mc_approve labels (actor_name actor) r = Inr mc" and "mc_applied mc"
    using assms by (auto simp: apply_status_with_maker_checker_def mc_approve_def split: option.splits if_splits sum.splits)
  then show ?thesis using mc_approve_result [OF m] by simp
next
  case False
  show ?thesis
  proof (cases req)
    case None
    then show ?thesis using assms False by (auto simp: apply_status_with_maker_checker_def)
  next
    case (Some st)
    then have "mc_request ms labels (actor_name actor) st r cur = Inr mc"
      using assms False by (simp add: apply_status_with_maker_checker_def)
    from mc_request_result [OF this] show ?thesis by blast
  qed
qed

lemma update_case_step:
  assumes "update_case ms hdr user body c = Inr c'" "requester_known actors c"
    and "cz_status c \<in> set ms \<longrightarrow> two_actors actors"
  shows "requester_known (actors @ [actor_name (patch_actor hdr user)]) c' \<and>
    (cz_status c' \<in> set ms \<longrightarrow> two_actors (actors @ [actor_name (patch_actor hdr user)]))"
proof -
  let ?a = "actor_name (patch_actor hdr user)"
  have two: "two_actors actors \<Longrightarrow> two_actors (actors @ [?a])" by (auto simp: two_actors_def)
  consider "cz_labels c' = cz_labels c" "cz_status c' = cz_status c"
    | cur req r ap mc where "apply_status_with_maker_checker cur (cz_labels c) (patch_actor hdr user) req r ap ms = Inr mc"
        "cz_labels c' = mc_labels mc" "cz_status c' = (if mc_applied mc then mc_status mc else cz_status c)"
    using assms(1) by (auto simp: update_case_def Let_def set_case_fields_def split: if_splits sum.splits)
  then show ?thesis
  proof cases
    case 1
    then show ?thesis using assms(2, 3) two by (auto simp: requester_known_def)
  next
    case 2
    have "two_actors (actors @ [?a])" if "pending_target_status (cz_labels c) \<noteq> None" "pending_requester (cz_labels c) \<noteq> Some ?a"
      using that assms(2) by (auto simp: requester_known_def two_actors_def)
    then show ?thesis using maker_checker_decision [OF 2(1)] 2(2, 3) assms(2, 3) two by (auto simp: requester_known_def)
  qed
qed

text \<open>
  C11: a case reaches a high-impact status by status requests only when two different actors took part: from a case without
  maker-checker labels and outside those statuses, after any sequence of \<open>PATCH\<close> requests, if the status is one that needs a
  second actor then the history names at least two.
\<close>

theorem high_impact_needs_two_actors:
  assumes "patched ms c0 actors c" and "list_all (\<lambda>x. \<not> mc_label x) (cz_labels c0)"
    and "cz_status c0 \<notin> set ms" and "cz_status c \<in> set ms"
  shows "\<exists>a \<in> set actors. \<exists>b \<in> set actors. a \<noteq> b"
proof -
  have "requester_known actors c \<and> (cz_status c \<in> set ms \<longrightarrow> two_actors actors)"
    using assms(1)
  proof (induction rule: patched.induct)
    case patched_start
    have "pending_target_status (cz_labels c0) = None"
      using no_mc_labels [of "cz_labels c0"] assms(2) by (auto simp: list_all_iff)
    then show ?case using assms(3) by (simp add: requester_known_def)
  next
    case (patched_step actors c hdr user body c')
    then show ?case using update_case_step [of ms hdr user body c c' actors] by blast
  qed
  then show ?thesis using assms(4) by (simp add: two_actors_def)
qed

definition open_case :: desk_case where
  "open_case = (held_case ''p'')\<lparr>cz_labels := []\<rparr>"

definition fraud_patch :: dict where
  "fraud_patch = [(''status'', PStr ''resolved''), (''disposition_reason_code'', PStr ''CONFIRMED_FRAUD'')]"

theorem high_impact_needs_two_actors_witness:
  "\<exists>c. patched default_mc_statuses open_case [''ann'', ''bob''] c \<and> cz_status c = ''resolved_fraud'' \<and>
     (\<exists>a \<in> set [''ann'', ''bob'']. \<exists>b \<in> set [''ann'', ''bob'']. a \<noteq> b)"
proof -
  define c1 where "c1 = open_case\<lparr>cz_labels := [''disposition:CONFIRMED_FRAUD'', ''mc_pending:resolved_fraud'', ''mc_requester:ann'']\<rparr>"
  define c2 where "c2 = open_case\<lparr>cz_labels := [''disposition:CONFIRMED_FRAUD''], cz_status := ''resolved_fraud''\<rparr>"
  have "update_case default_mc_statuses [] ''ann'' fraud_patch open_case = Inr c1" unfolding c1_def by code_simp
  then have "patched default_mc_statuses open_case [actor_name (patch_actor [] ''ann'')] c1"
    using patched_step [OF patched_start] by fastforce
  moreover have "update_case default_mc_statuses [] ''bob'' [(''maker_checker_approve'', PBool True)] c1 = Inr c2"
    unfolding c1_def c2_def by code_simp
  ultimately have "patched default_mc_statuses open_case ([actor_name (patch_actor [] ''ann'')] @ [actor_name (patch_actor [] ''bob'')]) c2"
    by (rule patched_step)
  moreover have "actor_name (patch_actor [] ''ann'') = ''ann''" "actor_name (patch_actor [] ''bob'') = ''bob''" by code_simp+
  ultimately have p: "patched default_mc_statuses open_case [''ann'', ''bob''] c2" by simp
  have "list_all (\<lambda>x. \<not> mc_label x) (cz_labels open_case)" "cz_status open_case \<notin> set default_mc_statuses"
    "cz_status c2 \<in> set default_mc_statuses" "cz_status c2 = ''resolved_fraud''" unfolding c2_def by code_simp+
  then show ?thesis using high_impact_needs_two_actors [OF p] p by blast
qed

section \<open>Ways around it\<close>

text \<open>
  C34: the label endpoint defeats the rule.  On a case without maker-checker labels, one analyst who adds the label of a pending
  status can approve it alone: no requester is recorded, so the approver is compared with nobody.
\<close>

theorem planted_label_defeats_maker_checker:
  assumes "list_all (\<lambda>x. \<not> mc_label x) (cz_labels c)" and "lower (strip t) = t" and "t \<noteq> []"
  shows "\<exists>c'. update_case ms hdr user [(''maker_checker_approve'', PBool True)] (apply_labels [mc_pending_prefix @ t] c) = Inr c' \<and>
    cz_status c' = t"
proof -
  let ?ls = "label_set (cz_labels c @ [mc_pending_prefix @ t])"
  have no: "x \<in> set (cz_labels c) \<Longrightarrow> \<not> mc_label x" for x using assms(1) by (simp add: list_all_iff)
  have "find (\<lambda>s. startswith s mc_pending_prefix) ?ls = Some (mc_pending_prefix @ t)"
    using no by (intro find_unique) (auto simp: mc_label_def)
  then have "pending_target_status ?ls = Some t" using assms(2, 3) by (simp add: pending_target_status_def)
  moreover have "find (\<lambda>s. startswith s mc_requester_prefix) ?ls = None"
    using no unfolding find_None_iff by (auto simp: mc_label_def)
  then have "pending_requester ?ls = None" by (simp add: pending_requester_def)
  ultimately show ?thesis
    by (simp add: update_case_def apply_labels_def apply_status_with_maker_checker_def mc_approve_def with_reason_def
        patch_reason_def opt_str_def dget_def)
qed

theorem planted_label_defeats_maker_checker_witness:
  "\<exists>c'. update_case default_mc_statuses [] ''ann'' [(''maker_checker_approve'', PBool True)]
     (apply_labels [mc_pending_prefix @ ''sar_filed''] open_case) = Inr c' \<and> cz_status c' = ''sar_filed''"
proof -
  have "list_all (\<lambda>x. \<not> mc_label x) (cz_labels open_case)" "lower (strip ''sar_filed'') = ''sar_filed''" by code_simp+
  then show ?thesis using planted_label_defeats_maker_checker by blast
qed

text \<open>
  The actor is whatever the request says.  When the header \<open>X-Actor-Id\<close> is not blank, the answer does not depend on the
  authenticated user, so one user can request under one name and approve under another.
\<close>

theorem actor_header_overrides_user:
  assumes "strip hdr \<noteq> []"
  shows "update_case ms hdr user body c = update_case ms hdr other_user body c"
proof -
  have "patch_actor hdr user = patch_actor hdr other_user" using assms by (simp add: patch_actor_def)
  then show ?thesis by (simp only: update_case_def)
qed

theorem actor_header_overrides_user_witness:
  "update_case default_mc_statuses ''bob'' ''ann'' fraud_patch open_case = update_case default_mc_statuses ''bob'' ''cleo'' fraud_patch open_case"
proof -
  have "strip ''bob'' \<noteq> []" by code_simp
  then show ?thesis by (rule actor_header_overrides_user)
qed

text \<open>
  C36: resolving a leftover needs neither a second actor nor the claim.  \<open>act_on_entity\<close> with a fraud reason puts the case in
  a high-impact status at once and drops the claim, whoever holds it, although holding and releasing answer 409 to others.
\<close>

theorem resolve_skips_maker_checker_and_claim:
  assumes "is_leftover c" and "cz_claimed c = Some owner" and "claimed_by_other h c actor = Some owner" and "strip eid \<noteq> []"
  shows "act_on_entity h eid ''resolve'' actor (Some ''CONFIRMED_FRAUD'') now (Some c) =
      ActDone (clear_claim (c\<lparr>cz_status := ''resolved_fraud'', cz_last_act := Some ''resolved''\<rparr>)) \<and>
    act_on_entity h eid ''release'' actor None now (Some c) = ActConflict owner \<and>
    act_on_entity h eid ''hold'' actor None now (Some c) = ActConflict owner \<and> ''resolved_fraud'' \<in> set default_mc_statuses"
proof -
  have "normalize_reason_code (Some ''CONFIRMED_FRAUD'') = Inr ''CONFIRMED_FRAUD''"
    "escalate_status_for_reason ''resolved'' (Some ''CONFIRMED_FRAUD'') = Inr ''resolved_fraud''"
    "''resolved_fraud'' \<in> set default_mc_statuses" by code_simp+
  then show ?thesis using assms by (simp add: act_on_entity_def act_resolve_def act_release_def act_hold_def Let_def)
qed

definition claimed_case :: desk_case where
  "claimed_case = apply_claim ''ann'' 1 (held_case ''p'')"

definition bare_host :: host where
  "bare_host = \<lparr>host_env = [(''TARKA_MULTI_ANALYST_CLAIM'', ''0'')], host_files = []\<rparr>"

theorem resolve_skips_maker_checker_and_claim_witness:
  "act_on_entity bare_host ''p'' ''resolve'' ''bob'' (Some ''CONFIRMED_FRAUD'') 2 (Some claimed_case) =
     ActDone (clear_claim (claimed_case\<lparr>cz_status := ''resolved_fraud'', cz_last_act := Some ''resolved''\<rparr>))"
proof -
  have "is_leftover claimed_case" "cz_claimed claimed_case = Some ''ann''" "strip ''p'' \<noteq> []"
    "claimed_by_other bare_host claimed_case ''bob'' = Some ''ann''" by code_simp+
  then show ?thesis using resolve_skips_maker_checker_and_claim by blast
qed

text \<open>A reason of spaces only is not refused as a policy error: the table lookup raises \<open>KeyError\<close>.\<close>

lemma blank_reason_raises: "escalate_status_for_reason ''resolved'' (Some '' '') = Inl MissingKey"
  by code_simp

text \<open>A bulk update writes the status it is given, with no second actor.\<close>

lemma bulk_update_sets_status:
  "st \<noteq> [] \<Longrightarrow> cz_status (apply_case_payload_to_case [(''status'', PStr st), (''labels'', PList [])] c) = st"
  by (simp add: apply_case_payload_to_case_def dget_def has_key_def Let_def)

end
