(* ===== verification/Case_Workflow.thy ===== *)
theory Case_Workflow
  imports Py_Datetime Sha256
begin

text \<open>
  Case automation: \<open>case_api/workflow.py\<close> (triggers, conditions, actions, service levels), \<open>case_api/routing.py\<close>,
  \<open>case_api/dispute_deadline.py\<close> (the alert state) and \<open>case_api/qa_sampling.py\<close>.

  Files are the values they decode to, \<open>None\<close> for one that does not decode.  The HTTP client is a parameter: absent, or the error of
  a post to a URL.  Labels are strings, as the case schema has them: a label list with another value answers
  \<open>TypeError\<close> here, which is what sorting it with strings raises (a list of numbers only, which sorts, is outside the model).  Floats are exact rationals.
\<close>

section \<open>Workflows\<close>

definition wf_get :: "pyval \<Rightarrow> string \<Rightarrow> pyval \<Rightarrow> pyval res" where
  "wf_get v k d = (case v of PDict m \<Rightarrow> Inr (dget_or m k d) | _ \<Rightarrow> Inl AttributeError)"

fun keep_enabled :: "pyval option list \<Rightarrow> pyval list res" where
  "keep_enabled [] = Inr []"
| "keep_enabled (None # fs) = keep_enabled fs"
| "keep_enabled (Some w # fs) = (case wf_get w ''enabled'' (PBool True) of Inl e \<Rightarrow> Inl e
     | Inr en \<Rightarrow> map_sum id (\<lambda>ws. if truthy en then w # ws else ws) (keep_enabled fs))"

definition load_workflows :: "pyval option list option \<Rightarrow> pyval list res" where
  "load_workflows dir = (case dir of None \<Rightarrow> Inr [] | Some files \<Rightarrow> keep_enabled files)"

record wf_context =
  wc_trigger :: string
  wc_case :: dict
  wc_decision :: dict
  wc_actions :: "dict list"
  wc_mutations :: dict

definition hashable :: "pyval \<Rightarrow> bool" where
  "hashable v = (case v of PList _ \<Rightarrow> False | PDict _ \<Rightarrow> False | _ \<Rightarrow> True)"

text \<open>\<open>v in c\<close>.\<close>

definition py_in :: "pyval \<Rightarrow> pyval \<Rightarrow> bool res" where
  "py_in v c = (case c of
       PList vs \<Rightarrow> Inr (list_ex (py_eq v) vs)
     | PStr s \<Rightarrow> (case v of PStr t \<Rightarrow> Inr (contains_str s t) | _ \<Rightarrow> Inl TypeError)
     | PDict d \<Rightarrow> if \<not> hashable v then Inl TypeError else Inr (case v of PStr k \<Rightarrow> has_key d k | _ \<Rightarrow> False)
     | _ \<Rightarrow> Inl TypeError)"

definition wf_actual :: "wf_context \<Rightarrow> pyval \<Rightarrow> pyval res" where
  "wf_actual ctx field = (case field of
       PStr f \<Rightarrow> Inr (if has_key (wc_case ctx) f then dget (wc_case ctx) f else dget (wc_decision ctx) f)
     | _ \<Rightarrow> if hashable field then Inr PNone else Inl TypeError)"

definition wf_compare :: "(pyfloat \<Rightarrow> pyfloat \<Rightarrow> bool) \<Rightarrow> pyval \<Rightarrow> pyval \<Rightarrow> bool res" where
  "wf_compare rel actual v = (case actual of PNone \<Rightarrow> Inr False
     | _ \<Rightarrow> (case py_float actual of Inl e \<Rightarrow> Inl e | Inr a \<Rightarrow> map_sum id (rel a) (py_float v)))"

definition evaluate_condition :: "wf_context \<Rightarrow> pyval \<Rightarrow> bool res" where
  "evaluate_condition ctx cond = (case cond of
       PDict c \<Rightarrow> (let op = dget_or c ''op'' (PStr ''eq''); v = dget c ''value'' in
         case wf_actual ctx (dget_or c ''field'' (PStr [])) of Inl e \<Rightarrow> Inl e
         | Inr actual \<Rightarrow>
             if op = PStr ''eq'' then Inr (py_eq actual v)
             else if op = PStr ''neq'' then Inr (\<not> py_eq actual v)
             else if op = PStr ''gte'' then wf_compare (\<lambda>a b. fle b a) actual v
             else if op = PStr ''lte'' then wf_compare fle actual v
             else if op = PStr ''in'' then py_in actual (py_or v (PList []))
             else if op = PStr ''contains'' then (case actual of PList _ \<Rightarrow> py_in v actual | PStr _ \<Rightarrow> py_in v actual | _ \<Rightarrow> Inr False)
             else if op = PStr ''has_tag''
               then py_in v (py_or (dget_or (wc_case ctx) ''labels'' (PList [])) (dget_or (wc_decision ctx) ''tags'' (PList [])))
             else Inr False)
     | _ \<Rightarrow> Inl AttributeError)"

fun all_conditions :: "wf_context \<Rightarrow> pyval list \<Rightarrow> bool res" where
  "all_conditions ctx [] = Inr True"
| "all_conditions ctx (c # cs) = (case evaluate_condition ctx c of Inl e \<Rightarrow> Inl e
     | Inr ok \<Rightarrow> if ok then all_conditions ctx cs else Inr False)"

fun label_texts :: "pyval list \<Rightarrow> string list res" where
  "label_texts [] = Inr []"
| "label_texts (PStr s # vs) = map_sum id (Cons s) (label_texts vs)"
| "label_texts (_ # vs) = Inl TypeError"

definition done_action :: "dict \<Rightarrow> wf_context \<Rightarrow> wf_context" where
  "done_action d ctx = ctx\<lparr>wc_actions := wc_actions ctx @ [d]\<rparr>"

definition mutate :: "string \<Rightarrow> pyval \<Rightarrow> wf_context \<Rightarrow> wf_context" where
  "mutate k v ctx = ctx\<lparr>wc_mutations := dset k v (wc_mutations ctx)\<rparr>"

definition wf_add_label :: "dict \<Rightarrow> wf_context \<Rightarrow> wf_context res" where
  "wf_add_label a ctx = (let new_labels = dget_or a ''labels'' (PList []) in
     case py_iter (py_or (dget_or (wc_case ctx) ''labels'' (PList [])) (PList [])) of Inl e \<Rightarrow> Inl e
     | Inr old \<Rightarrow> (case py_iter new_labels of Inl e \<Rightarrow> Inl e
       | Inr new \<Rightarrow> map_sum id (\<lambda>ts. done_action [(''type'', PStr ''add_label''), (''labels'', new_labels)]
           (mutate ''labels'' (PList (map PStr (sort (remdups ts)))) ctx)) (label_texts (old @ new))))"

definition wf_add_comment :: "dict \<Rightarrow> wf_context \<Rightarrow> wf_context" where
  "wf_add_comment a ctx = (let old = (case dget (wc_mutations ctx) ''_comments'' of PList vs \<Rightarrow> vs | _ \<Rightarrow> []) in
     done_action [(''type'', PStr ''add_comment''), (''message'', dget a ''message'')]
       (mutate ''_comments'' (PList (old @ [PDict [(''author'', PStr ''workflow-engine''),
          (''body'', dget_or a ''message'' (PStr ''Auto-comment from workflow''))]])) ctx))"

definition wf_send_webhook :: "(pyval \<Rightarrow> string option) option \<Rightarrow> dict \<Rightarrow> wf_context \<Rightarrow> wf_context" where
  "wf_send_webhook http a ctx = (let url = dget_or a ''url'' (PStr []) in
     case http of None \<Rightarrow> ctx
     | Some post \<Rightarrow> if \<not> truthy url then ctx
         else (case post url of
             None \<Rightarrow> done_action [(''type'', PStr ''send_webhook''), (''url'', url), (''status'', PStr ''sent'')] ctx
           | Some err \<Rightarrow> done_action [(''type'', PStr ''send_webhook''), (''url'', url), (''status'', PStr ''failed''), (''error'', PStr err)] ctx))"

definition execute_action :: "(pyval \<Rightarrow> string option) option \<Rightarrow> pyval \<Rightarrow> wf_context \<Rightarrow> wf_context res" where
  "execute_action http action ctx = (case action of
       PDict a \<Rightarrow> (let t = dget_or a ''type'' (PStr []) in
         if t = PStr ''assign_team'' then Inr (done_action [(''type'', t), (''team'', dget a ''team'')]
           (mutate ''assigned_team'' (dget_or a ''team'' (PStr ''default'')) ctx))
         else if t = PStr ''set_priority'' then Inr (done_action [(''type'', t), (''priority'', dget a ''priority'')]
           (mutate ''priority'' (dget_or a ''priority'' (PStr ''high'')) ctx))
         else if t = PStr ''add_label'' then wf_add_label a ctx
         else if t = PStr ''escalate'' then Inr (done_action [(''type'', t)]
           (mutate ''priority'' (PStr ''critical'') (mutate ''status'' (PStr ''escalated'') ctx)))
         else if t = PStr ''add_comment'' then Inr (wf_add_comment a ctx)
         else if t = PStr ''send_webhook'' then Inr (wf_send_webhook http a ctx)
         else Inr ctx)
     | _ \<Rightarrow> Inl AttributeError)"

fun execute_actions :: "(pyval \<Rightarrow> string option) option \<Rightarrow> pyval list \<Rightarrow> wf_context \<Rightarrow> wf_context res" where
  "execute_actions http [] ctx = Inr ctx"
| "execute_actions http (a # as) ctx = (case execute_action http a ctx of Inl e \<Rightarrow> Inl e | Inr ctx' \<Rightarrow> execute_actions http as ctx')"

definition run_workflow :: "(pyval \<Rightarrow> string option) option \<Rightarrow> dict \<Rightarrow> wf_context \<Rightarrow> wf_context res" where
  "run_workflow http w ctx = (case py_in (PStr (wc_trigger ctx)) (dget_or w ''triggers'' (PList [])) of Inl e \<Rightarrow> Inl e
     | Inr False \<Rightarrow> Inr ctx
     | Inr True \<Rightarrow> (let conditions = dget_or w ''conditions'' (PList []) in
         case (if truthy conditions then (case py_iter conditions of Inl e \<Rightarrow> Inl e | Inr cs \<Rightarrow> all_conditions ctx cs) else Inr True) of
           Inl e \<Rightarrow> Inl e
         | Inr False \<Rightarrow> Inr ctx
         | Inr True \<Rightarrow> (case py_iter (dget_or w ''actions'' (PList [])) of Inl e \<Rightarrow> Inl e
             | Inr as \<Rightarrow> execute_actions http as ctx)))"

fun run_workflows :: "(pyval \<Rightarrow> string option) option \<Rightarrow> dict list \<Rightarrow> wf_context \<Rightarrow> wf_context res" where
  "run_workflows http [] ctx = Inr ctx"
| "run_workflows http (w # wfs) ctx = (case run_workflow http w ctx of Inl e \<Rightarrow> Inl e | Inr ctx' \<Rightarrow> run_workflows http wfs ctx')"

definition evaluate_workflows :: "(pyval \<Rightarrow> string option) option \<Rightarrow> dict list \<Rightarrow> string \<Rightarrow> dict \<Rightarrow> dict \<Rightarrow> wf_context res" where
  "evaluate_workflows http wfs trigger c d = run_workflows http wfs
     \<lparr>wc_trigger = trigger, wc_case = c, wc_decision = d, wc_actions = [], wc_mutations = []\<rparr>"

section \<open>Service levels\<close>

definition hour_us :: int where "hour_us = 3600000000"

definition sla_hours :: "string \<Rightarrow> int option \<Rightarrow> int" where
  "sla_hours priority override = (case override of
       Some n \<Rightarrow> if n > 0 then n else (case map_of [(''critical'', 1), (''high'', 4), (''medium'', 24), (''low'', 72)] priority of Some h \<Rightarrow> h | None \<Rightarrow> 24)
     | None \<Rightarrow> (case map_of [(''critical'', 1), (''high'', 4), (''medium'', 24), (''low'', 72)] priority of Some h \<Rightarrow> h | None \<Rightarrow> 24))"

text \<open>A datetime without an offset is taken as UTC; the sum leaves the range of years with \<open>OverflowError\<close>.\<close>

definition compute_sla_deadline :: "string \<Rightarrow> datetime \<Rightarrow> int option \<Rightarrow> datetime res" where
  "compute_sla_deadline priority created override = (let d = fst created + sla_hours priority override * hour_us in
     if in_datetime_range d then Inr (d, Some (case snd created of None \<Rightarrow> 0 | Some off \<Rightarrow> off)) else Inl OverflowError)"

definition instant :: "datetime \<Rightarrow> int" where
  "instant t = fst t - (case snd t of None \<Rightarrow> 0 | Some off \<Rightarrow> off)"

definition is_sla_breached_at :: "string \<Rightarrow> datetime \<Rightarrow> int option \<Rightarrow> datetime \<Rightarrow> bool res" where
  "is_sla_breached_at priority created override as_of =
     map_sum id (\<lambda>deadline. instant as_of > instant deadline) (compute_sla_deadline priority created override)"

section \<open>Routing, deadlines, samples\<close>

fun when_matches :: "dict \<Rightarrow> dict \<Rightarrow> bool" where
  "when_matches payload [] = True"
| "when_matches payload ((k, want) # ws) = (py_eq (dget payload k) want \<and> when_matches payload ws)"

fun evaluate_case_routing :: "pyval list \<Rightarrow> dict \<Rightarrow> string option res" where
  "evaluate_case_routing [] payload = Inr None"
| "evaluate_case_routing (r # rs) payload = (case r of
       PDict rule \<Rightarrow> (case py_or (dget rule ''when'') (PDict []) of
           PDict cond \<Rightarrow> (case (if when_matches payload cond then dget rule ''assigned_team'' else PNone) of
               PStr team \<Rightarrow> if strip team \<noteq> [] then Inr (Some (strip team)) else evaluate_case_routing rs payload
             | _ \<Rightarrow> evaluate_case_routing rs payload)
         | _ \<Rightarrow> Inl AttributeError)
     | _ \<Rightarrow> Inl AttributeError)"

text \<open>Instants in microseconds of UTC.\<close>

definition alert_state :: "int option \<Rightarrow> int option \<Rightarrow> int \<Rightarrow> rat \<Rightarrow> string" where
  "alert_state deadline reference now ratio = (case deadline of
       None \<Rightarrow> ''no_deadline''
     | Some dl \<Rightarrow> if now \<ge> dl then ''breached''
         else (let ref = (case reference of Some r \<Rightarrow> r | None \<Rightarrow> dl); window = of_int (dl - ref) / 1000000 in
           if window \<le> 0 then ''breached''
           else if of_int (dl - now) / 1000000 \<le> max (window * ratio) 3600 then ''near_breach'' else ''ok''))"

definition review_pair :: "dict \<Rightarrow> string \<times> string" where
  "review_pair row = (upper (strip (str_or_empty (dget row ''original_status''))), upper (strip (str_or_empty (dget row ''qa_status''))))"

definition reviewed_pairs :: "dict list \<Rightarrow> (string \<times> string) list" where
  "reviewed_pairs rows = filter (\<lambda>(a, b). a \<noteq> [] \<and> b \<noteq> []) (map review_pair rows)"

definition rate4 :: "nat \<Rightarrow> nat \<Rightarrow> pyval" where
  "rate4 n reviewed = (if reviewed = 0 then PNone else PFloat (Fin (round_to 4 (of_nat n / of_nat reviewed))))"

definition disagreement_metrics :: "dict list \<Rightarrow> dict" where
  "disagreement_metrics rows = (let ps = reviewed_pairs rows; reviewed = length ps; dis = length (filter (\<lambda>(a, b). a \<noteq> b) ps); agree = reviewed - dis
     in [(''reviewed'', PInt (int reviewed)), (''agree'', PInt (int agree)), (''disagree'', PInt (int dis)),
         (''agreement_rate'', rate4 agree reviewed), (''disagreement_rate'', rate4 dis reviewed)])"

text \<open>\<open>salt\<close> is the seed, or the date of today when there is none.\<close>

definition sample_score :: "string \<Rightarrow> string \<Rightarrow> rat" where
  "sample_score salt cid = of_int (parse_hex (take 8 (sha256_hex (salt @ cid)))) / 4294967295"

definition sample_size :: "nat \<Rightarrow> rat \<Rightarrow> int \<Rightarrow> nat" where
  "sample_size cases rate limit = nat (max 1 (min limit (round_even (of_nat cases * rate))))"

definition sample_case_ids :: "string list \<Rightarrow> rat \<Rightarrow> string \<Rightarrow> int \<Rightarrow> string list" where
  "sample_case_ids case_ids rate0 salt limit = (let rate = max 0 (min 1 rate0) in
     if case_ids = [] \<or> rate \<le> 0 then []
     else (let material = sort (remdups (filter (\<lambda>c. c \<noteq> []) (map strip case_ids))) in
       take (sample_size (length material) rate limit) (sort_key (sample_score salt) material)))"

section \<open>Properties of the workflows\<close>

text \<open>What no action touches: the trigger, the case and the decision the conditions read.\<close>

lemma execute_action_keeps:
  assumes "execute_action http a ctx = Inr ctx'"
  shows "wc_case ctx' = wc_case ctx \<and> wc_decision ctx' = wc_decision ctx \<and> wc_trigger ctx' = wc_trigger ctx"
  using assms by (cases a) (auto simp: execute_action_def wf_add_label_def wf_add_comment_def wf_send_webhook_def done_action_def mutate_def Let_def
      map_sum_def split: if_splits sum.splits option.splits)

lemma execute_actions_keep:
  "execute_actions http acts ctx = Inr ctx' \<Longrightarrow>
     wc_case ctx' = wc_case ctx \<and> wc_decision ctx' = wc_decision ctx \<and> wc_trigger ctx' = wc_trigger ctx"
proof (induction acts arbitrary: ctx)
  case (Cons a acts)
  then obtain c1 where "execute_action http a ctx = Inr c1" "execute_actions http acts c1 = Inr ctx'" by (auto split: sum.splits)
  then show ?case using Cons.IH execute_action_keeps by fastforce
qed simp

text \<open>Conditions read the case as it came in: no earlier workflow changes what a later one sees.\<close>

lemma run_workflow_keeps:
  assumes "run_workflow http w ctx = Inr ctx'"
  shows "wc_case ctx' = wc_case ctx \<and> wc_decision ctx' = wc_decision ctx \<and> wc_trigger ctx' = wc_trigger ctx"
  using assms by (auto simp: run_workflow_def Let_def dest: execute_actions_keep split: sum.splits bool.splits)

lemma label_texts_strs [simp]: "label_texts (map PStr xs) = Inr xs"
  by (induction xs) simp_all

definition add_label_action :: "string list \<Rightarrow> pyval" where
  "add_label_action xs = PDict [(''type'', PStr ''add_label''), (''labels'', PList (map PStr xs))]"

lemma py_or_list [simp]: "py_or (PList xs) (PList []) = PList xs"
  by (cases xs) (simp_all add: py_or_def)

lemma add_label_effect:
  assumes "dget_or (wc_case ctx) ''labels'' (PList []) = PList (map PStr ls)"
  shows "\<exists>ctx'. execute_action http (add_label_action xs) ctx = Inr ctx' \<and> wc_case ctx' = wc_case ctx \<and>
    dget (wc_mutations ctx') ''labels'' = PList (map PStr (sort (remdups (ls @ xs))))"
proof -
  have "label_texts (map PStr ls @ map PStr xs) = Inr (ls @ xs)" using label_texts_strs [of "ls @ xs"] by simp
  then show ?thesis using assms
    by (simp add: execute_action_def add_label_action_def wf_add_label_def done_action_def mutate_def dget_or_def dget_def update_conv')
qed

text \<open>
  A second label action undoes the first.  Labels are added to those of the case as it came in, not to the labels an
  earlier action has set, so of two label actions only the labels of the last remain.
\<close>

theorem second_add_label_forgets_first:
  assumes "dget_or (wc_case ctx) ''labels'' (PList []) = PList (map PStr ls)"
  shows "\<exists>ctx'. execute_actions http [add_label_action xs, add_label_action ys] ctx = Inr ctx' \<and>
    dget (wc_mutations ctx') ''labels'' = PList (map PStr (sort (remdups (ls @ ys))))"
proof -
  obtain c1 where c1: "execute_action http (add_label_action xs) ctx = Inr c1" "wc_case c1 = wc_case ctx"
    using add_label_effect [OF assms] by blast
  then show ?thesis using add_label_effect [of c1 ls http ys] assms by auto
qed

theorem second_add_label_forgets_first_witness:
  "\<exists>ctx'. execute_actions None [add_label_action [''vip''], add_label_action [''ring'']]
     \<lparr>wc_trigger = ''case_created'', wc_case = [], wc_decision = [], wc_actions = [], wc_mutations = []\<rparr> = Inr ctx' \<and>
     dget (wc_mutations ctx') ''labels'' = PList [PStr ''ring'']"
proof -
  let ?ctx = "\<lparr>wc_trigger = ''case_created'', wc_case = [], wc_decision = [], wc_actions = [], wc_mutations = []\<rparr>"
  have "dget_or (wc_case ?ctx) ''labels'' (PList []) = PList (map PStr [])" by (simp add: dget_or_def)
  then show ?thesis using second_add_label_forgets_first [of ?ctx "[]" None "[''vip'']" "[''ring'']"] by simp
qed

section \<open>Properties of service levels and samples\<close>

lemma sla_hours_positive: "sla_hours priority override \<ge> 1"
  by (auto simp: sla_hours_def split: option.splits)

text \<open>
  A case is in breach exactly when more hours have passed than its level allows (the override when positive, otherwise
  1, 4, 24 or 72 by priority), whatever offsets the two times carry, and it is never in breach before an hour has passed.
\<close>

theorem sla_breach_exact:
  assumes "in_datetime_range (fst created + sla_hours priority override * hour_us)"
  shows "is_sla_breached_at priority created override as_of =
      Inr (instant as_of - instant created > sla_hours priority override * hour_us) \<and>
    (instant as_of \<le> instant created + hour_us \<longrightarrow> is_sla_breached_at priority created override as_of = Inr False)"
proof -
  have b: "is_sla_breached_at priority created override as_of = Inr (instant as_of - instant created > sla_hours priority override * hour_us)"
    using assms by (auto simp: is_sla_breached_at_def compute_sla_deadline_def instant_def Let_def split: option.splits)
  have "hour_us \<le> sla_hours priority override * hour_us" using sla_hours_positive [of priority override] by (simp add: hour_us_def)
  then show ?thesis using b by auto
qed

theorem sla_breach_exact_witness:
  "is_sla_breached_at ''critical'' (0, None) None (3600000001, Some 0) = Inr True"
proof -
  have "in_datetime_range (fst (0, None) + sla_hours ''critical'' None * hour_us)" by code_simp
  then show ?thesis using sla_breach_exact [of "(0, None)" "''critical''" None "(3600000001, Some 0)"]
    by (simp add: instant_def sla_hours_def hour_us_def)
qed

text \<open>A sample holds distinct, non-empty ids of the cases given, at most the limit but never none for a positive rate.\<close>

lemma sample_sound:
  "distinct (sample_case_ids ids rate salt limit) \<and> set (sample_case_ids ids rate salt limit) \<subseteq> strip ` set ids - {[]} \<and>
   int (length (sample_case_ids ids rate salt limit)) \<le> max 1 limit"
proof -
  define m where "m = sort_key (sample_score salt) (sort (remdups (filter (\<lambda>c. c \<noteq> []) (map strip ids))))"
  have m: "distinct m" "set m = strip ` set ids - {[]}" by (auto simp: m_def)
  let ?k = "sample_size (length m) (max 0 (min 1 rate)) limit" and ?s = "sample_case_ids ids rate salt limit"
  have k: "int ?k \<le> max 1 limit" unfolding sample_size_def by linarith
  have "?s = [] \<or> ?s = take ?k m" unfolding sample_case_ids_def m_def Let_def by simp
  then show ?thesis
  proof
    assume s: "?s = take ?k m"
    have "length (take ?k m) \<le> ?k" by simp
    then have "int (length (take ?k m)) \<le> max 1 limit" using k by linarith
    then show ?thesis unfolding s using m set_take_subset [of ?k m] by simp
  qed simp
qed

lemma alert_breached_iff:
  "alert_state (Some dl) (Some ref) now ratio = ''breached'' \<longleftrightarrow> now \<ge> dl \<or> ref \<ge> dl"
  by (auto simp: alert_state_def Let_def divide_le_0_iff)

end
