(* ===== verification/Py_Decimal.thy ===== *)
theory Py_Decimal
  imports Py_Json
begin

text \<open>
  \<open>decimal.Decimal\<close> under the default context (28 digits, ties to even): \<open>Dec c e\<close> is \<open>c * 10^e\<close>.  A negative zero is a
  zero and a signalling NaN a NaN; the limits of the exponent are not modelled.
\<close>

datatype decimal = Dec int int | DPInf | DNInf | DNaN

definition dec_prec :: nat where "dec_prec = 28"

fun dec_val :: "decimal \<Rightarrow> pyfloat" where
  "dec_val (Dec c e) = Fin (if e \<ge> 0 then of_int c * 10 ^ nat e else of_int c / 10 ^ nat (- e))"
| "dec_val DPInf = PInf"
| "dec_val DNInf = NInf"
| "dec_val DNaN = NaN"

text \<open>\<open>Decimal(s)\<close>: blanks around and underscores within are dropped, anything but a number raises.\<close>

definition read_fraction :: "string \<Rightarrow> int \<times> nat \<times> string" where
  "read_fraction s = (if s \<noteq> [] \<and> hd s = CHR ''.'' then read_digits (tl s) 0 0 else (0, 0, s))"

definition is_nan_text :: "string \<Rightarrow> bool" where
  "is_nan_text t = (let l = lower t in (startswith l ''nan'' \<and> list_all is_digit (drop 3 l)) \<or> (startswith l ''snan'' \<and> list_all is_digit (drop 4 l)))"

definition dec_of_str :: "string \<Rightarrow> decimal res" where
  "dec_of_str s = (case read_sign (filter (\<lambda>c. c \<noteq> CHR ''_'') (strip s)) of (neg, t) \<Rightarrow>
     if lower t = ''inf'' \<or> lower t = ''infinity'' then Inr (if neg then DNInf else DPInf)
     else if is_nan_text t then Inr DNaN
     else (case read_digits t 0 0 of (v, n, rest) \<Rightarrow> (case read_fraction rest of (w, m, tail) \<Rightarrow>
       if n + m = 0 then Inl InvalidOperation
       else (case read_exp tail of None \<Rightarrow> Inl InvalidOperation
         | Some x \<Rightarrow> let c = v * 10 ^ m + w in Inr (Dec (if neg then - c else c) (x - int m))))))"

text \<open>Rounding of a result to the digits of the context.\<close>

definition dec_fix :: "int \<Rightarrow> int \<Rightarrow> decimal" where
  "dec_fix c e = (let d = length (dec_digits \<bar>c\<bar>) in
     if d \<le> dec_prec then Dec c e
     else (let k = d - dec_prec; r = round_even (of_int c / 10 ^ k) in
       if \<bar>r\<bar> = 10 ^ dec_prec then Dec (r div 10) (e + int k + 1) else Dec r (e + int k)))"

fun dec_add :: "decimal \<Rightarrow> decimal \<Rightarrow> decimal res" where
  "dec_add (Dec a e) (Dec b f) = (let m = min e f in Inr (dec_fix (a * 10 ^ nat (e - m) + b * 10 ^ nat (f - m)) m))"
| "dec_add DNaN _ = Inr DNaN"
| "dec_add _ DNaN = Inr DNaN"
| "dec_add DPInf DNInf = Inl InvalidOperation"
| "dec_add DNInf DPInf = Inl InvalidOperation"
| "dec_add DPInf _ = Inr DPInf"
| "dec_add DNInf _ = Inr DNInf"
| "dec_add _ DPInf = Inr DPInf"
| "dec_add _ DNInf = Inr DNInf"

text \<open>\<open>sum\<close> from the integer 0.\<close>

fun dec_sum_from :: "decimal \<Rightarrow> decimal list \<Rightarrow> decimal res" where
  "dec_sum_from acc [] = Inr acc"
| "dec_sum_from acc (x # xs) = (case dec_add acc x of Inl e \<Rightarrow> Inl e | Inr a \<Rightarrow> dec_sum_from a xs)"

definition dec_sum :: "decimal list \<Rightarrow> decimal res" where
  "dec_sum xs = dec_sum_from (Dec 0 0) xs"

text \<open>Order comparisons raise on NaN.\<close>

fun dec_ge :: "decimal \<Rightarrow> int \<Rightarrow> bool res" where
  "dec_ge DNaN _ = Inl InvalidOperation"
| "dec_ge d n = Inr (fle (Fin (of_int n)) (dec_val d))"

fun dec_gt :: "decimal \<Rightarrow> int \<Rightarrow> bool res" where
  "dec_gt DNaN _ = Inl InvalidOperation"
| "dec_gt d n = Inr (flt (Fin (of_int n)) (dec_val d))"

text \<open>\<open>d % n == 0\<close>: an infinite dividend or a quotient of more than 28 digits raises.\<close>

fun dec_divisible :: "decimal \<Rightarrow> int \<Rightarrow> bool res" where
  "dec_divisible (Dec c e) n = (let r = (if e \<ge> 0 then of_int c * 10 ^ nat e else of_int c / 10 ^ nat (- e)) / of_int n :: rat in
     if \<bar>r\<bar> \<ge> 10 ^ dec_prec then Inl InvalidOperation else Inr (of_int \<lfloor>r\<rfloor> = r))"
| "dec_divisible DNaN _ = Inr False"
| "dec_divisible _ _ = Inl InvalidOperation"

definition signed_str :: "int \<Rightarrow> string" where
  "signed_str i = (if i < 0 then ''-'' else ''+'') @ dec_digits \<bar>i\<bar>"

fun dec_str :: "decimal \<Rightarrow> string" where
  "dec_str (Dec c e) = (let
       ds = dec_digits \<bar>c\<bar>; n = int (length ds); left = e + n;
       dot = (if e \<le> 0 \<and> left > - 6 then left else 1) in
     (if c < 0 then ''-'' else []) @
     (if dot \<le> 0 then ''0.'' @ replicate (nat (- dot)) CHR ''0'' @ ds
      else if dot \<ge> n then ds @ replicate (nat (dot - n)) CHR ''0''
      else take (nat dot) ds @ ''.'' @ drop (nat dot) ds) @
     (if left = dot then [] else ''E'' @ signed_str (left - dot)))"
| "dec_str DPInf = ''Infinity''"
| "dec_str DNInf = ''-Infinity''"
| "dec_str DNaN = ''NaN''"

text \<open>The format \<open>,.2f\<close>.\<close>

fun group_thousands :: "string \<Rightarrow> string" where
  "group_thousands (a # b # c # d # s) = a # b # c # CHR '','' # group_thousands (d # s)"
| "group_thousands s = s"

definition grouped :: "int \<Rightarrow> string" where
  "grouped n = rev (group_thousands (rev (dec_digits n)))"

fun dec_money :: "decimal \<Rightarrow> string" where
  "dec_money (Dec c e) = (let
       r = (if e \<ge> 0 then of_int c * 10 ^ nat e else of_int c / 10 ^ nat (- e)) :: rat;
       cents = \<bar>round_even (r * 100)\<bar> in
     (if c < 0 then ''-'' else []) @ grouped (cents div 100) @ ''.'' @ [digit_char (cents mod 100 div 10), digit_char (cents mod 10)])"
| "dec_money d = dec_str d"

section \<open>Exactness\<close>

definition dec_rat :: "int \<Rightarrow> int \<Rightarrow> rat" where
  "dec_rat c e = (if e \<ge> 0 then of_int c * 10 ^ nat e else of_int c / 10 ^ nat (- e))"

lemma dec_rat_scale: "m \<le> e \<Longrightarrow> dec_rat (c * 10 ^ nat (e - m)) m = dec_rat c e"
proof (cases "m \<ge> 0")
  case True
  assume "m \<le> e"
  then have "nat e = nat (e - m) + nat m" using True by simp
  then show ?thesis using True \<open>m \<le> e\<close> by (simp add: dec_rat_def power_add)
next
  case False
  assume "m \<le> e"
  show ?thesis
  proof (cases "e \<ge> 0")
    case True
    then have "nat (e - m) = nat e + nat (- m)" using False by simp
    then show ?thesis using False True by (simp add: dec_rat_def power_add)
  next
    case e: False
    then have "nat (- m) = nat (e - m) + nat (- e)" using False \<open>m \<le> e\<close> by simp
    then show ?thesis using False e by (simp add: dec_rat_def power_add)
  qed
qed

lemma dec_rat_add: "dec_rat (a + b) m = dec_rat a m + dec_rat b m"
  by (simp add: dec_rat_def algebra_simps add_divide_distrib)

text \<open>An addition whose exact result has at most 28 digits is exact.\<close>

lemma dec_add_exact:
  assumes "length (dec_digits \<bar>a * 10 ^ nat (e - min e f) + b * 10 ^ nat (f - min e f)\<bar>) \<le> dec_prec"
  shows "\<exists>c g. dec_add (Dec a e) (Dec b f) = Inr (Dec c g) \<and> dec_rat c g = dec_rat a e + dec_rat b f"
  using assms by (simp add: Let_def dec_fix_def dec_rat_add dec_rat_scale)

end
