(* ===== verification/Sar_Report.thy ===== *)
theory Sar_Report
  imports Py_Decimal Py_Datetime
begin

text \<open>
  \<open>case_api/sar.py\<close>: the generator of suspicious activity reports.  The case is the validated \<open>CaseOut\<close>; transactions, subject and
  institution are values of the request's body, of any shape.  The id of the report, the date of filing and today's date are
  arguments.  \<open>xml.etree\<close> is modelled as far as it is used: a tree of elements, indented and written as text.
\<close>

section \<open>Documents\<close>

datatype xml = El (xl_tag: string) (xl_attrs: "(string \<times> string) list") (xl_content: pyval) (xl_kids: "xml list")

definition leaf :: "string \<Rightarrow> pyval \<Rightarrow> xml" where "leaf t v = El t [] v []"

definition node :: "string \<Rightarrow> xml list \<Rightarrow> xml" where "node t ks = El t [] PNone ks"

definition escape_cdata :: "string \<Rightarrow> string" where
  "escape_cdata s = concat (map (\<lambda>c. if c = CHR ''&'' then ''&amp;'' else if c = CHR ''<'' then ''&lt;'' else if c = CHR ''>'' then ''&gt;'' else [c]) s)"

definition indentation :: "nat \<Rightarrow> string" where
  "indentation l = CHR 0x0A # replicate (2 * l) CHR '' ''"

text \<open>An element with children has no text of its own in these documents; a truthy text that is no string cannot be written.\<close>

fun xml_text :: "nat \<Rightarrow> xml \<Rightarrow> string res" where
  "xml_text l (El t as v ks) = (let start = ''<'' @ t @ concat (map (\<lambda>(k, w). '' '' @ k @ ''='' @ [CHR 0x22] @ w @ [CHR 0x22]) as) in
     if ks = [] then
       (if \<not> truthy v then Inr (start @ '' />'')
        else (case v of PStr s \<Rightarrow> Inr (start @ ''>'' @ escape_cdata s @ ''</'' @ t @ ''>'') | _ \<Rightarrow> Inl TypeError))
     else and_then (res_map (xml_text (Suc l)) ks) (\<lambda>ts.
       Inr (start @ ''>'' @ indentation (Suc l) @ join_str (indentation (Suc l)) ts @ indentation l @ ''</'' @ t @ ''>'')))"

definition xml_tostring :: "xml \<Rightarrow> string res" where
  "xml_tostring x = and_then (xml_text 0 x) (\<lambda>s.
     Inr (''<?xml version='' @ [CHR 0x27] @ ''1.0'' @ [CHR 0x27] @ '' encoding='' @ [CHR 0x27] @ ''utf-8'' @ [CHR 0x27] @ ''?>'' @ [CHR 0x0A] @ s))"

section \<open>Helpers\<close>

record sar_case =
  sc_id :: string
  sc_entity :: string
  sc_title :: string
  sc_status :: string
  sc_priority :: string
  sc_labels :: "string list"

definition fincen_activity_types :: "(string \<times> string) list" where
  "fincen_activity_types = [(''structuring'', ''29''), (''money_laundering'', ''19''), (''terrorist_financing'', ''33''), (''identity_theft'', ''14''),
     (''wire_fraud'', ''37''), (''check_fraud'', ''7''), (''credit_card_fraud'', ''10''), (''account_takeover'', ''1''), (''bribery'', ''5''),
     (''embezzlement'', ''11''), (''other'', ''24'')]"

definition nca_reason_codes :: "(string \<times> string) list" where
  "nca_reason_codes = [(''money_laundering'', ''ML''), (''terrorist_financing'', ''TF''), (''fraud'', ''FR''), (''tax_evasion'', ''TE''),
     (''sanctions'', ''SN''), (''other'', ''OT'')]"

definition default_institution :: dict where
  "default_institution = [(''name'', PStr ''Filing Institution''), (''ein'', PStr ''00-0000000''), (''registration_number'', PStr []),
     (''sector'', PStr ''banking''), (''contact_name'', PStr ''Compliance Officer''), (''contact_phone'', PStr []), (''contact_email'', PStr [])]"

text \<open>A method of a dict called on another value.\<close>

definition as_dict :: "pyval \<Rightarrow> dict res" where
  "as_dict v = (case v of PDict d \<Rightarrow> Inr d | _ \<Rightarrow> Inl AttributeError)"

definition extract_subject :: "pyval \<Rightarrow> dict res" where
  "extract_subject v = and_then (as_dict v) (\<lambda>d. Inr
     [(''entity_type'', dget_or d ''type'' (PStr ''individual'')), (''full_name'', dget_or d ''full_name'' (dget_or d ''name'' (PStr ''Unknown''))),
      (''date_of_birth'', dget d ''date_of_birth''), (''nationality'', dget d ''nationality''), (''address'', dget_or d ''address'' (PDict [])),
      (''id_documents'', dget_or d ''id_documents'' (PList [])), (''accounts'', dget_or d ''accounts'' (PList [])),
      (''email'', dget d ''email''), (''phone'', dget d ''phone'')])"

definition tx_dates :: "dict list \<Rightarrow> string list" where
  "tx_dates txs = map (\<lambda>v. take 10 (py_str v)) (filter truthy (map (\<lambda>tx. py_or (py_or (dget tx ''timestamp'') (dget tx ''date'')) (PStr [])) txs))"

definition transaction_date_range :: "string \<Rightarrow> dict list \<Rightarrow> string \<times> string" where
  "transaction_date_range today txs = (let ds = sort (tx_dates txs) in if ds = [] then (today, today) else (hd ds, last ds))"

text \<open>\<open>max(freq, key=freq.get)\<close>: the first of the most frequent ones, in the order of first occurrence.\<close>

fun first_max :: "(string \<times> nat) list \<Rightarrow> string \<times> nat \<Rightarrow> string" where
  "first_max [] best = fst best"
| "first_max (x # xs) best = first_max xs (if snd x > snd best then x else best)"

definition currency_freq :: "string list \<Rightarrow> (string \<times> nat) list" where
  "currency_freq cs = foldl (\<lambda>m c. AList.update c (Suc (case map_of m c of None \<Rightarrow> 0 | Some n \<Rightarrow> n)) m) [] cs"

definition as_str :: "pyval \<Rightarrow> string res" where
  "as_str v = (case v of PStr s \<Rightarrow> Inr s | _ \<Rightarrow> Inl TypeError)"

definition tx_currencies :: "dict list \<Rightarrow> string list res" where
  "tx_currencies txs = res_map (\<lambda>tx. as_str (dget_or tx ''currency'' (PStr ''USD''))) txs"

definition dominant_currency :: "string list \<Rightarrow> string" where
  "dominant_currency cs = (case currency_freq cs of [] \<Rightarrow> ''USD'' | x # xs \<Rightarrow> first_max xs x)"

definition should_request_consent :: "sar_case \<Rightarrow> bool" where
  "should_request_consent c = (''consent_required'' \<in> set (sc_labels c) \<or> sc_status c = ''pending_consent'')"

definition describe_labels :: "string list \<Rightarrow> string" where
  "describe_labels ls = (let rs = map (replace_char CHR ''_'' CHR '' '') ls in
     if rs = [] then ''unspecified suspicious activity'' else if length rs = 1 then hd rs
     else join_str '', '' (butlast rs) @ '' and '' @ last rs)"

definition tx_amounts :: "dict list \<Rightarrow> decimal list res" where
  "tx_amounts txs = res_map (\<lambda>tx. dec_of_str (py_str (dget_or tx ''amount'' (PInt 0)))) txs"

definition count_str :: "nat \<Rightarrow> string" where "count_str n = int_str (int n)"

text \<open>The conditions raise on the values Decimal cannot compare or divide.\<close>

fun count_res :: "('a \<Rightarrow> bool res) \<Rightarrow> 'a list \<Rightarrow> nat res" where
  "count_res p [] = Inr 0"
| "count_res p (x # xs) = and_then (p x) (\<lambda>b. and_then (count_res p xs) (\<lambda>n. Inr (if b then Suc n else n)))"

definition near_threshold :: "decimal \<Rightarrow> bool res" where
  "near_threshold a = and_then (dec_ge a 8000) (\<lambda>b. if \<not> b then Inr False else and_then (dec_ge a 10000) (\<lambda>c. Inr (\<not> c)))"

definition round_amount :: "decimal \<Rightarrow> bool res" where
  "round_amount a = and_then (dec_gt a 0) (\<lambda>b. if \<not> b then Inr False else dec_divisible a 1000)"

definition tenths_str :: "rat \<Rightarrow> string" where
  "tenths_str r = (let n = round_even (r * 10) in int_str (n div 10) @ ''.'' @ [digit_char n])"

text \<open>Subtraction of an aware and a naive datetime raises.\<close>

definition datetime_diff :: "datetime \<Rightarrow> datetime \<Rightarrow> int res" where
  "datetime_diff a b = (case (a, b) of
       ((x, None), (y, None)) \<Rightarrow> Inr (x - y)
     | ((x, Some o1), (y, Some o2)) \<Rightarrow> Inr ((x - o1) - (y - o2))
     | _ \<Rightarrow> Inl TypeError)"

definition velocity_pattern :: "dict list \<Rightarrow> string list" where
  "velocity_pattern txs = (let
       ds = filter truthy (sort_key py_str (map (\<lambda>tx. py_or (dget tx ''timestamp'') (dget_or tx ''date'' (PStr []))) txs)) in
     if length txs < 5 \<or> length ds < 2 then []
     else (case and_then (fromisoformat (take 19 (py_str (hd ds)))) (\<lambda>a. and_then (fromisoformat (take 19 (py_str (last ds)))) (\<lambda>b. datetime_diff b a)) of
         Inl _ \<Rightarrow> []
       | Inr us \<Rightarrow> (let span_days = max (us div day_us) 1; per_day = of_nat (length txs) / of_int span_days in
           if per_day > 5 then [''High transaction velocity of '' @ tenths_str per_day @ '' transactions per day over '' @ int_str span_days @ '' days.''] else [])))"

definition count_direction :: "string list \<Rightarrow> dict list \<Rightarrow> nat" where
  "count_direction ds txs = length (filter (\<lambda>tx. dget tx ''direction'' \<in> PStr ` set ds) txs)"

definition detect_patterns :: "dict list \<Rightarrow> string list res" where
  "detect_patterns txs = (if txs = [] then Inr [] else and_then (tx_amounts txs) (\<lambda>amounts. and_then (count_res near_threshold amounts) (\<lambda>near.
     and_then (count_res round_amount amounts) (\<lambda>rounds. (let
       inbound = count_direction [''credit'', ''inbound'', ''in''] txs; outbound = count_direction [''debit'', ''outbound'', ''out''] txs in Inr (
       (if near \<ge> 3 then [count_str near @ '' transactions were structured just below the 10,000 reporting threshold, suggesting deliberate '' @
          ''structuring to avoid currency transaction reports.''] else []) @
       velocity_pattern txs @
       (if rounds \<ge> 3 then [count_str rounds @ '' transactions used round amounts (multiples of 1,000), which may indicate layering activity.''] else []) @
       (if inbound > 0 \<and> outbound > 0 \<and> length txs \<ge> 4 then [''Funds were received ('' @ count_str inbound @ '' inbound) and quickly moved ('' @
          count_str outbound @ '' outbound), consistent with pass-through activity.''] else [])))))))"

definition narrative_risk_notes :: "string list \<Rightarrow> string" where
  "narrative_risk_notes ls = (let notes = List.map_filter (\<lambda>(l, t). if l \<in> set ls then Some t else None)
       [(''structuring'', ''Transactions appear to be structured to avoid regulatory reporting thresholds.''),
        (''money_laundering'', ''Activity is consistent with money laundering typologies, including layering through multiple accounts.''),
        (''terrorist_financing'', ''Activity patterns raise concerns about potential terrorist financing, including transfers to high-risk jurisdictions.''),
        (''identity_theft'', ''Identity verification discrepancies suggest possible use of stolen or synthetic identities.''),
        (''account_takeover'', ''Behavioral anomalies and device signal changes indicate a possible account takeover event.'')] in
     if notes = [] then [] else ''Risk assessment notes: '' @ join_str '' '' notes)"

fun add_indicators :: "pyval list \<Rightarrow> pyval list \<Rightarrow> pyval list" where
  "add_indicators [] acc = acc"
| "add_indicators (v # vs) acc = add_indicators vs (if list_ex (py_eq v) acc then acc else acc @ [v])"

fun tx_indicators :: "dict list \<Rightarrow> pyval list \<Rightarrow> pyval list res" where
  "tx_indicators [] acc = Inr acc"
| "tx_indicators (tx # txs) acc = and_then (py_iter (dget_or tx ''risk_indicators'' (PList []))) (\<lambda>vs. tx_indicators txs (add_indicators vs acc))"

definition aggregate_risk_indicators :: "sar_case \<Rightarrow> dict list \<Rightarrow> pyval list res" where
  "aggregate_risk_indicators c txs = tx_indicators txs (map (\<lambda>l. PStr (''case_label:'' @ l)) (sc_labels c) @
     (if sc_priority c \<in> {''critical'', ''high''} then [PStr ''high_priority_case''] else []))"

section \<open>Narrative\<close>

text \<open>Counterparties that are truthy; one that is no string cannot be sorted with the others or joined.\<close>

definition tx_counterparties :: "dict list \<Rightarrow> string list res" where
  "tx_counterparties txs = res_map as_str (filter truthy (map (\<lambda>tx. dget_or tx ''counterparty'' (PStr [])) txs))"

definition generate_narrative :: "string \<Rightarrow> sar_case \<Rightarrow> dict list \<Rightarrow> string res" where
  "generate_narrative today c txs = and_then (tx_amounts txs) (\<lambda>amounts. and_then (dec_sum amounts) (\<lambda>total_amount.
     and_then (tx_currencies txs) (\<lambda>cs. and_then (tx_counterparties txs) (\<lambda>cps. and_then (detect_patterns txs) (\<lambda>patterns. (let
       range = transaction_date_range today txs;
       currency = (if cs = [] then ''USD'' else join_str ''/'' (sort (remdups cs)));
       risk = narrative_risk_notes (sc_labels c) in
     Inr (join_str [CHR 0x0A, CHR 0x0A] (
       [''This report concerns suspicious activity involving the subject identified as '' @ [CHR 0x22] @ sc_entity c @ [CHR 0x22] @
          '' (internal case reference: '' @ sc_id c @ ''). The activity was flagged as '' @ sc_priority c @ ''-priority.'',
        ''The suspicious activity involves '' @ describe_labels (sc_labels c) @ ''. A total of '' @ count_str (length txs) @
          '' transaction(s) were identified with a cumulative value of '' @ currency @ '' '' @ dec_money total_amount @ ''.'',
        ''The suspicious transactions occurred between '' @ fst range @ '' and '' @ snd range @ ''.''] @
       (if cps \<noteq> [] then [''Transactions involved the following counterparties: '' @ join_str '', '' (take 10 (sort (remdups cps))) @ ''.''] else []) @
       (if patterns \<noteq> [] then [''The following patterns were observed: '' @ join_str '' '' patterns] else []) @
       (if risk \<noteq> [] then [risk] else []) @
       [''Based on the transaction patterns, risk indicators, and case investigation findings, the institution believes this activity '' @
          ''is suspicious and warrants regulatory reporting as described in the case titled '' @ [CHR 0x22] @ sc_title c @ [CHR 0x22] @ ''.'']))))))))"

section \<open>FinCEN XML\<close>

definition classification :: "string \<Rightarrow> xml" where
  "classification code = node ''SuspiciousActivityClassification'' [leaf ''SuspiciousActivityTypeID'' (PStr code)]"

definition fincen_codes :: "string list \<Rightarrow> string list" where
  "fincen_codes ls = (let cs = List.map_filter (map_of fincen_activity_types) ls in if cs = [] then [''24''] else cs)"

definition id_element :: "pyval \<Rightarrow> xml res" where
  "id_element v = and_then (as_dict v) (\<lambda>d. Inr (node ''PartyIdentification''
     [leaf ''PartyIdentificationTypeCode'' (dget_or d ''type'' (PStr ''OT'')), leaf ''PartyIdentificationNumberText'' (dget_or d ''number'' (PStr []))]))"

definition account_element :: "pyval \<Rightarrow> xml res" where
  "account_element v = and_then (as_dict v) (\<lambda>d. Inr (node ''Account''
     [leaf ''AccountNumberText'' (dget_or d ''account_number'' (PStr [])), leaf ''AccountTypeCode'' (dget_or d ''type'' (PStr ''OT''))]))"

definition address_elements :: "pyval \<Rightarrow> xml list res" where
  "address_elements v = (if \<not> truthy v then Inr [] else and_then (as_dict v) (\<lambda>d. Inr [node ''Address''
     [leaf ''RawStreetAddress1Text'' (dget_or d ''street'' (PStr [])), leaf ''RawCityText'' (dget_or d ''city'' (PStr [])),
      leaf ''RawStateCodeText'' (dget_or d ''state'' (PStr [])), leaf ''RawZIPCode'' (dget_or d ''zip'' (PStr [])),
      leaf ''RawCountryCodeText'' (dget_or d ''country'' (PStr ''US''))]]))"

definition subject_element :: "dict \<Rightarrow> xml res" where
  "subject_element s = and_then (and_then (py_iter (dget s ''id_documents'')) (res_map id_element)) (\<lambda>ids.
     and_then (address_elements (dget s ''address'')) (\<lambda>addr. and_then (and_then (py_iter (dget s ''accounts'')) (res_map account_element)) (\<lambda>accts.
     Inr (node ''Subject'' [node ''SubjectParty'' ([node ''PartyName'' [leaf ''RawPartyFullName'' (dget s ''full_name'')]] @
       (if truthy (dget s ''date_of_birth'') then [leaf ''BirthDateText'' (dget s ''date_of_birth'')] else []) @ ids @ addr @ accts)]))))"

definition institution_element :: "dict \<Rightarrow> xml" where
  "institution_element i = node ''FilingInstitution''
     [node ''FilingParty'' [node ''PartyName'' [leaf ''RawPartyFullName'' (dget_or i ''name'' (PStr []))],
        node ''PartyIdentification'' [leaf ''PartyIdentificationTypeCode'' (PStr ''EIN''), leaf ''PartyIdentificationNumberText'' (dget_or i ''ein'' (PStr []))]],
      node ''FilingContact'' [leaf ''ContactNameText'' (dget_or i ''contact_name'' (PStr [])), leaf ''ContactPhoneNumberText'' (dget_or i ''contact_phone'' (PStr []))]]"

definition fincen_document ::
  "string \<Rightarrow> string \<Rightarrow> string \<Rightarrow> dict \<Rightarrow> dict \<Rightarrow> string \<Rightarrow> sar_case \<Rightarrow> dict list \<Rightarrow> xml res" where
  "fincen_document rid filing_date today subject inst narrative c txs = and_then (tx_amounts txs) (\<lambda>amounts. and_then (dec_sum amounts) (\<lambda>total_amount.
     and_then (tx_currencies txs) (\<lambda>cs. and_then (subject_element subject) (\<lambda>subj. Inr
     (El ''EFilingBatchXML'' [(''xmlns'', ''https://www.fincen.gov/bsa'')] PNone [node ''Activity'' (
       [leaf ''EFilingPriorDocumentNumber'' (PStr rid),
        node ''ActivityAssociation'' [leaf ''InitialDesignation'' (PStr ''Initial''), leaf ''FilingDateText'' (PStr filing_date)],
        node ''ActivityDateRange'' [leaf ''StartDateText'' (PStr (fst (transaction_date_range today txs))), leaf ''EndDateText'' (PStr (snd (transaction_date_range today txs)))]] @
       map classification (fincen_codes (sc_labels c)) @
       [node ''CumulativeAmount'' [leaf ''CumulativeAmountValue'' (PStr (dec_str total_amount)), leaf ''CumulativeCurrencyCodeText'' (PStr (dominant_currency cs))],
        subj, institution_element inst,
        node ''SuspiciousActivityNarrative'' [leaf ''NarrativeText'' (PStr narrative)]])])))))"

definition build_fincen_sar ::
  "string \<Rightarrow> string \<Rightarrow> string \<Rightarrow> dict \<Rightarrow> dict \<Rightarrow> string \<Rightarrow> sar_case \<Rightarrow> dict list \<Rightarrow> string res" where
  "build_fincen_sar rid filing_date today subject inst narrative c txs = and_then (fincen_document rid filing_date today subject inst narrative c txs) xml_tostring"

section \<open>JSON reports\<close>

definition nca_transaction :: "dict \<Rightarrow> pyval res" where
  "nca_transaction tx = and_then (py_float (dget_or tx ''amount'' (PInt 0))) (\<lambda>a. Inr (PDict
     [(''date'', dget_or tx ''timestamp'' (dget_or tx ''date'' (PStr []))), (''amount'', PFloat a), (''currency'', dget_or tx ''currency'' (PStr ''GBP'')),
      (''direction'', dget_or tx ''direction'' (PStr ''unknown'')), (''counterparty'', dget_or tx ''counterparty'' (PStr [])),
      (''reference'', dget_or tx ''reference'' (PStr []))]))"

definition nca_codes :: "string list \<Rightarrow> string list" where
  "nca_codes ls = (let cs = List.map_filter (map_of nca_reason_codes) ls in if cs = [] then [''OT''] else cs)"

definition build_nca_sar ::
  "string \<Rightarrow> string \<Rightarrow> string \<Rightarrow> dict \<Rightarrow> dict \<Rightarrow> string \<Rightarrow> sar_case \<Rightarrow> dict list \<Rightarrow> dict res" where
  "build_nca_sar rid filing_date today subject inst narrative c txs = and_then (tx_amounts txs) (\<lambda>amounts. and_then (dec_sum amounts) (\<lambda>total_amount.
     and_then (tx_currencies txs) (\<lambda>cs. and_then (res_map nca_transaction txs) (\<lambda>items. Inr
     [(''header'', PDict [(''report_id'', PStr rid), (''report_type'', PStr ''SAR''), (''submission_date'', PStr filing_date),
        (''reporter'', PDict [(''institution_name'', dget_or inst ''name'' (PStr [])), (''registration_number'', dget_or inst ''registration_number'' (PStr [])),
          (''regulated_sector'', dget_or inst ''sector'' (PStr ''banking'')),
          (''contact'', PDict [(''name'', dget_or inst ''contact_name'' (PStr [])), (''phone'', dget_or inst ''contact_phone'' (PStr [])),
            (''email'', dget_or inst ''contact_email'' (PStr []))])])]),
      (''subject'', PDict [(''type'', dget subject ''entity_type''), (''full_name'', dget subject ''full_name''), (''date_of_birth'', dget subject ''date_of_birth''),
        (''nationality'', dget subject ''nationality''), (''address'', dget subject ''address''), (''identifiers'', dget subject ''id_documents''),
        (''accounts'', dget subject ''accounts'')]),
      (''suspicious_activity'', PDict [(''reason_codes'', PList (map PStr (nca_codes (sc_labels c)))),
        (''activity_period'', PDict [(''start_date'', PStr (fst (transaction_date_range today txs))), (''end_date'', PStr (snd (transaction_date_range today txs)))]),
        (''total_value'', PDict [(''amount'', PFloat (dec_val total_amount)), (''currency'', PStr (dominant_currency cs))]),
        (''transaction_count'', PInt (int (length txs))), (''transactions'', PList items)]),
      (''narrative'', PStr narrative), (''consent_requested'', PBool (should_request_consent c)), (''defence_sar'', PBool (should_request_consent c))]))))"

definition generic_transaction :: "dict \<Rightarrow> pyval res" where
  "generic_transaction tx = and_then (py_float (dget_or tx ''amount'' (PInt 0))) (\<lambda>a. Inr (PDict
     [(''id'', dget_or tx ''id'' (PStr [])), (''timestamp'', dget_or tx ''timestamp'' (dget_or tx ''date'' (PStr []))), (''amount'', PFloat a),
      (''currency'', dget_or tx ''currency'' (PStr ''USD'')), (''direction'', dget_or tx ''direction'' (PStr ''unknown'')),
      (''counterparty'', dget_or tx ''counterparty'' (PStr [])), (''channel'', dget_or tx ''channel'' (PStr [])),
      (''risk_indicators'', dget_or tx ''risk_indicators'' (PList []))]))"

definition build_generic ::
  "string \<Rightarrow> string \<Rightarrow> string \<Rightarrow> dict \<Rightarrow> pyval \<Rightarrow> string \<Rightarrow> sar_case \<Rightarrow> dict list \<Rightarrow> dict res" where
  "build_generic rid filing_date today subject inst narrative c txs = and_then (tx_amounts txs) (\<lambda>amounts. and_then (dec_sum amounts) (\<lambda>total_amount.
     and_then (tx_currencies txs) (\<lambda>cs. and_then (res_map generic_transaction txs) (\<lambda>items. and_then (aggregate_risk_indicators c txs) (\<lambda>risks. Inr
     [(''report_id'', PStr rid), (''format'', PStr ''generic_json''), (''filing_date'', PStr filing_date), (''status'', PStr ''draft''),
      (''case_reference'', PDict [(''case_id'', PStr (sc_id c)), (''case_title'', PStr (sc_title c)), (''priority'', PStr (sc_priority c)),
        (''labels'', PList (map PStr (sc_labels c)))]),
      (''filing_institution'', inst), (''subject'', PDict subject),
      (''activity_summary'', PDict [(''period_start'', PStr (fst (transaction_date_range today txs))), (''period_end'', PStr (snd (transaction_date_range today txs))),
        (''total_amount'', PFloat (dec_val total_amount)), (''currency'', PStr (dominant_currency cs)), (''transaction_count'', PInt (int (length txs)))]),
      (''transactions'', PList items), (''narrative'', PStr narrative), (''risk_indicators'', PList risks)])))))"

section \<open>The generator\<close>

record sar_report =
  rp_id :: string
  rp_format :: string
  rp_date :: string
  rp_subject :: dict
  rp_institution :: pyval
  rp_narrative :: string
  rp_transactions :: "dict list"
  rp_xml :: "string option"
  rp_json :: "dict option"

definition generate_sar ::
  "string \<Rightarrow> string \<Rightarrow> string \<Rightarrow> sar_case \<Rightarrow> pyval \<Rightarrow> pyval \<Rightarrow> pyval \<Rightarrow> pyval \<Rightarrow> sar_report res" where
  "generate_sar rid filing_date today c transactions entity format filing_institution =
     (let inst = py_or filing_institution (PDict default_institution) in
     and_then (extract_subject entity) (\<lambda>subject. and_then (and_then (py_iter transactions) (res_map as_dict)) (\<lambda>txs.
     and_then (generate_narrative today c txs) (\<lambda>narrative. (let
       report = (\<lambda>f x j. \<lparr>rp_id = rid, rp_format = f, rp_date = filing_date, rp_subject = subject, rp_institution = inst, rp_narrative = narrative,
         rp_transactions = txs, rp_xml = x, rp_json = j\<rparr>) in
       if format = PStr ''fincen_xml'' then and_then (as_dict inst) (\<lambda>i.
         and_then (build_fincen_sar rid filing_date today subject i narrative c txs) (\<lambda>x. Inr (report ''fincen_xml'' (Some x) None)))
       else if format = PStr ''nca_json'' then and_then (as_dict inst) (\<lambda>i.
         and_then (build_nca_sar rid filing_date today subject i narrative c txs) (\<lambda>j. Inr (report ''nca_json'' None (Some j))))
       else if format = PStr ''generic_json'' then
         and_then (build_generic rid filing_date today subject inst narrative c txs) (\<lambda>j. Inr (report ''generic_json'' None (Some j)))
       else Inl ValueError)))))"

section \<open>Properties of a report\<close>

lemma and_thenE:
  assumes "and_then r f = Inr y"
  obtains x where "r = Inr x" "f x = Inr y"
  using assms by (auto simp: and_then_Inr)

text \<open>A narrative is never blank.\<close>

lemma narrative_nonblank:
  assumes "generate_narrative today c txs = Inr n"
  shows "strip n \<noteq> []"
proof -
  have "CHR ''T'' \<in> set n" using assms unfolding generate_narrative_def Let_def by (auto elim!: and_thenE)
  then show ?thesis by (rule strip_nonempty) (simp add: is_space_def)
qed

text \<open>The period of a report covers the date of every dated transaction and its ends are such dates.\<close>

lemma date_range_covers:
  assumes "d \<in> set (tx_dates txs)"
  shows "fst (transaction_date_range today txs) \<le> d \<and> d \<le> snd (transaction_date_range today txs)"
proof -
  define ds where "ds = sort (tx_dates txs)"
  have d: "d \<in> set ds" and srt: "sorted ds" using assms by (simp_all add: ds_def)
  then have ne: "ds \<noteq> []" by auto
  have r: "transaction_date_range today txs = (hd ds, last ds)" using ne by (simp add: transaction_date_range_def Let_def ds_def [symmetric])
  obtain i where i: "i < length ds" "d = ds ! i" using d by (auto simp: in_set_conv_nth)
  have "ds ! 0 \<le> ds ! i" "ds ! i \<le> ds ! (length ds - 1)" using srt i by (auto intro: sorted_nth_mono)
  then show ?thesis using r ne i by (simp add: hd_conv_nth last_conv_nth)
qed

text \<open>The frequencies are the counts, and the currency of a report is one of the most frequent.\<close>

lemma currency_freq_snoc: "currency_freq (cs @ [c]) = AList.update c (Suc (case map_of (currency_freq cs) c of None \<Rightarrow> 0 | Some n \<Rightarrow> n)) (currency_freq cs)"
  by (simp add: currency_freq_def)

lemma currency_freq_counts: "map_of (currency_freq cs) c = (if c \<in> set cs then Some (count_list cs c) else None)"
proof (induction cs rule: rev_induct)
  case Nil
  then show ?case by (simp add: currency_freq_def)
next
  case (snoc x cs)
  then show ?case by (cases "x = c"; cases "c \<in> set cs") (simp_all add: currency_freq_snoc update_conv' count_notin)
qed

lemma currency_freq_distinct: "distinct (map fst (currency_freq cs))"
  by (induction cs rule: rev_induct) (simp_all add: currency_freq_def distinct_update)

lemma first_max_in: "\<exists>n. (first_max xs b, n) \<in> set (b # xs) \<and> (\<forall>y \<in> set (b # xs). snd y \<le> n)"
proof (induction xs arbitrary: b)
  case Nil
  then show ?case by (cases b) simp
next
  case (Cons x xs)
  show ?case
  proof (cases "snd x > snd b")
    case True
    then show ?thesis using Cons.IH [of x] by (auto intro: le_trans less_imp_le)
  next
    case False
    then show ?thesis using Cons.IH [of b] by (auto intro: le_trans)
  qed
qed

lemma dominant_currency_is_mode:
  assumes "cs \<noteq> []"
  shows "dominant_currency cs \<in> set cs \<and> (\<forall>c. count_list cs c \<le> count_list cs (dominant_currency cs))"
proof -
  have "map_of (currency_freq cs) (hd cs) \<noteq> None" using assms by (simp add: currency_freq_counts)
  then obtain x xs where f: "currency_freq cs = x # xs" by (cases "currency_freq cs") auto
  obtain n where n: "(dominant_currency cs, n) \<in> set (currency_freq cs)" and mx: "\<forall>y \<in> set (currency_freq cs). snd y \<le> n"
    using first_max_in [of xs x] by (auto simp: dominant_currency_def f)
  have "map_of (currency_freq cs) (dominant_currency cs) = Some n" using n currency_freq_distinct by simp
  then have dc: "dominant_currency cs \<in> set cs" and cnt: "count_list cs (dominant_currency cs) = n"
    by (simp_all add: currency_freq_counts split: if_splits)
  have "count_list cs c \<le> n" for c
  proof (cases "c \<in> set cs")
    case True
    then have "(c, count_list cs c) \<in> set (currency_freq cs)" by (metis currency_freq_counts map_of_SomeD)
    then show ?thesis using mx by force
  qed (simp add: count_notin)
  then show ?thesis using dc cnt by simp
qed

lemma xml_text_start: "xml_text l x = Inr s \<Longrightarrow> \<exists>t. s = CHR ''<'' # t"
  by (cases x) (auto simp: Let_def elim!: and_thenE split: if_splits pyval.splits)

lemma xml_tostring_start: "xml_tostring x = Inr s \<Longrightarrow> \<exists>t. s = CHR ''<'' # t"
  by (auto simp: xml_tostring_def elim!: and_thenE)

text \<open>What a successful generation was given and gives back.\<close>

lemma generate_sar_fields:
  assumes "generate_sar rid filing_date today c transactions entity format inst = Inr r"
  shows "rp_id r = rid \<and> PStr (rp_format r) = format \<and> rp_institution r = py_or inst (PDict default_institution) \<and> strip (rp_narrative r) \<noteq> [] \<and>
    (\<exists>subject. extract_subject entity = Inr subject) \<and> (rp_format r = ''fincen_xml'' \<longleftrightarrow> rp_xml r \<noteq> None)"
  using assms unfolding generate_sar_def Let_def
  by (auto elim!: and_thenE split: if_splits dest!: narrative_nonblank)

lemma generate_fincen_document:
  assumes "generate_sar rid filing_date today c transactions entity (PStr ''fincen_xml'') inst = Inr r"
  shows "\<exists>i doc x. py_or inst (PDict default_institution) = PDict i \<and> rp_xml r = Some x \<and> xml_tostring doc = Inr x \<and>
    (\<exists>activity. xl_tag doc = ''EFilingBatchXML'' \<and> xl_kids doc = [activity] \<and> institution_element i \<in> set (xl_kids activity))"
proof -
  obtain i subject txs narrative x where i: "as_dict (py_or inst (PDict default_institution)) = Inr i" and r: "rp_xml r = Some x"
      and x: "build_fincen_sar rid filing_date today subject i narrative c txs = Inr x"
    using assms unfolding generate_sar_def Let_def by (auto elim!: and_thenE)
  then obtain doc where doc: "fincen_document rid filing_date today subject i narrative c txs = Inr doc" "xml_tostring doc = Inr x"
    by (auto simp: build_fincen_sar_def elim!: and_thenE)
  have "\<exists>activity. xl_tag doc = ''EFilingBatchXML'' \<and> xl_kids doc = [activity] \<and> institution_element i \<in> set (xl_kids activity)"
    using doc(1) unfolding fincen_document_def node_def by (auto elim!: and_thenE)
  moreover have "py_or inst (PDict default_institution) = PDict i" using i by (auto simp: as_dict_def split: pyval.splits)
  ultimately show ?thesis using r doc(2) by blast
qed

text \<open>A document is written when every text in it is a string or falsy.\<close>

fun writable :: "xml \<Rightarrow> bool" where
  "writable (El t as v ks) = ((ks = [] \<longrightarrow> \<not> truthy v \<or> str_of v \<noteq> None) \<and> (\<forall>k \<in> set ks. writable k))"

lemma writable_written: "writable x \<Longrightarrow> \<exists>s. xml_text l x = Inr s"
proof (induction x arbitrary: l)
  case (El t as v ks)
  show ?case
  proof (cases "ks = []")
    case True
    then show ?thesis using El.prems by (cases v) (auto simp: Let_def)
  next
    case False
    have "\<forall>k \<in> set ks. \<exists>s. xml_text (Suc l) k = Inr s" using El by auto
    then obtain ts where "res_map (xml_text (Suc l)) ks = Inr ts" using res_map_returns by blast
    then show ?thesis using False by (simp add: Let_def)
  qed
qed

lemma writable_leaf [simp]: "writable (leaf k (PStr s))"
  by (simp add: leaf_def)

lemma writable_node [simp]: "writable (node k ks) = (\<forall>x \<in> set ks. writable x)"
  by (auto simp: node_def)

text \<open>A request that names the subject and lists no transactions always gets its FinCEN report.\<close>

lemma fincen_report_exists:
  assumes "\<forall>k \<in> {''name'', ''ein'', ''contact_name'', ''contact_phone''}. \<exists>s. dget_or i k (PStr []) = PStr s" and ne: "i \<noteq> []"
  shows "\<exists>r. generate_sar rid filing_date today c (PList []) (PDict [(''name'', PStr n)]) (PStr ''fincen_xml'') (PDict i) = Inr r"
proof -
  obtain a b d e where i: "dget_or i ''name'' (PStr []) = PStr a" "dget_or i ''ein'' (PStr []) = PStr b" "dget_or i ''contact_name'' (PStr []) = PStr d"
      "dget_or i ''contact_phone'' (PStr []) = PStr e" using assms(1) by auto
  have narr: "\<exists>s. generate_narrative today c [] = Inr s"
    unfolding generate_narrative_def Let_def by (simp add: tx_amounts_def dec_sum_def tx_currencies_def tx_counterparties_def detect_patterns_def)
  define subject where "subject = [(''entity_type'', PStr ''individual''), (''full_name'', PStr n), (''date_of_birth'', PNone), (''nationality'', PNone),
      (''address'', PDict []), (''id_documents'', PList []), (''accounts'', PList []), (''email'', PNone), (''phone'', PNone)]"
  have ext: "extract_subject (PDict [(''name'', PStr n)]) = Inr subject"
    by (simp add: extract_subject_def as_dict_def dget_or_def dget_def subject_def)
  have subj: "subject_element subject = Inr (node ''Subject'' [node ''SubjectParty'' [node ''PartyName'' [leaf ''RawPartyFullName'' (PStr n)]]])"
    by (simp add: subject_element_def dget_def address_elements_def subject_def)
  obtain s where s: "generate_narrative today c [] = Inr s" using narr by blast
  obtain doc where doc: "fincen_document rid filing_date today subject i s c [] = Inr doc" "writable doc"
    by (simp add: fincen_document_def subj tx_amounts_def dec_sum_def tx_currencies_def institution_element_def classification_def i)
  obtain x where "build_fincen_sar rid filing_date today subject i s c [] = Inr x"
    using doc writable_written [of doc 0] by (auto simp: build_fincen_sar_def xml_tostring_def)
  then show ?thesis using ne by (simp add: generate_sar_def Let_def ext as_dict_def py_or_def s)
qed



end
