(* ===== verification/Audit_Trail.thy ===== *)
theory Audit_Trail
  imports Py_Json
begin

text \<open>
  \<open>shared/audit_trail.py\<close>: rows about changed resources, their history and the difference of two states.  The order of
  \<open>diff\<close>'s result is that of a Python set and is not relied on.
\<close>

record trail_row =
  tr_tenant :: string
  tr_actor :: string
  tr_action :: string
  tr_type :: string
  tr_resource :: string
  tr_changes :: dict
  tr_created :: int

definition trail_record :: "int \<Rightarrow> string \<Rightarrow> string \<Rightarrow> string \<Rightarrow> string \<Rightarrow> dict \<Rightarrow> string \<Rightarrow> trail_row list \<Rightarrow> trail_row list" where
  "trail_record now actor action rtype rid changes tenant rows = rows @ [\<lparr>tr_tenant = tenant, tr_actor = actor, tr_action = action, tr_type = rtype,
     tr_resource = rid, tr_changes = changes, tr_created = now\<rparr>]"

definition get_history :: "string \<Rightarrow> string \<Rightarrow> nat \<Rightarrow> trail_row list \<Rightarrow> trail_row list" where
  "get_history rtype rid limit rows = take limit (sort_key (\<lambda>r. - tr_created r) (filter (\<lambda>r. tr_type r = rtype \<and> tr_resource r = rid) rows))"

definition trail_diff :: "dict \<Rightarrow> dict \<Rightarrow> dict" where
  "trail_diff old new = List.map_filter (\<lambda>k. if py_eq (dget old k) (dget new k) then None
     else Some (k, PDict [(''old'', dget old k), (''new'', dget new k)])) (remdups (map fst old @ map fst new))"

section \<open>What a difference records\<close>

definition field_change :: "dict \<Rightarrow> dict \<Rightarrow> string \<Rightarrow> pyval option" where
  "field_change old new k = (if py_eq (dget old k) (dget new k) then None else Some (PDict [(''old'', dget old k), (''new'', dget new k)]))"

lemma map_of_map_filter_key:
  "distinct ks \<Longrightarrow> map_of (List.map_filter (\<lambda>k. map_option (Pair k) (f k)) ks) k = (if k \<in> set ks then f k else None)"
proof (induction ks)
  case Nil
  then show ?case by (simp add: List.map_filter_def)
next
  case (Cons a ks)
  then have "a \<notin> set ks" and ih: "map_of (List.map_filter (\<lambda>k. map_option (Pair k) (f k)) ks) k = (if k \<in> set ks then f k else None)" by auto
  then show ?case by (cases "f a") (auto simp: List.map_filter_def)
qed

lemma dget_missing: "k \<notin> fst ` set d \<Longrightarrow> dget d k = PNone"
  by (simp add: dget_def dget_or_def map_of_eq_None_iff [THEN iffD2])

lemma trail_diff_lookup: "map_of (trail_diff old new) k = field_change old new k"
proof -
  have eq: "trail_diff old new = List.map_filter (\<lambda>k. map_option (Pair k) (field_change old new k)) (remdups (map fst old @ map fst new))"
    unfolding trail_diff_def field_change_def by (rule arg_cong [of _ _ "\<lambda>f. List.map_filter f _"]) auto
  show ?thesis
  proof (cases "k \<in> fst ` set old \<union> fst ` set new")
    case False
    then have "dget old k = PNone" "dget new k = PNone" by (simp_all add: dget_missing)
    then show ?thesis unfolding eq using False by (auto simp: map_of_map_filter_key field_change_def)
  qed (auto simp: eq map_of_map_filter_key)
qed

end
