(* ===== verification/Sar_Transport.thy ===== *)
theory Sar_Transport
  imports Sar_Report Audit_Trail Desk_Provision Sha256
begin

text \<open>
  Filing of suspicious activity reports: \<open>case_api/sar_transport.py\<close> (status machine and audit log),
  \<open>sar_filing_transport.py\<close> (validation and package), \<open>sar_intent_notes.py\<close>, \<open>sar_transport_worker.py\<close>, the forced synchronisation of
  \<open>sar_transport_monitor_api.py\<close> and the routes of \<open>case_api/main.py\<close> that create, approve, queue and annotate an intent.

  The tables are lists.  A request is one step; a worker's transaction is two, its claim, which locks the row
  (\<open>FOR UPDATE SKIP LOCKED\<close>), and its commit, so that several workers interleave.  The remote directory is a list of files and is not
  part of a transaction: a worker that stops after its upload has written the file.  Parameters: the XML parser (the tag of
  the root, \<open>None\<close> on a parse error), the HTML sanitizer, the ids and times of new rows, the outcomes of uploads and commits.
\<close>

section \<open>Status machine\<close>

definition sar_allowed :: "(string option \<times> string) list" where
  "sar_allowed = [(None, ''PENDING_REVIEW''), (None, ''FAILED''), (Some ''PENDING_REVIEW'', ''APPROVED''), (Some ''PENDING_REVIEW'', ''FAILED''),
     (Some ''APPROVED'', ''SFTP_QUEUED''), (Some ''APPROVED'', ''FAILED''), (Some ''SFTP_QUEUED'', ''TRANSMITTED''), (Some ''SFTP_QUEUED'', ''FAILED''),
     (Some ''TRANSMITTED'', ''ACKNOWLEDGED''), (Some ''TRANSMITTED'', ''FAILED'')]"

definition assert_allowed_transition :: "string option \<Rightarrow> string \<Rightarrow> unit res" where
  "assert_allowed_transition from to_status = (if (from, to_status) \<in> set sar_allowed then Inr () else Inl ValueError)"

record sar_intent =
  si_id :: string
  si_tenant :: string
  si_case :: string
  si_artifact :: "string option"
  si_status :: string
  si_data :: dict
  si_trail :: dict
  si_notes :: string
  si_created :: int

record sar_audit =
  sl_intent :: string
  sl_from :: "string option"
  sl_to :: string
  sl_actor :: string
  sl_detail :: dict
  sl_trace :: "string option"

record sar_artifact =
  sa_id :: string
  sa_case :: string
  sa_format :: string
  sa_narrative :: string
  sa_data :: dict
  sa_xml :: "string option"

text \<open>\<open>sd_locks\<close>: the rows held by the transactions of running workers.\<close>

record sar_db =
  sd_cases :: "(string \<times> sar_case) list"
  sd_intents :: "sar_intent list"
  sd_log :: "sar_audit list"
  sd_artifacts :: "sar_artifact list"
  sd_trail :: "trail_row list"
  sd_remote :: "(string \<times> nat list) list"
  sd_locks :: "string list"

definition append_sar_audit_log :: "string \<Rightarrow> string option \<Rightarrow> string \<Rightarrow> string \<Rightarrow> dict \<Rightarrow> string option \<Rightarrow> sar_db \<Rightarrow> sar_db" where
  "append_sar_audit_log i from to_status actor detail trace db = db\<lparr>sd_log := sd_log db @ [\<lparr>sl_intent = i, sl_from = from, sl_to = to_status,
     sl_actor = actor, sl_detail = detail, sl_trace = trace\<rparr>]\<rparr>"

definition record_sar_intent_initial_state :: "sar_intent \<Rightarrow> string \<Rightarrow> dict \<Rightarrow> sar_db \<Rightarrow> sar_db res" where
  "record_sar_intent_initial_state it actor detail db =
     (if si_status it \<notin> {''PENDING_REVIEW'', ''FAILED''} then Inl ValueError
      else Inr (append_sar_audit_log (si_id it) None (si_status it) actor detail None db))"

definition set_sar_status :: "string \<Rightarrow> string \<Rightarrow> sar_db \<Rightarrow> sar_db" where
  "set_sar_status i st db = db\<lparr>sd_intents := map (\<lambda>x. if si_id x = i then x\<lparr>si_status := st\<rparr> else x) (sd_intents db)\<rparr>"

definition transition_sar_intent :: "sar_intent \<Rightarrow> string \<Rightarrow> string \<Rightarrow> dict \<Rightarrow> string option \<Rightarrow> sar_db \<Rightarrow> sar_db res" where
  "transition_sar_intent it to_status actor detail trace db =
     (case assert_allowed_transition (Some (si_status it)) to_status of
        Inl e \<Rightarrow> Inl e
      | Inr _ \<Rightarrow> Inr (append_sar_audit_log (si_id it) (Some (si_status it)) to_status actor detail trace (set_sar_status (si_id it) to_status db)))"

text \<open>The oldest queued intent that no running worker holds; rows of one time in the order of the table.\<close>

definition claim_next_sftp_queued_intent :: "sar_db \<Rightarrow> sar_intent option" where
  "claim_next_sftp_queued_intent db = (case sort_key si_created (filter (\<lambda>x. si_status x = ''SFTP_QUEUED'' \<and> si_id x \<notin> set (sd_locks db)) (sd_intents db)) of
     [] \<Rightarrow> None | it # _ \<Rightarrow> Some it)"

section \<open>Filing data\<close>

definition build_sftp_destination :: "host \<Rightarrow> string option" where
  "build_sftp_destination h = (let s = env_text h ''FINCEN_BSA_SFTP_HOST'' in if s = [] then None else Some s)"

definition opt_val :: "string option \<Rightarrow> pyval" where
  "opt_val x = (case x of None \<Rightarrow> PNone | Some s \<Rightarrow> PStr s)"

text \<open>The institution is merged as a mapping: any other truthy value raises.\<close>

definition build_sar_filing_data :: "dict \<Rightarrow> sar_report \<Rightarrow> dict res" where
  "build_sar_filing_data body r = (let override = (case dget body ''filing_institution'' of PDict d \<Rightarrow> d | _ \<Rightarrow> []) in
     (case py_or (rp_institution r) (PDict []) of
        PDict base \<Rightarrow> (let inst = dict_update base override in Inr
          [(''filer_tin'', py_or (py_or (dget inst ''filer_tin'') (dget inst ''tin'')) (dget inst ''ein'')),
           (''financial_institution_name'', py_or (dget inst ''financial_institution_name'') (dget inst ''name'')),
           (''report_id'', PStr (rp_id r)), (''format'', PStr (rp_format r)), (''xml_content'', opt_val (rp_xml r)), (''narrative'', PStr (rp_narrative r))])
      | _ \<Rightarrow> Inl TypeError))"

definition mandatory_filing_keys :: "string list" where
  "mandatory_filing_keys = [''filer_tin'', ''financial_institution_name'', ''report_id'']"

definition field_error :: "dict \<Rightarrow> string \<Rightarrow> string list" where
  "field_error d key = (case dget d key of
       PNone \<Rightarrow> [''missing_field:'' @ key]
     | PStr s \<Rightarrow> if strip s = [] then [''empty_field:'' @ key] else []
     | _ \<Rightarrow> [])"

definition tag_local_name :: "string \<Rightarrow> string" where
  "tag_local_name tag = last (split_on CHR ''}'' tag)"

definition xml_errors :: "(string \<Rightarrow> string option) \<Rightarrow> pyval \<Rightarrow> string list" where
  "xml_errors parse xml = (case xml of
       PNone \<Rightarrow> [''missing_field:xml_content'']
     | PStr x \<Rightarrow> (let s = strip x in
         if s = [] then [''empty_field:xml_content'']
         else if \<not> startswith s ''<'' then [''invalid_xml:not_markup'']
         else (case parse s of
             None \<Rightarrow> [''invalid_xml:parse'']
           | Some tag \<Rightarrow> if contains_str (tag_local_name tag) ''EFilingBatch'' \<or> contains_str (tag_local_name tag) ''eFilingBatch'' then []
               else [''invalid_xml:missing_efiling_batch'']))
     | _ \<Rightarrow> [''empty_field:xml_content''])"

definition validate_pre_filing :: "(string \<Rightarrow> string option) \<Rightarrow> dict \<Rightarrow> string list" where
  "validate_pre_filing parse d = concat (map (field_error d) mandatory_filing_keys) @
     (case dget d ''narrative'' of PStr s \<Rightarrow> if strip s = [] then [''empty_field:narrative''] else [] | _ \<Rightarrow> []) @
     (if lower (strip (str_or_empty (dget d ''format''))) = ''fincen_xml'' then xml_errors parse (dget d ''xml_content'') else [])"

text \<open>\<open>uuid.hex\<close> is the text of the id without its dashes.\<close>

definition uuid_hex :: "string \<Rightarrow> string" where
  "uuid_hex u = filter (\<lambda>c. c \<noteq> CHR ''-'') u"

definition package_name :: "string \<Rightarrow> string \<Rightarrow> string \<Rightarrow> string" where
  "package_name art it ext = ''EFILING_BATCH_'' @ take 16 (uuid_hex art) @ ''_'' @ take 8 (uuid_hex it) @ ext"

text \<open>\<open>json.dumps\<close> with its default separators.\<close>

fun json_text :: "bool \<Rightarrow> pyval \<Rightarrow> string" where
  "json_text esc (PList xs) = ''['' @ join_str '', '' (map (json_text esc) xs) @ '']''"
| "json_text esc (PDict d) = ''{'' @ join_str '', '' (map (\<lambda>(k, v). json_str esc k @ '': '' @ json_text esc v) d) @ ''}''"
| "json_text esc v = json_dumps esc False v"

definition build_sar_transmission_package :: "sar_intent \<Rightarrow> sar_artifact \<Rightarrow> string \<times> nat list" where
  "build_sar_transmission_package it a = (let xml = strip (opt_str (sa_xml a)) in
     if strip (sa_format a) = ''fincen_xml'' \<and> xml \<noteq> [] then (package_name (sa_id a) (si_id it) ''.xml'', utf8 xml)
     else (package_name (sa_id a) (si_id it) ''.json'', utf8 (json_text False (PDict [(''EFilingBatchJSON'',
       PDict [(''version'', PStr ''1.0''), (''intent_id'', PStr (si_id it)), (''artifact_id'', PStr (sa_id a)), (''format'', PStr (sa_format a)),
         (''report_data'', PDict (sa_data a)), (''narrative_excerpt'', PStr (take 4000 (sa_narrative a)))])]))))"

section \<open>The worker\<close>

record sar_settings =
  ss_host :: string
  ss_user :: string
  ss_separate_ack :: bool

text \<open>An upload that raises carries its traceback.\<close>

datatype upload = Uploaded | UploadRaised string

definition reason :: "string \<Rightarrow> dict" where
  "reason code = [(''reason_code'', PStr code)]"

definition find_artifact :: "string option \<Rightarrow> sar_db \<Rightarrow> sar_artifact option" where
  "find_artifact i db = (case i of None \<Rightarrow> None | Some a \<Rightarrow> find (\<lambda>x. sa_id x = a) (sd_artifacts db))"

definition put_remote :: "string \<times> nat list \<Rightarrow> sar_db \<Rightarrow> sar_db" where
  "put_remote pkg db = db\<lparr>sd_remote := AList.update (fst pkg) (snd pkg) (sd_remote db)\<rparr>"

abbreviation sar_fail :: "sar_intent \<Rightarrow> dict \<Rightarrow> string option \<Rightarrow> sar_db \<Rightarrow> sar_db res" where
  "sar_fail it detail trace db \<equiv> transition_sar_intent it ''FAILED'' ''sar_worker'' detail trace db"

definition sar_transmitted :: "sar_settings \<Rightarrow> sar_intent \<Rightarrow> string \<times> nat list \<Rightarrow> sar_db \<Rightarrow> sar_db res" where
  "sar_transmitted st it pkg db =
     and_then (transition_sar_intent it ''TRANSMITTED'' ''sar_worker''
        (reason ''SAR_TRANSMITTED'' @ [(''remote_filename'', PStr (fst pkg)), (''bytes'', PInt (int (length (snd pkg))))]) None db)
       (\<lambda>db1. if ss_separate_ack st then Inr db1
          else transition_sar_intent (it\<lparr>si_status := ''TRANSMITTED''\<rparr>) ''ACKNOWLEDGED'' ''sar_worker'' (reason ''SAR_ACK_AUTO'' @
            [(''note'', PStr ''ACK promoted in-band; set SAR_TRANSPORT_REQUIRE_SEPARATE_ACK=1 for decoupled FinCEN ACK ingestion.'')]) None db1)"

text \<open>The transaction from its claim on.\<close>

definition process_claimed_intent :: "sar_settings \<Rightarrow> upload \<Rightarrow> sar_intent \<Rightarrow> sar_db \<Rightarrow> sar_db res" where
  "process_claimed_intent st out it db =
     (if strip (ss_host st) = [] then sar_fail it (reason ''SAR_SFTP_HOST_MISSING'') None db
      else (case find_artifact (si_artifact it) db of
          None \<Rightarrow> sar_fail it (reason ''SAR_ARTIFACT_MISSING'' @ [(''sar_artifact_id'', PStr (case si_artifact it of None \<Rightarrow> ''None'' | Some a \<Rightarrow> a))]) None db
        | Some art \<Rightarrow>
            if strip (ss_user st) = [] then sar_fail it (reason ''SAR_SFTP_USER_MISSING'') None db
            else (let pkg = build_sar_transmission_package it art in (case out of
                UploadRaised tb \<Rightarrow> sar_fail it (reason ''SAR_TRANSPORT_FAILED'' @ [(''remote_filename'', PStr (fst pkg))]) (Some tb) db
              | Uploaded \<Rightarrow> sar_transmitted st it pkg (put_remote pkg db)))))"

definition process_sar_transport_once :: "sar_settings \<Rightarrow> upload \<Rightarrow> sar_db \<Rightarrow> (bool \<times> sar_db) res" where
  "process_sar_transport_once st out db = (case claim_next_sftp_queued_intent db of
       None \<Rightarrow> Inr (False, db)
     | Some it \<Rightarrow> map_sum id (Pair True) (process_claimed_intent st out it db))"

text \<open>The subscriber swallows every exception: the transaction is rolled back.\<close>

definition handle_sar_transport_message :: "sar_settings \<Rightarrow> upload \<Rightarrow> sar_db \<Rightarrow> sar_db" where
  "handle_sar_transport_message st out db = (case process_sar_transport_once st out db of Inl _ \<Rightarrow> db | Inr (_, db') \<Rightarrow> db')"

text \<open>
  The forced synchronisation: at most one per minute and process, a tick for the subscribers and one transaction of its
  own.  \<open>tick\<close> says whether the tick was published and with which outcome the subscriber's upload ends; the clock and the
  last accepted call are in seconds; the subscriber's transaction is taken to end before the call's own.  The answer is the HTTP status and, when it is 200, whether the call's own transaction had work.
\<close>

definition force_cooldown :: rat where "force_cooldown = 60"

definition force_sftp_sync ::
  "sar_settings \<Rightarrow> upload option \<Rightarrow> upload \<Rightarrow> rat \<Rightarrow> rat \<times> sar_db \<Rightarrow> (int \<times> (bool + int)) \<times> (rat \<times> sar_db)" where
  "force_sftp_sync st tick out now s = (case s of (last_sync, db) \<Rightarrow>
     if last_sync \<noteq> 0 \<and> now - last_sync < force_cooldown then ((429, Inr (max 1 \<lceil>force_cooldown - (now - last_sync)\<rceil>)), s)
     else (let db1 = (case tick of None \<Rightarrow> db | Some o1 \<Rightarrow> handle_sar_transport_message st o1 db) in
       (case process_sar_transport_once st out db1 of
          Inl _ \<Rightarrow> ((500, Inl False), (now, db1))
        | Inr (b, db2) \<Rightarrow> ((200, Inl b), (now, db2)))))"

section \<open>Routes\<close>

definition sar_intent_for_tenant :: "string \<Rightarrow> string \<Rightarrow> string \<Rightarrow> sar_db \<Rightarrow> sar_intent option" where
  "sar_intent_for_tenant i c t db = find (\<lambda>x. si_id x = i \<and> si_case x = c \<and> si_tenant x = t) (sd_intents db)"

definition case_for_tenant :: "string \<Rightarrow> string \<Rightarrow> sar_db \<Rightarrow> sar_case option" where
  "case_for_tenant c t db = map_option snd (find (\<lambda>(t', x). sc_id x = c \<and> t' = t) (sd_cases db))"

text \<open>An answer is the HTTP status, the reason code of an error and the tables; 500 stands for an uncaught exception.\<close>

type_synonym sar_answer = "int \<times> string \<times> sar_db"

definition on_intent :: "string \<Rightarrow> string \<Rightarrow> string \<Rightarrow> (sar_intent \<Rightarrow> sar_answer) \<Rightarrow> sar_db \<Rightarrow> sar_answer" where
  "on_intent i c t f db = (case case_for_tenant c t db of
       None \<Rightarrow> (404, ''not found'', db)
     | Some _ \<Rightarrow> (case sar_intent_for_tenant i c t db of None \<Rightarrow> (404, ''SAR_INTENT_NOT_FOUND'', db) | Some it \<Rightarrow> f it))"

definition answer_of :: "sar_db \<Rightarrow> int \<Rightarrow> sar_db res \<Rightarrow> sar_answer" where
  "answer_of db code r = (case r of Inl _ \<Rightarrow> (500, [], db) | Inr db' \<Rightarrow> (code, [], db'))"

definition approve_sar_filing_intent :: "string \<Rightarrow> string \<Rightarrow> string \<Rightarrow> string \<Rightarrow> sar_db \<Rightarrow> sar_answer" where
  "approve_sar_filing_intent i c t actor db = on_intent i c t (\<lambda>it.
     if si_status it \<noteq> ''PENDING_REVIEW'' then (409, ''SAR_INTENT_INVALID_STATE'', db)
     else answer_of db 200 (transition_sar_intent it ''APPROVED'' actor (reason ''SAR_APPROVED'') None db)) db"

definition queue_sar_filing_sftp :: "string \<Rightarrow> string \<Rightarrow> string \<Rightarrow> string \<Rightarrow> sar_db \<Rightarrow> sar_answer" where
  "queue_sar_filing_sftp i c t actor db = on_intent i c t (\<lambda>it.
     if si_status it \<noteq> ''APPROVED'' then (409, ''SAR_INTENT_INVALID_STATE'', db)
     else answer_of db 200 (transition_sar_intent it ''SFTP_QUEUED'' actor (reason ''SAR_SFTP_QUEUED'') None db)) db"

definition is_sar_uploaded_locked :: "string \<Rightarrow> bool" where
  "is_sar_uploaded_locked st = (st \<in> {''TRANSMITTED'', ''ACKNOWLEDGED''})"

definition sanitize_investigative_notes_html :: "(string \<Rightarrow> string) \<Rightarrow> string \<Rightarrow> string" where
  "sanitize_investigative_notes_html clean raw = (if strip raw = [] then [] else clean raw)"

definition patch_sar_intent_investigative_notes :: "(string \<Rightarrow> string) \<Rightarrow> string \<Rightarrow> string \<Rightarrow> string \<Rightarrow> string \<Rightarrow> sar_db \<Rightarrow> sar_answer" where
  "patch_sar_intent_investigative_notes clean i c t notes db = on_intent i c t (\<lambda>it.
     if is_sar_uploaded_locked (si_status it) then (403, ''sar_notes_locked'', db)
     else (200, [], db\<lparr>sd_intents := map (\<lambda>x. if si_id x = si_id it
       then x\<lparr>si_notes := sanitize_investigative_notes_html clean notes\<rparr> else x) (sd_intents db)\<rparr>)) db"

definition fincen_submission_sha256_hex :: "sar_intent \<Rightarrow> sar_artifact option \<Rightarrow> string option" where
  "fincen_submission_sha256_hex it artifact = map_option (\<lambda>a. hexdigest (sha256_bytes (snd (build_sar_transmission_package it a)))) artifact"

text \<open>The digest shown by \<open>get_sar_intent_detail\<close>, for an uploaded intent.\<close>

definition detail_digest :: "sar_intent \<Rightarrow> sar_db \<Rightarrow> string option" where
  "detail_digest it db = (if is_sar_uploaded_locked (si_status it) then fincen_submission_sha256_hex it (find_artifact (si_artifact it) db) else None)"

definition add_intent :: "sar_intent \<Rightarrow> string \<Rightarrow> dict \<Rightarrow> sar_db \<Rightarrow> sar_db res" where
  "add_intent it actor detail db = record_sar_intent_initial_state it actor detail (db\<lparr>sd_intents := sd_intents db @ [it]\<rparr>)"

definition new_intent :: "string \<Rightarrow> string \<Rightarrow> string \<Rightarrow> string option \<Rightarrow> string \<Rightarrow> dict \<Rightarrow> dict \<Rightarrow> int \<Rightarrow> sar_intent" where
  "new_intent i t c art status data trail now = \<lparr>si_id = i, si_tenant = t, si_case = c, si_artifact = art, si_status = status, si_data = data,
     si_trail = trail, si_notes = [], si_created = now\<rparr>"

definition failed_filing :: "string list \<Rightarrow> string \<Rightarrow> string \<Rightarrow> string \<Rightarrow> dict \<Rightarrow> string \<Rightarrow> int \<Rightarrow> sar_db \<Rightarrow> sar_db res" where
  "failed_filing errors i t c data actor now db = (let errs = (''validation_errors'', PList (map PStr errors)) in
     add_intent (new_intent i t c None ''FAILED'' data [(''reason'', PStr ''PREFILING_VALIDATION_FAILED''), errs] now) actor (reason ''SAR_PREFILING_INVALID'' @ [errs]) db)"

definition report_artifact :: "string \<Rightarrow> string \<Rightarrow> sar_report \<Rightarrow> sar_artifact" where
  "report_artifact a c r = \<lparr>sa_id = a, sa_case = c, sa_format = rp_format r, sa_narrative = rp_narrative r,
     sa_data = (case rp_json r of Some (x # xs) \<Rightarrow> x # xs | _ \<Rightarrow>
       [(''report_id'', PStr (rp_id r)), (''filing_date'', PStr (rp_date r)), (''subject'', PDict (rp_subject r)), (''institution'', rp_institution r),
        (''transaction_count'', PInt (int (length (rp_transactions r))))]),
     sa_xml = rp_xml r\<rparr>"

definition store_filing :: "host \<Rightarrow> string \<Rightarrow> string \<Rightarrow> string \<Rightarrow> dict \<Rightarrow> sar_artifact \<Rightarrow> string \<Rightarrow> int \<Rightarrow> sar_db \<Rightarrow> sar_db res" where
  "store_filing h i t c data art actor now db = (let
       sftp = build_sftp_destination h \<noteq> None;
       trail = (if sftp then [(''transport'', PStr ''sftp_configured''), (''note'', PStr ''Awaiting compliance approval before SFTP queue.'')]
         else [(''reason'', PStr ''SFTP_TRANSPORT_NOT_CONFIGURED''),
           (''detail'', PStr ''FINCEN_BSA_SFTP_HOST is not set; intent is FAILED (not left pending).'')]);
       full = dict_update data [(''sar_artifact_id'', PStr (sa_id art)), (''xml_present'', PBool (strip (opt_str (sa_xml art)) \<noteq> []))];
       db1 = db\<lparr>sd_trail := trail_record now actor ''generate_sar'' ''case'' c [(''sar_id'', PStr (sa_id art)), (''format'', PStr (sa_format art))] t (sd_trail db)\<rparr> in
     add_intent (new_intent i t c (Some (sa_id art)) (if sftp then ''PENDING_REVIEW'' else ''FAILED'') full trail now) actor
       (trail @ [(''sar_artifact_id'', PStr (sa_id art))]) db1)"

text \<open>
  The route: \<open>fresh\<close> holds the ids of the new intent, artifact and report, \<open>commits\<close> whether the first and the second commit succeed.
  The artifact is committed before the intent.
\<close>

record sar_fresh =
  fr_intent :: string
  fr_artifact :: string
  fr_report :: string
  fr_filing_date :: string
  fr_today :: string
  fr_now :: int

definition generate_sar_route ::
  "(string \<Rightarrow> string option) \<Rightarrow> host \<Rightarrow> sar_fresh \<Rightarrow> bool \<times> bool \<Rightarrow> string \<Rightarrow> string \<Rightarrow> dict \<Rightarrow> string \<Rightarrow> sar_db \<Rightarrow> sar_answer" where
  "generate_sar_route parse h fr commits c t body actor db = (case case_for_tenant c t db of
       None \<Rightarrow> (404, ''not found'', db)
     | Some cs \<Rightarrow> (case generate_sar (fr_report fr) (fr_filing_date fr) (fr_today fr) cs (dget_or body ''transactions'' (PList []))
           (dget_or body ''entity_data'' (PDict [(''name'', PStr (sc_entity cs))])) (dget_or body ''format'' (PStr ''fincen_xml'')) (dget body ''filing_institution'') of
         Inl _ \<Rightarrow> (500, [], db)
       | Inr r \<Rightarrow> (case build_sar_filing_data body r of
           Inl _ \<Rightarrow> (500, [], db)
         | Inr data \<Rightarrow> (let errors = validate_pre_filing parse data; art = report_artifact (fr_artifact fr) c r in
             if errors \<noteq> [] then
               (if \<not> fst commits then (503, ''SAR_INTENT_PERSISTENCE_FAILED'', db)
                else (case failed_filing errors (fr_intent fr) t c data actor (fr_now fr) db of
                    Inl _ \<Rightarrow> (500, [], db) | Inr db' \<Rightarrow> (422, ''SAR_PREFILING_INVALID'', db')))
             else if \<not> fst commits then (503, ''SAR_ARTIFACT_PERSISTENCE_FAILED'', db)
             else (let db1 = db\<lparr>sd_artifacts := sd_artifacts db @ [art]\<rparr> in
               if \<not> snd commits then (503, ''SAR_TRANSPORT_INTENT_PERSISTENCE_FAILED'', db1)
               else answer_of db1 201 (store_filing h (fr_intent fr) t c data art actor (fr_now fr) db1))))))"

section \<open>Runs\<close>

definition unlock_row :: "string \<Rightarrow> sar_db \<Rightarrow> sar_db" where
  "unlock_row i db = db\<lparr>sd_locks := removeAll i (sd_locks db)\<rparr>"

text \<open>
  Requests, claims, commits and workers that stop before or after their upload.  An update of a locked row waits for the
  lock, so notes are written to unlocked rows; new ids are fresh.
\<close>

inductive sar_step :: "(string \<Rightarrow> string option) \<Rightarrow> (string \<Rightarrow> string) \<Rightarrow> sar_settings \<Rightarrow> host \<Rightarrow> sar_db \<Rightarrow> sar_db \<Rightarrow> bool" for parse clean st h where
  generated: "generate_sar_route parse h fr commits c t body actor db = (code, r, db') \<Longrightarrow> fr_intent fr \<notin> si_id ` set (sd_intents db) \<Longrightarrow>
    fr_artifact fr \<notin> sa_id ` set (sd_artifacts db) \<Longrightarrow> sar_step parse clean st h db db'"
| approved: "approve_sar_filing_intent i c t actor db = (code, r, db') \<Longrightarrow> sar_step parse clean st h db db'"
| queued: "queue_sar_filing_sftp i c t actor db = (code, r, db') \<Longrightarrow> sar_step parse clean st h db db'"
| noted: "patch_sar_intent_investigative_notes clean i c t html db = (code, r, db') \<Longrightarrow> i \<notin> set (sd_locks db) \<Longrightarrow> sar_step parse clean st h db db'"
| claimed: "claim_next_sftp_queued_intent db = Some it \<Longrightarrow> sar_step parse clean st h db (db\<lparr>sd_locks := si_id it # sd_locks db\<rparr>)"
| committed: "it \<in> set (sd_intents db) \<Longrightarrow> si_id it \<in> set (sd_locks db) \<Longrightarrow> process_claimed_intent st out it db = Inr db' \<Longrightarrow>
    sar_step parse clean st h db (unlock_row (si_id it) db')"
| stopped: "i \<in> set (sd_locks db) \<Longrightarrow> sar_step parse clean st h db (unlock_row i db)"
| stopped_late: "it \<in> set (sd_intents db) \<Longrightarrow> si_id it \<in> set (sd_locks db) \<Longrightarrow> find_artifact (si_artifact it) db = Some art \<Longrightarrow>
    sar_step parse clean st h db (unlock_row (si_id it) (put_remote (build_sar_transmission_package it art) db))"

definition empty_sar_db :: "(string \<times> sar_case) list \<Rightarrow> sar_db" where
  "empty_sar_db cases = \<lparr>sd_cases = cases, sd_intents = [], sd_log = [], sd_artifacts = [], sd_trail = [], sd_remote = [], sd_locks = []\<rparr>"

section \<open>Invariant\<close>

text \<open>The transitions an intent went through, as its audit rows tell, and the paths there are.\<close>

definition sar_history :: "string \<Rightarrow> sar_db \<Rightarrow> (string option \<times> string) list" where
  "sar_history i db = map (\<lambda>l. (sl_from l, sl_to l)) (filter (\<lambda>l. sl_intent l = i) (sd_log db))"

definition path_rows :: "string list \<Rightarrow> (string option \<times> string) list" where
  "path_rows tos = zip (None # map Some tos) tos"

definition sar_paths :: "string list list" where
  "sar_paths = [[''FAILED''], [''PENDING_REVIEW''], [''PENDING_REVIEW'', ''APPROVED''], [''PENDING_REVIEW'', ''APPROVED'', ''SFTP_QUEUED''],
     [''PENDING_REVIEW'', ''APPROVED'', ''SFTP_QUEUED'', ''FAILED''], [''PENDING_REVIEW'', ''APPROVED'', ''SFTP_QUEUED'', ''TRANSMITTED''],
     [''PENDING_REVIEW'', ''APPROVED'', ''SFTP_QUEUED'', ''TRANSMITTED'', ''ACKNOWLEDGED'']]"

definition audit_ok :: "sar_db \<Rightarrow> sar_intent \<Rightarrow> bool" where
  "audit_ok db it = (\<exists>tos \<in> set sar_paths. sar_history (si_id it) db = path_rows tos \<and> last tos = si_status it)"

definition artifact_ok :: "sar_db \<Rightarrow> sar_intent \<Rightarrow> bool" where
  "artifact_ok db it = (si_status it \<noteq> ''FAILED'' \<longrightarrow> find_artifact (si_artifact it) db \<noteq> None)"

definition rows_inv :: "sar_db \<Rightarrow> bool" where
  "rows_inv db = (distinct (map si_id (sd_intents db)) \<and> (\<forall>l \<in> set (sd_log db). sl_intent l \<in> si_id ` set (sd_intents db)) \<and>
     (\<forall>it \<in> set (sd_intents db). audit_ok db it \<and> artifact_ok db it))"

definition locks_ok :: "sar_db \<Rightarrow> bool" where
  "locks_ok db = (distinct (sd_locks db) \<and> (\<forall>i \<in> set (sd_locks db). \<exists>it \<in> set (sd_intents db). si_id it = i \<and> si_status it = ''SFTP_QUEUED''))"

text \<open>The package of an intent; when no two intents share a file name, that of an uploaded intent is in the remote directory.\<close>

definition package_of :: "sar_db \<Rightarrow> sar_intent \<Rightarrow> (string \<times> nat list) option" where
  "package_of db it = map_option (build_sar_transmission_package it) (find_artifact (si_artifact it) db)"

definition names_distinct :: "sar_db \<Rightarrow> bool" where
  "names_distinct db = (\<forall>x \<in> set (sd_intents db). \<forall>y \<in> set (sd_intents db). package_of db x \<noteq> None \<and>
     map_option fst (package_of db x) = map_option fst (package_of db y) \<longrightarrow> si_id x = si_id y)"

definition at_remote :: "sar_db \<Rightarrow> sar_intent \<Rightarrow> bool" where
  "at_remote db it = (case package_of db it of None \<Rightarrow> False | Some p \<Rightarrow> map_of (sd_remote db) (fst p) = Some (snd p))"

definition sar_delivered :: "sar_db \<Rightarrow> bool" where
  "sar_delivered db = (\<forall>it \<in> set (sd_intents db). is_sar_uploaded_locked (si_status it) \<longrightarrow> at_remote db it)"

definition sar_inv :: "sar_db \<Rightarrow> bool" where
  "sar_inv db = (rows_inv db \<and> locks_ok db \<and> (names_distinct db \<longrightarrow> sar_delivered db))"

text \<open>What no step takes back: audit rows, artifacts, intents and, when they are uploaded, every field of them.\<close>

definition intent_kept :: "sar_intent \<Rightarrow> sar_intent \<Rightarrow> bool" where
  "intent_kept x y = (si_id y = si_id x \<and> si_artifact y = si_artifact x \<and> (is_sar_uploaded_locked (si_status x) \<longrightarrow> y = x))"

definition sar_grows :: "sar_db \<Rightarrow> sar_db \<Rightarrow> bool" where
  "sar_grows db db' = ((\<exists>ls. sd_log db' = sd_log db @ ls) \<and> (\<exists>as. sd_artifacts db' = sd_artifacts db @ as) \<and>
     (\<forall>x \<in> set (sd_intents db). \<exists>y \<in> set (sd_intents db'). intent_kept x y))"

text \<open>The transitions that are taken: those of the table less three that no code asks for.\<close>

definition taken :: "(string \<times> string) list" where
  "taken = [(''PENDING_REVIEW'', ''APPROVED''), (''APPROVED'', ''SFTP_QUEUED''), (''SFTP_QUEUED'', ''FAILED''), (''SFTP_QUEUED'', ''TRANSMITTED''),
     (''TRANSMITTED'', ''ACKNOWLEDGED'')]"

lemma taken_extends: "tos \<in> set sar_paths \<Longrightarrow> (last tos, to) \<in> set taken \<Longrightarrow> tos @ [to] \<in> set sar_paths"
proof -
  have "\<forall>tos \<in> set sar_paths. \<forall>p \<in> set taken. fst p = last tos \<longrightarrow> tos @ [snd p] \<in> set sar_paths" by code_simp
  then show "tos \<in> set sar_paths \<Longrightarrow> (last tos, to) \<in> set taken \<Longrightarrow> tos @ [to] \<in> set sar_paths" by fastforce
qed

lemma sar_paths_nonempty: "tos \<in> set sar_paths \<Longrightarrow> tos \<noteq> []"
  by (auto simp: sar_paths_def)

lemma taken_allowed: "(a, b) \<in> set taken \<Longrightarrow> assert_allowed_transition (Some a) b = Inr ()"
proof -
  have "\<forall>p \<in> set taken. assert_allowed_transition (Some (fst p)) (snd p) = Inr ()" by code_simp
  then show "(a, b) \<in> set taken \<Longrightarrow> assert_allowed_transition (Some a) b = Inr ()" by fastforce
qed

lemma taken_from_open: "(a, b) \<in> set taken \<Longrightarrow> a \<noteq> ''FAILED''"
proof -
  have "\<forall>p \<in> set taken. fst p \<noteq> ''FAILED''" by code_simp
  then show "(a, b) \<in> set taken \<Longrightarrow> a \<noteq> ''FAILED''" by fastforce
qed

lemma zip_shift_snoc: "zip (a # map Some (tos @ [to])) (tos @ [to]) = zip (a # map Some tos) tos @ [(last (a # map Some tos), to)]"
  by (induction tos arbitrary: a) auto

lemma path_rows_snoc: "tos \<noteq> [] \<Longrightarrow> path_rows (tos @ [to]) = path_rows tos @ [(Some (last tos), to)]"
  unfolding path_rows_def zip_shift_snoc by (simp add: last_map)

definition with_status :: "string \<Rightarrow> string \<Rightarrow> sar_intent list \<Rightarrow> sar_intent list" where
  "with_status i s its = map (\<lambda>x. if si_id x = i then x\<lparr>si_status := s\<rparr> else x) its"

lemma with_status_ids [simp]: "map si_id (with_status i s its) = map si_id its"
  by (induction its) (simp_all add: with_status_def)

lemma with_status_id_set [simp]: "si_id ` set (with_status i s its) = si_id ` set its"
  by (metis with_status_ids image_set)

lemma in_with_status: "distinct (map si_id its) \<Longrightarrow> it \<in> set its \<Longrightarrow>
    x \<in> set (with_status (si_id it) s its) \<longleftrightarrow> x = it\<lparr>si_status := s\<rparr> \<or> (x \<in> set its \<and> si_id x \<noteq> si_id it)"
proof -
  assume d: "distinct (map si_id its)" and m: "it \<in> set its"
  have "\<And>y. y \<in> set its \<Longrightarrow> si_id y = si_id it \<Longrightarrow> y = it" using d m by (metis distinct_map inj_onD)
  then show ?thesis using m by (auto simp: with_status_def image_iff)
qed

lemma with_status_twice: "with_status i s (with_status i s' its) = with_status i s its"
  by (induction its) (simp_all add: with_status_def)

text \<open>A taken transition on a row: the row moves, one audit row is added and nothing else changes.\<close>

definition moves :: "string \<Rightarrow> string \<Rightarrow> sar_db \<Rightarrow> sar_db \<Rightarrow> bool" where
  "moves i s db db' = (sd_intents db' = with_status i s (sd_intents db) \<and> (\<exists>ls. sd_log db' = sd_log db @ ls) \<and>
     sd_artifacts db' = sd_artifacts db \<and> sd_locks db' = sd_locks db \<and> sd_cases db' = sd_cases db)"

lemma find_artifact_cong: "sd_artifacts db' = sd_artifacts db \<Longrightarrow> find_artifact i db' = find_artifact i db"
  by (simp add: find_artifact_def split: option.split)

lemma transition_moves:
  assumes inv: "rows_inv db" and it: "it \<in> set (sd_intents db)" and ok: "(si_status it, s) \<in> set taken"
  shows "\<exists>db'. transition_sar_intent it s actor detail trace db = Inr db' \<and> moves (si_id it) s db db' \<and> rows_inv db' \<and> sd_remote db' = sd_remote db"
proof -
  let ?row = "\<lparr>sl_intent = si_id it, sl_from = Some (si_status it), sl_to = s, sl_actor = actor, sl_detail = detail, sl_trace = trace\<rparr>"
  let ?db = "db\<lparr>sd_intents := with_status (si_id it) s (sd_intents db), sd_log := sd_log db @ [?row]\<rparr>"
  have eq: "transition_sar_intent it s actor detail trace db = Inr ?db"
    by (simp add: transition_sar_intent_def taken_allowed [OF ok] append_sar_audit_log_def set_sar_status_def with_status_def)
  have fa: "find_artifact i ?db = find_artifact i db" for i by (rule find_artifact_cong) simp
  have d: "distinct (map si_id (sd_intents db))" using inv by (simp add: rows_inv_def)
  obtain tos where tos: "tos \<in> set sar_paths" "sar_history (si_id it) db = path_rows tos" "last tos = si_status it"
    using inv it by (auto simp: rows_inv_def audit_ok_def)
  then have ne: "tos \<noteq> []" using sar_paths_nonempty by blast
  have "sar_history (si_id it) ?db = path_rows (tos @ [s])"
    using tos ne by (simp add: sar_history_def path_rows_snoc)
  moreover have "tos @ [s] \<in> set sar_paths" using taken_extends [of tos s] tos ok by simp
  ultimately have "audit_ok ?db (it\<lparr>si_status := s\<rparr>)" by (auto simp: audit_ok_def)
  moreover have "artifact_ok ?db (it\<lparr>si_status := s\<rparr>)"
    using inv it taken_from_open [OF ok] by (auto simp: rows_inv_def artifact_ok_def fa)
  moreover have "audit_ok ?db x \<and> artifact_ok ?db x" if "x \<in> set (sd_intents db)" "si_id x \<noteq> si_id it" for x
    using that inv by (simp add: rows_inv_def audit_ok_def artifact_ok_def fa sar_history_def)
  ultimately have "rows_inv ?db" using inv it by (auto simp: rows_inv_def in_with_status [OF d it])
  then show ?thesis using eq by (simp add: moves_def)
qed

lemma put_remote_inv: "rows_inv (put_remote pkg db) = rows_inv db"
proof -
  have "find_artifact i (put_remote pkg db) = find_artifact i db" for i by (rule find_artifact_cong) (simp add: put_remote_def)
  then show ?thesis by (simp add: rows_inv_def audit_ok_def artifact_ok_def sar_history_def) (simp add: put_remote_def)
qed

lemma moves_trans: "moves i s db db1 \<Longrightarrow> moves i s' db1 db2 \<Longrightarrow> moves i s' db db2"
  by (auto simp: moves_def with_status_twice)

lemma moves_put_remote: "moves i s (put_remote pkg db) db' = moves i s db db'"
  by (simp add: moves_def put_remote_def)

lemma transmitted_moves:
  assumes inv: "rows_inv db" and it: "it \<in> set (sd_intents db)" and q: "si_status it = ''SFTP_QUEUED''"
  shows "\<exists>db'. sar_transmitted st it pkg db = Inr db' \<and> moves (si_id it) (if ss_separate_ack st then ''TRANSMITTED'' else ''ACKNOWLEDGED'') db db' \<and>
    rows_inv db' \<and> sd_remote db' = sd_remote db"
proof -
  let ?d1 = "reason ''SAR_TRANSMITTED'' @ [(''remote_filename'', PStr (fst pkg)), (''bytes'', PInt (int (length (snd pkg))))]"
  let ?d2 = "reason ''SAR_ACK_AUTO'' @ [(''note'', PStr ''ACK promoted in-band; set SAR_TRANSPORT_REQUIRE_SEPARATE_ACK=1 for decoupled FinCEN ACK ingestion.'')]"
  let ?it = "it\<lparr>si_status := ''TRANSMITTED''\<rparr>"
  have t1: "(si_status it, ''TRANSMITTED'') \<in> set taken" and t2: "(si_status ?it, ''ACKNOWLEDGED'') \<in> set taken" by (simp_all add: q taken_def)
  obtain db1 where db1: "transition_sar_intent it ''TRANSMITTED'' ''sar_worker'' ?d1 None db = Inr db1" "moves (si_id it) ''TRANSMITTED'' db db1"
      "rows_inv db1" "sd_remote db1 = sd_remote db"
    using transition_moves [OF inv it t1] by blast
  have "?it \<in> set (sd_intents db1)"
    using db1(2) inv it by (auto simp: moves_def rows_inv_def in_with_status)
  from transition_moves [OF db1(3) this t2, of "''sar_worker''" ?d2 None]
  obtain db2 where db2: "transition_sar_intent ?it ''ACKNOWLEDGED'' ''sar_worker'' ?d2 None db1 = Inr db2" "moves (si_id it) ''ACKNOWLEDGED'' db1 db2"
      "rows_inv db2" "sd_remote db2 = sd_remote db1"
    by auto
  show ?thesis
  proof (cases "ss_separate_ack st")
    case True
    then have "sar_transmitted st it pkg db = Inr db1" unfolding sar_transmitted_def db1(1) by simp
    then show ?thesis using db1 True by simp
  next
    case False
    then have "sar_transmitted st it pkg db = Inr db2" unfolding sar_transmitted_def db1(1) and_then_simps using db2(1) by simp
    moreover have "moves (si_id it) ''ACKNOWLEDGED'' db db2" by (rule moves_trans [OF db1(2) db2(2)])
    ultimately show ?thesis using db1(4) db2(3,4) False by simp
  qed
qed

text \<open>A claimed intent always ends the transaction: it fails, or its package is uploaded and it is transmitted.\<close>

definition delivered_as :: "sar_settings \<Rightarrow> sar_intent \<Rightarrow> string \<Rightarrow> sar_db \<Rightarrow> sar_db \<Rightarrow> bool" where
  "delivered_as st it s db db' = (case find_artifact (si_artifact it) db of
       None \<Rightarrow> s = ''FAILED'' \<and> sd_remote db' = sd_remote db
     | Some art \<Rightarrow> (s = ''FAILED'' \<and> sd_remote db' = sd_remote db) \<or>
         (s = (if ss_separate_ack st then ''TRANSMITTED'' else ''ACKNOWLEDGED'') \<and> sd_remote db' = sd_remote (put_remote (build_sar_transmission_package it art) db)))"

lemma delivered_failed: "sd_remote db' = sd_remote db \<Longrightarrow> delivered_as st it ''FAILED'' db db'"
  by (simp add: delivered_as_def split: option.split)

lemma delivered_status: "delivered_as st it s db db' \<Longrightarrow> s \<in> {''FAILED'', ''TRANSMITTED'', ''ACKNOWLEDGED''}"
  by (auto simp: delivered_as_def split: option.splits if_splits)

lemma fail_moves:
  assumes "rows_inv db" and "it \<in> set (sd_intents db)" and q: "si_status it = ''SFTP_QUEUED''"
  shows "\<exists>db' s. sar_fail it detail trace db = Inr db' \<and> moves (si_id it) s db db' \<and> rows_inv db' \<and> delivered_as st it s db db'"
proof -
  have "(si_status it, ''FAILED'') \<in> set taken" by (simp add: q taken_def)
  from transition_moves [OF assms(1, 2) this] show ?thesis using delivered_failed by blast
qed

lemma processed_moves:
  assumes inv: "rows_inv db" and it: "it \<in> set (sd_intents db)" and q: "si_status it = ''SFTP_QUEUED''"
  shows "\<exists>db' s. process_claimed_intent st out it db = Inr db' \<and> moves (si_id it) s db db' \<and> rows_inv db' \<and> delivered_as st it s db db'"
proof (cases "strip (ss_host st) = []")
  case True
  then show ?thesis using fail_moves [OF assms] by (simp add: process_claimed_intent_def)
next
  case host: False
  show ?thesis
  proof (cases "find_artifact (si_artifact it) db")
    case None
    then show ?thesis using fail_moves [OF assms] host by (simp add: process_claimed_intent_def)
  next
    case (Some art)
    let ?pkg = "build_sar_transmission_package it art"
    show ?thesis
    proof (cases "strip (ss_user st) = []")
      case True
      then show ?thesis using fail_moves [OF assms] host Some by (simp add: process_claimed_intent_def)
    next
      case user: False
      show ?thesis
      proof (cases out)
        case (UploadRaised tb)
        then show ?thesis using fail_moves [OF assms] host Some user by (simp add: process_claimed_intent_def Let_def)
      next
        case Uploaded
        then have "process_claimed_intent st out it db = sar_transmitted st it ?pkg (put_remote ?pkg db)"
          using host Some user by (simp add: process_claimed_intent_def Let_def)
        moreover have "it \<in> set (sd_intents (put_remote ?pkg db))" using it by (simp add: put_remote_def)
        ultimately show ?thesis using transmitted_moves [of "put_remote ?pkg db" it st ?pkg] inv q Some
          by (auto simp: put_remote_inv moves_put_remote delivered_as_def)
      qed
    qed
  qed
qed

section \<open>Every step keeps the invariant\<close>

lemma package_fields: "si_id x = si_id y \<Longrightarrow> build_sar_transmission_package x a = build_sar_transmission_package y a"
  by (simp add: build_sar_transmission_package_def Let_def)

lemma find_some_append: "find P xs = Some a \<Longrightarrow> find P (xs @ ys) = Some a"
  by (induction xs) auto

lemma find_artifact_grows: "sar_grows db db' \<Longrightarrow> find_artifact i db = Some a \<Longrightarrow> find_artifact i db' = Some a"
  by (auto simp: sar_grows_def find_artifact_def find_some_append split: option.splits)

lemma package_of_grows: "sar_grows db db' \<Longrightarrow> si_id y = si_id x \<Longrightarrow> si_artifact y = si_artifact x \<Longrightarrow>
    package_of db x = Some p \<Longrightarrow> package_of db' y = Some p"
proof -
  assume g: "sar_grows db db'" and i: "si_id y = si_id x" and a: "si_artifact y = si_artifact x" and "package_of db x = Some p"
  then obtain art where art: "find_artifact (si_artifact x) db = Some art" "p = build_sar_transmission_package x art" by (auto simp: package_of_def)
  have "package_of db' y = Some (build_sar_transmission_package y art)" using find_artifact_grows [OF g art(1)] a by (simp add: package_of_def)
  then show ?thesis using package_fields [OF i] art(2) by simp
qed

lemma sar_grows_refl: "sar_grows db db"
  by (auto simp: sar_grows_def intent_kept_def)

lemma sar_grows_trans: "sar_grows a b \<Longrightarrow> sar_grows b c \<Longrightarrow> sar_grows a c"
proof -
  assume ab: "sar_grows a b" and bc: "sar_grows b c"
  have "\<exists>z \<in> set (sd_intents c). intent_kept x z" if "x \<in> set (sd_intents a)" for x
  proof -
    obtain y where y: "y \<in> set (sd_intents b)" "intent_kept x y" using ab \<open>x \<in> set (sd_intents a)\<close> by (auto simp: sar_grows_def)
    then obtain z where "z \<in> set (sd_intents c)" "intent_kept y z" using bc by (auto simp: sar_grows_def)
    then show ?thesis using y by (auto simp: intent_kept_def)
  qed
  then show ?thesis using ab bc by (auto simp: sar_grows_def)
qed

lemma sar_grows_intent: "sar_grows db db' \<Longrightarrow> x \<in> set (sd_intents db) \<Longrightarrow> \<exists>y \<in> set (sd_intents db'). intent_kept x y"
  by (simp add: sar_grows_def)

lemma names_distinctD: "names_distinct db \<Longrightarrow> x \<in> set (sd_intents db) \<Longrightarrow> y \<in> set (sd_intents db) \<Longrightarrow> package_of db x = Some p \<Longrightarrow>
    package_of db y = Some q \<Longrightarrow> fst p = fst q \<Longrightarrow> si_id x = si_id y"
  unfolding names_distinct_def by (drule (1) bspec, drule (1) bspec, erule mp) simp

lemma names_distinct_grows:
  assumes g: "sar_grows db db'" and n: "names_distinct db'"
  shows "names_distinct db"
  unfolding names_distinct_def
proof (intro ballI impI)
  fix x y assume x: "x \<in> set (sd_intents db)" and y: "y \<in> set (sd_intents db)"
    and eq: "package_of db x \<noteq> None \<and> map_option fst (package_of db x) = map_option fst (package_of db y)"
  obtain p where p: "package_of db x = Some p" using eq by (cases "package_of db x") simp_all
  obtain q where q: "package_of db y = Some q" and pq: "fst p = fst q" using eq p by (cases "package_of db y") simp_all
  obtain x' where x': "x' \<in> set (sd_intents db')" "intent_kept x x'" using sar_grows_intent [OF g x] ..
  obtain y' where y': "y' \<in> set (sd_intents db')" "intent_kept y y'" using sar_grows_intent [OF g y] ..
  have "package_of db' x' = Some p" using package_of_grows [OF g _ _ p, of x'] x'(2) by (simp add: intent_kept_def)
  moreover have "package_of db' y' = Some q" using package_of_grows [OF g _ _ q, of y'] y'(2) by (simp add: intent_kept_def)
  ultimately have "si_id x' = si_id y'" using names_distinctD [OF n x'(1) y'(1) _ _ pq] by simp
  then show "si_id x = si_id y" using x' y' by (simp add: intent_kept_def)
qed

text \<open>
  The remote directory changes by the package of an intent at most, and an intent that becomes uploaded is there: then the
  packages of the uploaded intents stay.
\<close>

definition remote_step :: "sar_db \<Rightarrow> sar_db \<Rightarrow> bool" where
  "remote_step db db' = ((sd_remote db' = sd_remote db \<or> (\<exists>it \<in> set (sd_intents db'). \<exists>p. package_of db' it = Some p \<and>
       sd_remote db' = AList.update (fst p) (snd p) (sd_remote db))) \<and>
     (\<forall>x \<in> set (sd_intents db'). is_sar_uploaded_locked (si_status x) \<longrightarrow> x \<in> set (sd_intents db) \<or> at_remote db' x))"

lemma delivered_step:
  assumes g: "sar_grows db db'" and r: "remote_step db db'" and inv: "sar_inv db" and rows: "rows_inv db'" and n: "names_distinct db'"
  shows "sar_delivered db'"
  unfolding sar_delivered_def
proof (intro ballI impI)
  fix x assume x: "x \<in> set (sd_intents db')" and up: "is_sar_uploaded_locked (si_status x)"
  show "at_remote db' x"
  proof (cases "x \<in> set (sd_intents db)")
    case False
    then show ?thesis using r x up by (auto simp: remote_step_def)
  next
    case True
    then have "at_remote db x" using inv up names_distinct_grows [OF g n] by (simp add: sar_inv_def sar_delivered_def)
    then obtain p where p: "package_of db x = Some p" "map_of (sd_remote db) (fst p) = Some (snd p)"
      by (auto simp: at_remote_def split: option.splits)
    then have p': "package_of db' x = Some p" using package_of_grows [OF g] by blast
    from r consider "sd_remote db' = sd_remote db" | it q where "it \<in> set (sd_intents db')" "package_of db' it = Some q"
        "sd_remote db' = AList.update (fst q) (snd q) (sd_remote db)" unfolding remote_step_def by blast
    then show ?thesis
    proof cases
      case 2
      show ?thesis
      proof (cases "fst q = fst p")
        case True
        then have "si_id it = si_id x" by (rule names_distinctD [OF n 2(1) x 2(2) p'])
        then have "it = x" using rows 2(1) x by (auto simp: rows_inv_def distinct_map dest: inj_onD)
        then show ?thesis using 2 p' by (simp add: at_remote_def update_conv')
      qed (use 2 p p' in \<open>simp add: at_remote_def update_conv'\<close>)
    qed (use p p' in \<open>simp add: at_remote_def\<close>)
  qed
qed

lemma kept_by:
  assumes "sar_grows db db'" "remote_step db db'" "sar_inv db" "rows_inv db'" "locks_ok db'"
  shows "sar_inv db' \<and> sar_grows db db'"
  using assms delivered_step by (simp add: sar_inv_def)

lemma rows_inv_unique: "rows_inv db \<Longrightarrow> x \<in> set (sd_intents db) \<Longrightarrow> y \<in> set (sd_intents db) \<Longrightarrow> si_id x = si_id y \<Longrightarrow> x = y"
  by (auto simp: rows_inv_def distinct_map dest: inj_onD)

lemma rows_inv_distinct: "rows_inv db \<Longrightarrow> distinct (map si_id (sd_intents db))"
  by (simp add: rows_inv_def)

lemma moved_rows:
  assumes "rows_inv db" and "it \<in> set (sd_intents db)" and "moves (si_id it) s db db'"
  shows "x \<in> set (sd_intents db') \<longleftrightarrow> x = it\<lparr>si_status := s\<rparr> \<or> (x \<in> set (sd_intents db) \<and> si_id x \<noteq> si_id it)"
  using assms in_with_status [OF rows_inv_distinct [OF assms(1)] assms(2)] by (simp add: moves_def)

lemma moves_grows:
  assumes inv: "rows_inv db" and it: "it \<in> set (sd_intents db)" and "moves (si_id it) s db db'" and nu: "\<not> is_sar_uploaded_locked (si_status it)"
  shows "sar_grows db db'"
proof -
  have "\<exists>y \<in> set (sd_intents db'). intent_kept x y" if x: "x \<in> set (sd_intents db)" for x
  proof (cases "si_id x = si_id it")
    case True
    then have "x = it" using rows_inv_unique [OF inv x it] by blast
    then show ?thesis using nu moved_rows [OF assms(1-3), of "it\<lparr>si_status := s\<rparr>"]
      by (intro bexI [of _ "it\<lparr>si_status := s\<rparr>"]) (simp_all add: intent_kept_def)
  next
    case False
    then show ?thesis using x moved_rows [OF assms(1-3), of x] by (intro bexI [of _ x]) (simp_all add: intent_kept_def)
  qed
  then show ?thesis using assms(3) by (simp add: sar_grows_def moves_def)
qed

lemma moves_remote:
  assumes "rows_inv db" "it \<in> set (sd_intents db)" "moves (si_id it) s db db'"
    and "sd_remote db' = sd_remote db" and nu: "\<not> is_sar_uploaded_locked s"
  shows "remote_step db db'"
proof -
  have "x \<in> set (sd_intents db)" if "x \<in> set (sd_intents db')" "is_sar_uploaded_locked (si_status x)" for x
    using moved_rows [OF assms(1-3), of x] that nu by auto
  then show ?thesis using assms(4) by (simp add: remote_step_def)
qed

lemma moves_package:
  assumes "moves (si_id it) s db db'" and "find_artifact (si_artifact it) db = Some art"
  shows "package_of db' (it\<lparr>si_status := s\<rparr>) = Some (build_sar_transmission_package it art)"
proof -
  have "find_artifact (si_artifact it) db' = find_artifact (si_artifact it) db" using assms(1) by (intro find_artifact_cong) (simp add: moves_def)
  then have "find_artifact (si_artifact it) db' = Some art" using assms(2) by simp
  moreover have "build_sar_transmission_package (it\<lparr>si_status := s\<rparr>) art = build_sar_transmission_package it art" by (rule package_fields) simp
  ultimately show ?thesis by (simp add: package_of_def)
qed

lemma moves_upload:
  assumes "rows_inv db" "it \<in> set (sd_intents db)" "moves (si_id it) s db db'" and art: "find_artifact (si_artifact it) db = Some art"
    and r: "sd_remote db' = sd_remote (put_remote (build_sar_transmission_package it art) db)"
  shows "remote_step db db'"
proof -
  let ?it = "it\<lparr>si_status := s\<rparr>"
  have p: "package_of db' ?it = Some (build_sar_transmission_package it art)" by (rule moves_package [OF assms(3) art])
  have m: "?it \<in> set (sd_intents db')" using moved_rows [OF assms(1-3), of ?it] by blast
  have "at_remote db' ?it" using p r by (simp add: at_remote_def put_remote_def update_conv')
  then have "x \<in> set (sd_intents db) \<or> at_remote db' x" if "x \<in> set (sd_intents db')" for x
    using moved_rows [OF assms(1-3), of x] that by auto
  then have "\<forall>x \<in> set (sd_intents db'). is_sar_uploaded_locked (si_status x) \<longrightarrow> x \<in> set (sd_intents db) \<or> at_remote db' x"
    by blast
  moreover have "\<exists>it \<in> set (sd_intents db'). \<exists>p. package_of db' it = Some p \<and> sd_remote db' = AList.update (fst p) (snd p) (sd_remote db)"
    using m p r by (intro bexI [OF _ m] exI) (simp add: put_remote_def)
  ultimately show ?thesis by (simp add: remote_step_def)
qed

lemma moves_locks:
  assumes "rows_inv db" "it \<in> set (sd_intents db)" "moves (si_id it) s db db'" "locks_ok db" and "i \<in> set (sd_locks db)" and "i \<noteq> si_id it"
  shows "\<exists>x \<in> set (sd_intents db'). si_id x = i \<and> si_status x = ''SFTP_QUEUED''"
proof -
  obtain x where "x \<in> set (sd_intents db)" "si_id x = i" "si_status x = ''SFTP_QUEUED''" using assms(4,5) by (auto simp: locks_ok_def)
  then show ?thesis using assms(6) moved_rows [OF assms(1-3), of x] by blast
qed

lemma locked_queued:
  assumes "rows_inv db" "locks_ok db" "it \<in> set (sd_intents db)" "si_id it \<in> set (sd_locks db)"
  shows "si_status it = ''SFTP_QUEUED''"
proof -
  obtain x where x: "x \<in> set (sd_intents db)" "si_id x = si_id it" "si_status x = ''SFTP_QUEUED''" using assms(2,4) by (auto simp: locks_ok_def)
  then have "x = it" using rows_inv_unique [OF assms(1) _ assms(3)] by blast
  then show ?thesis using x by simp
qed

text \<open>A request that moves an open intent that is not queued.\<close>

lemma request_kept:
  assumes inv: "sar_inv db" and it: "it \<in> set (sd_intents db)" and ok: "(si_status it, s) \<in> set taken"
    and st: "si_status it \<in> {''PENDING_REVIEW'', ''APPROVED''}" and s: "s \<in> {''APPROVED'', ''SFTP_QUEUED''}"
    and t: "transition_sar_intent it s actor detail trace db = Inr db'"
  shows "sar_inv db' \<and> sar_grows db db'"
proof -
  have rows: "rows_inv db" and locks: "locks_ok db" using inv by (simp_all add: sar_inv_def)
  have m: "moves (si_id it) s db db'" and rows': "rows_inv db'" and r: "sd_remote db' = sd_remote db"
    using transition_moves [OF rows it ok, of actor detail trace] t by auto
  have free: "si_id it \<notin> set (sd_locks db)" using locked_queued [OF rows locks it] st by auto
  have g: "sar_grows db db'" using st by (intro moves_grows [OF rows it m]) (auto simp: is_sar_uploaded_locked_def)
  have "remote_step db db'" using s by (intro moves_remote [OF rows it m r]) (auto simp: is_sar_uploaded_locked_def)
  moreover have "locks_ok db'"
  proof -
    have "sd_locks db' = sd_locks db" using m by (simp add: moves_def)
    moreover have "\<forall>i \<in> set (sd_locks db). \<exists>x \<in> set (sd_intents db'). si_id x = i \<and> si_status x = ''SFTP_QUEUED''"
      using moves_locks [OF rows it m locks] free by blast
    ultimately show ?thesis using locks by (simp add: locks_ok_def)
  qed
  ultimately show ?thesis using kept_by [OF g _ inv rows'] by blast
qed

lemma unlock_row_simps [simp]: "sd_intents (unlock_row i db) = sd_intents db" "sd_log (unlock_row i db) = sd_log db"
    "sd_artifacts (unlock_row i db) = sd_artifacts db" "sd_remote (unlock_row i db) = sd_remote db"
    "sd_locks (unlock_row i db) = removeAll i (sd_locks db)" "sd_cases (unlock_row i db) = sd_cases db"
  by (simp_all add: unlock_row_def)

lemma same_tables:
  assumes "sd_intents db' = sd_intents db" "sd_log db' = sd_log db" "sd_artifacts db' = sd_artifacts db"
  shows "rows_inv db' = rows_inv db" and "sar_grows db0 db' = sar_grows db0 db" and "package_of db' = package_of db"
proof -
  have fa: "find_artifact i db' = find_artifact i db" for i using assms(3) by (rule find_artifact_cong)
  show "rows_inv db' = rows_inv db" by (simp add: rows_inv_def audit_ok_def artifact_ok_def sar_history_def fa assms)
  show "sar_grows db0 db' = sar_grows db0 db" by (simp add: sar_grows_def assms)
  show "package_of db' = package_of db" by (rule ext) (simp add: package_of_def fa)
qed

lemma at_remote_cong: "package_of db' = package_of db \<Longrightarrow> sd_remote db' = sd_remote db \<Longrightarrow> at_remote db' = at_remote db"
  by (rule ext) (simp add: at_remote_def split: option.split)

lemma unlock_remote_step: "remote_step db (unlock_row i db') = remote_step db db'"
proof -
  have p: "package_of (unlock_row i db') = package_of db'" by (rule same_tables(3)) simp_all
  have a: "at_remote (unlock_row i db') = at_remote db'" by (rule at_remote_cong [OF p]) simp
  show ?thesis unfolding remote_step_def unlock_row_simps p a ..
qed

lemma committed_kept:
  assumes inv: "sar_inv db" and it: "it \<in> set (sd_intents db)" and lock: "si_id it \<in> set (sd_locks db)"
    and p: "process_claimed_intent st out it db = Inr db'"
  shows "sar_inv (unlock_row (si_id it) db') \<and> sar_grows db (unlock_row (si_id it) db')"
proof -
  have rows: "rows_inv db" and locks: "locks_ok db" using inv by (simp_all add: sar_inv_def)
  have q: "si_status it = ''SFTP_QUEUED''" by (rule locked_queued [OF rows locks it lock])
  obtain s where m: "moves (si_id it) s db db'" and rows': "rows_inv db'" and d: "delivered_as st it s db db'"
    using processed_moves [OF rows it q, of st out] p by auto
  have g: "sar_grows db db'" using q by (intro moves_grows [OF rows it m]) (simp add: is_sar_uploaded_locked_def)
  have "remote_step db db'"
  proof (cases "s = ''FAILED'' \<and> sd_remote db' = sd_remote db")
    case True
    then show ?thesis by (intro moves_remote [OF rows it m]) (simp_all add: is_sar_uploaded_locked_def)
  next
    case False
    then obtain art where "find_artifact (si_artifact it) db = Some art" "sd_remote db' = sd_remote (put_remote (build_sar_transmission_package it art) db)"
      using d by (auto simp: delivered_as_def split: option.splits)
    then show ?thesis by (rule moves_upload [OF rows it m])
  qed
  then have "remote_step db (unlock_row (si_id it) db')" by (simp add: unlock_remote_step)
  moreover have "locks_ok (unlock_row (si_id it) db')"
  proof -
    have "\<forall>i \<in> set (sd_locks db) - {si_id it}. \<exists>x \<in> set (sd_intents db'). si_id x = i \<and> si_status x = ''SFTP_QUEUED''"
      using moves_locks [OF rows it m locks] by blast
    then show ?thesis using locks m unfolding locks_ok_def unlock_row_simps moves_def by (simp add: distinct_removeAll)
  qed
  moreover have "rows_inv (unlock_row (si_id it) db')" using rows' same_tables(1) [of "unlock_row (si_id it) db'" db'] by simp
  moreover have "sar_grows db (unlock_row (si_id it) db')" using g same_tables(2) [of "unlock_row (si_id it) db'" db'] by simp
  ultimately show ?thesis using kept_by [OF _ _ inv] by blast
qed

text \<open>A step that leaves the intents and adds artifacts at most.\<close>

lemma artifacts_added:
  assumes inv: "sar_inv db" and "sd_intents db' = sd_intents db" "sd_log db' = sd_log db" "sd_artifacts db' = sd_artifacts db @ as"
    "sd_locks db' = sd_locks db" "sd_remote db' = sd_remote db"
  shows "sar_inv db' \<and> sar_grows db db'"
proof -
  have g: "sar_grows db db'" using assms by (auto simp: sar_grows_def intent_kept_def)
  have "rows_inv db'"
  proof -
    have "artifact_ok db' x" if "artifact_ok db x" for x using that find_artifact_grows [OF g, of "si_artifact x"] by (auto simp: artifact_ok_def)
    then show ?thesis using assms by (auto simp: sar_inv_def rows_inv_def audit_ok_def sar_history_def)
  qed
  moreover have "remote_step db db'" and "locks_ok db'" using assms by (simp_all add: remote_step_def sar_inv_def locks_ok_def)
  ultimately show ?thesis using kept_by [OF g _ inv] by blast
qed

lemma intent_added:
  assumes inv: "sar_inv db" and fresh: "si_id it \<notin> si_id ` set (sd_intents db)" and st: "si_status it \<in> {''PENDING_REVIEW'', ''FAILED''}"
    and art: "artifact_ok db it" and row: "sl_intent row = si_id it" "sl_from row = None" "sl_to row = si_status it"
    and db': "sd_intents db' = sd_intents db @ [it]" "sd_log db' = sd_log db @ [row]" "sd_artifacts db' = sd_artifacts db"
      "sd_locks db' = sd_locks db" "sd_remote db' = sd_remote db"
  shows "sar_inv db' \<and> sar_grows db db'"
proof -
  have rows: "rows_inv db" and locks: "locks_ok db" using inv by (simp_all add: sar_inv_def)
  have fa: "find_artifact i db' = find_artifact i db" for i using db'(3) by (rule find_artifact_cong)
  have "\<forall>l \<in> set (sd_log db). sl_intent l \<noteq> si_id it" using rows fresh unfolding rows_inv_def by metis
  then have "filter (\<lambda>l. sl_intent l = si_id it) (sd_log db) = []" by (simp add: filter_empty_conv)
  then have "sar_history (si_id it) db' = path_rows [si_status it]" by (simp add: sar_history_def path_rows_def db' row)
  moreover have "[si_status it] \<in> set sar_paths" using st by (auto simp: sar_paths_def)
  ultimately have "audit_ok db' it" by (auto simp: audit_ok_def)
  moreover have "audit_ok db' x" if "x \<in> set (sd_intents db)" for x
  proof -
    have "si_id x \<noteq> si_id it" using that fresh by (metis imageI)
    then have "sar_history (si_id x) db' = sar_history (si_id x) db" by (simp add: sar_history_def db' row)
    then show ?thesis using that rows by (simp add: rows_inv_def audit_ok_def)
  qed
  ultimately have "rows_inv db'" using rows fresh art by (simp add: rows_inv_def artifact_ok_def fa db' row)
  moreover have g: "sar_grows db db'" by (auto simp: sar_grows_def intent_kept_def db')
  moreover have "remote_step db db'" using st by (auto simp: remote_step_def db' is_sar_uploaded_locked_def)
  moreover have "locks_ok db'" using locks by (auto simp: locks_ok_def db')
  ultimately show ?thesis using kept_by [OF g _ inv] by blast
qed

lemma add_intent_kept:
  assumes inv: "sar_inv db" and "si_id it \<notin> si_id ` set (sd_intents db)" and "artifact_ok db it" and a: "add_intent it actor detail db = Inr db'"
  shows "sar_inv db' \<and> sar_grows db db'"
proof -
  let ?row = "\<lparr>sl_intent = si_id it, sl_from = None, sl_to = si_status it, sl_actor = actor, sl_detail = detail, sl_trace = None\<rparr>"
  have st: "si_status it \<in> {''PENDING_REVIEW'', ''FAILED''}" and db': "db' = db\<lparr>sd_intents := sd_intents db @ [it], sd_log := sd_log db @ [?row]\<rparr>"
    using a by (auto simp: add_intent_def record_sar_intent_initial_state_def append_sar_audit_log_def split: if_splits)
  show ?thesis by (rule intent_added [OF inv assms(2) st assms(3), of ?row]) (simp_all add: db')
qed

lemma store_filing_kept:
  assumes inv: "sar_inv db" and "i \<notin> si_id ` set (sd_intents db)" and art: "find_artifact (Some (sa_id art)) db \<noteq> None"
    and s: "store_filing h i t c data art actor now db = Inr db'"
  shows "sar_inv db' \<and> sar_grows db db'"
proof -
  let ?db = "db\<lparr>sd_trail := trail_record now actor ''generate_sar'' ''case'' c [(''sar_id'', PStr (sa_id art)), (''format'', PStr (sa_format art))] t (sd_trail db)\<rparr>"
  obtain it detail where a: "add_intent it actor detail ?db = Inr db'" and it: "si_id it = i" "si_artifact it = Some (sa_id art)"
    using s unfolding store_filing_def Let_def new_intent_def by (metis sar_intent.select_convs(1,4))
  have db: "sar_inv ?db \<and> sar_grows db ?db" by (rule artifacts_added [OF inv, of _ "[]"]) simp_all
  have "artifact_ok ?db it" using art find_artifact_cong [of ?db db] by (simp add: artifact_ok_def it)
  then have "sar_inv db' \<and> sar_grows ?db db'" using assms(2) db by (intro add_intent_kept [OF _ _ _ a]) (simp_all add: it)
  then show ?thesis using db sar_grows_trans by blast
qed

lemma generated_kept:
  assumes inv: "sar_inv db" and fresh: "fr_intent fr \<notin> si_id ` set (sd_intents db)"
    and gen: "generate_sar_route parse h fr commits c t body actor db = (code, r, db')"
  shows "sar_inv db' \<and> sar_grows db db'"
proof -
  have same: "sar_inv db \<and> sar_grows db db" using inv sar_grows_refl by blast
  show ?thesis
  proof (cases "case_for_tenant c t db")
    case None
    then show ?thesis using gen same by (simp add: generate_sar_route_def)
  next
    case cs: (Some cs)
    let ?gen = "generate_sar (fr_report fr) (fr_filing_date fr) (fr_today fr) cs (dget_or body ''transactions'' (PList []))
      (dget_or body ''entity_data'' (PDict [(''name'', PStr (sc_entity cs))])) (dget_or body ''format'' (PStr ''fincen_xml'')) (dget body ''filing_institution'')"
    show ?thesis
    proof (cases "?gen")
      case (Inl e)
      then show ?thesis using gen same cs by (simp add: generate_sar_route_def)
    next
      case rep: (Inr rep)
      show ?thesis
      proof (cases "build_sar_filing_data body rep")
        case (Inl e)
        then show ?thesis using gen same cs rep by (simp add: generate_sar_route_def)
      next
        case data: (Inr data)
        let ?art = "report_artifact (fr_artifact fr) c rep" and ?errs = "validate_pre_filing parse data"
        let ?db1 = "db\<lparr>sd_artifacts := sd_artifacts db @ [?art]\<rparr>"
        have db1: "sar_inv ?db1 \<and> sar_grows db ?db1" by (rule artifacts_added [OF inv, of _ "[?art]"]) simp_all
        have art: "find_artifact (Some (sa_id ?art)) ?db1 \<noteq> None" by (simp add: find_artifact_def find_None_iff del: not_None_eq) blast
        note route = generate_sar_route_def cs option.case rep data sum.case Let_def
        consider "db' = db" | "failed_filing ?errs (fr_intent fr) t c data actor (fr_now fr) db = Inr db'" | "db' = ?db1"
          | "store_filing h (fr_intent fr) t c data ?art actor (fr_now fr) ?db1 = Inr db'"
          using gen unfolding route answer_of_def by (auto split: if_splits sum.splits)
        then show ?thesis
        proof cases
          case 2
          then show ?thesis unfolding failed_filing_def Let_def
            by (rule add_intent_kept [OF inv, rotated 2]) (use fresh in \<open>simp_all add: new_intent_def artifact_ok_def\<close>)
        next
          case 4
          have "sar_inv db' \<and> sar_grows ?db1 db'" by (rule store_filing_kept [OF _ _ art 4]) (use db1 fresh in simp_all)
          then show ?thesis using db1 sar_grows_trans by blast
        qed (use same db1 in simp_all)
      qed
    qed
  qed
qed

lemma sar_intent_for_tenantD: "sar_intent_for_tenant i c t db = Some it \<Longrightarrow>
    it \<in> set (sd_intents db) \<and> si_id it = i \<and> si_case it = c \<and> si_tenant it = t"
  unfolding sar_intent_for_tenant_def find_Some_iff using nth_mem by blast

lemma on_intent_cases:
  assumes "on_intent i c t f db = (code, r, db')"
  obtains "db' = db" | it where "it \<in> set (sd_intents db)" "si_id it = i" "si_case it = c" "si_tenant it = t" "f it = (code, r, db')"
proof (cases "case_for_tenant c t db")
  case None
  then show ?thesis using assms that(1) by (simp add: on_intent_def)
next
  case (Some x)
  show ?thesis
  proof (cases "sar_intent_for_tenant i c t db")
    case None
    then show ?thesis using assms Some that(1) by (simp add: on_intent_def)
  next
    case it: (Some it)
    then have "f it = (code, r, db')" using assms Some by (simp add: on_intent_def)
    then show ?thesis using that(2) sar_intent_for_tenantD [OF it] by blast
  qed
qed

text \<open>A change of notes: of every row the id, status and artifact stay, and of uploaded ones everything.\<close>

lemma rows_rewritten:
  assumes inv: "sar_inv db" and ints: "sd_intents db' = map g (sd_intents db)" and rest: "sd_log db' = sd_log db" "sd_artifacts db' = sd_artifacts db"
      "sd_locks db' = sd_locks db" "sd_remote db' = sd_remote db"
    and g: "\<And>x. si_id (g x) = si_id x" "\<And>x. si_status (g x) = si_status x" "\<And>x. si_artifact (g x) = si_artifact x"
    and up: "\<And>x. x \<in> set (sd_intents db) \<Longrightarrow> is_sar_uploaded_locked (si_status x) \<Longrightarrow> g x = x"
  shows "sar_inv db' \<and> sar_grows db db'"
proof -
  have rows: "rows_inv db" and locks: "locks_ok db" using inv by (simp_all add: sar_inv_def)
  have fa: "find_artifact j db' = find_artifact j db" for j using rest(2) by (rule find_artifact_cong)
  have "audit_ok db' (g x) = audit_ok db x" "artifact_ok db' (g x) = artifact_ok db x" for x
    by (simp_all add: audit_ok_def artifact_ok_def sar_history_def rest fa g)
  moreover have "si_id ` g ` set (sd_intents db) = si_id ` set (sd_intents db)" by (simp add: image_image g)
  ultimately have "rows_inv db'" using rows by (simp add: rows_inv_def ints rest comp_def g)
  moreover have gr: "sar_grows db db'"
  proof -
    have "\<exists>y \<in> set (sd_intents db'). intent_kept x y" if "x \<in> set (sd_intents db)" for x
      using that up [OF that] by (intro bexI [of _ "g x"]) (simp_all add: intent_kept_def ints g)
    then show ?thesis by (simp add: sar_grows_def rest)
  qed
  moreover have "remote_step db db'"
  proof -
    have "x \<in> set (sd_intents db)" if x: "x \<in> set (sd_intents db')" "is_sar_uploaded_locked (si_status x)" for x
    proof -
      obtain y where y: "y \<in> set (sd_intents db)" "x = g y" using x(1) unfolding ints by auto
      then show ?thesis using up [OF y(1)] x(2) g(2) by simp
    qed
    then show ?thesis by (simp add: remote_step_def rest)
  qed
  moreover have "locks_ok db'" using locks by (simp add: locks_ok_def rest(3) ints g)
  ultimately show ?thesis using kept_by [OF gr _ inv] by blast
qed

lemma noted_kept:
  assumes inv: "sar_inv db" and p: "patch_sar_intent_investigative_notes clean i c t html db = (code, r, db')"
  shows "sar_inv db' \<and> sar_grows db db'"
  using p unfolding patch_sar_intent_investigative_notes_def
proof (cases rule: on_intent_cases)
  case 1
  then show ?thesis using inv sar_grows_refl by simp
next
  case (2 it)
  define g where "g = (\<lambda>x :: sar_intent. if si_id x = si_id it then x\<lparr>si_notes := sanitize_investigative_notes_html clean html\<rparr> else x)"
  show ?thesis
  proof (cases "is_sar_uploaded_locked (si_status it)")
    case True
    then show ?thesis using 2 inv sar_grows_refl by simp
  next
    case False
    then have db': "db' = db\<lparr>sd_intents := map g (sd_intents db)\<rparr>" using 2(5) by (simp add: g_def)
    have "g x = x" if "x \<in> set (sd_intents db)" "is_sar_uploaded_locked (si_status x)" for x
    proof -
      have "si_id x \<noteq> si_id it" using that False rows_inv_unique [OF _ that(1) 2(1)] inv by (auto simp: sar_inv_def)
      then show ?thesis by (simp add: g_def)
    qed
    then show ?thesis by (intro rows_rewritten [OF inv, of _ g]) (simp_all add: db' g_def)
  qed
qed

lemma claim_queued:
  assumes "claim_next_sftp_queued_intent db = Some it"
  shows "it \<in> set (sd_intents db) \<and> si_status it = ''SFTP_QUEUED'' \<and> si_id it \<notin> set (sd_locks db)"
proof -
  define q where "q = filter (\<lambda>x. si_status x = ''SFTP_QUEUED'' \<and> si_id x \<notin> set (sd_locks db)) (sd_intents db)"
  have "(case sort_key si_created q of [] \<Rightarrow> None | x # _ \<Rightarrow> Some x) = Some it"
    using assms by (simp add: claim_next_sftp_queued_intent_def q_def)
  then have "it \<in> set (sort_key si_created q)" by (cases "sort_key si_created q") simp_all
  then have "it \<in> set q" by simp
  then show ?thesis by (simp add: q_def)
qed

lemma tables_untouched:
  assumes inv: "sar_inv db" and tabs: "sd_intents db' = sd_intents db" "sd_log db' = sd_log db" "sd_artifacts db' = sd_artifacts db"
    and r: "sd_remote db' = sd_remote db \<or> (\<exists>it \<in> set (sd_intents db). \<exists>p. package_of db it = Some p \<and> sd_remote db' = AList.update (fst p) (snd p) (sd_remote db))"
    and l: "locks_ok db'"
  shows "sar_inv db' \<and> sar_grows db db'"
proof -
  have g: "sar_grows db db'" using sar_grows_refl same_tables(2) [OF tabs] by blast
  have rows: "rows_inv db'" using inv same_tables(1) [OF tabs] by (simp add: sar_inv_def)
  have "remote_step db db'" using r unfolding remote_step_def tabs same_tables(3) [OF tabs] by blast
  then show ?thesis using kept_by [OF g _ inv rows l] by blast
qed

lemma unlock_locks_ok: "locks_ok db \<Longrightarrow> sd_intents db' = sd_intents db \<Longrightarrow> sd_locks db' = sd_locks db \<Longrightarrow> locks_ok (unlock_row i db')"
  by (simp add: locks_ok_def distinct_removeAll)

lemma sar_step_keeps:
  assumes step: "sar_step parse clean st h db db'" and inv: "sar_inv db"
  shows "sar_inv db' \<and> sar_grows db db'"
  using step
proof cases
  case (generated fr commits c t body actor code r)
  then show ?thesis using generated_kept [OF inv] by blast
next
  case (approved i c t actor code r)
  from this [unfolded approve_sar_filing_intent_def] show ?thesis
  proof (cases rule: on_intent_cases)
    case (2 it)
    show ?thesis
    proof (cases "transition_sar_intent it ''APPROVED'' actor (reason ''SAR_APPROVED'') None db")
      case (Inr d)
      then show ?thesis using 2 inv sar_grows_refl request_kept [OF inv 2(1) _ _ _ Inr]
        by (auto simp: answer_of_def taken_def split: if_splits)
    qed (use 2 inv sar_grows_refl in \<open>auto simp: answer_of_def split: if_splits\<close>)
  qed (use inv sar_grows_refl in simp)
next
  case (queued i c t actor code r)
  from this [unfolded queue_sar_filing_sftp_def] show ?thesis
  proof (cases rule: on_intent_cases)
    case (2 it)
    show ?thesis
    proof (cases "transition_sar_intent it ''SFTP_QUEUED'' actor (reason ''SAR_SFTP_QUEUED'') None db")
      case (Inr d)
      then show ?thesis using 2 inv sar_grows_refl request_kept [OF inv 2(1) _ _ _ Inr]
        by (auto simp: answer_of_def taken_def split: if_splits)
    qed (use 2 inv sar_grows_refl in \<open>auto simp: answer_of_def split: if_splits\<close>)
  qed (use inv sar_grows_refl in simp)
next
  case (noted i c t html code r)
  then show ?thesis using noted_kept [OF inv] by blast
next
  case (claimed it)
  have "locks_ok db'" using inv claim_queued [OF claimed(2)] unfolding claimed(1) by (auto simp: sar_inv_def locks_ok_def)
  then show ?thesis unfolding claimed(1) by (intro tables_untouched [OF inv]) simp_all
next
  case (committed it out d)
  then show ?thesis using committed_kept [OF inv committed(2,3,4)] by simp
next
  case (stopped i)
  have "locks_ok db'" using inv unfolding stopped(1) sar_inv_def by (intro unlock_locks_ok) simp_all
  then show ?thesis unfolding stopped(1) by (intro tables_untouched [OF inv]) simp_all
next
  case (stopped_late it art)
  let ?p = "build_sar_transmission_package it art"
  have "locks_ok db'" using inv unfolding stopped_late(1) sar_inv_def by (intro unlock_locks_ok) (simp_all add: put_remote_def)
  moreover have "package_of db it = Some ?p" using stopped_late(4) by (simp add: package_of_def)
  then have "\<exists>it \<in> set (sd_intents db). \<exists>p. package_of db it = Some p \<and> sd_remote db' = AList.update (fst p) (snd p) (sd_remote db)"
    using stopped_late(2) by (intro bexI [OF _ stopped_late(2)] exI [of _ ?p]) (simp add: stopped_late(1) put_remote_def)
  ultimately show ?thesis unfolding stopped_late(1) by (intro tables_untouched [OF inv]) (simp_all add: put_remote_def)
qed

interpretation sar: growing_store "sar_step parse clean st h" sar_inv sar_grows
  for parse clean st h
  by unfold_locales (rule sar_grows_refl, erule (1) sar_grows_trans, rule sar_step_keeps)

lemma empty_sar_inv: "sar_inv (empty_sar_db cases)"
  by (simp add: sar_inv_def rows_inv_def locks_ok_def sar_delivered_def empty_sar_db_def)

lemma sar_reachable_inv: "(sar_step parse clean st h)\<^sup>*\<^sup>* (empty_sar_db cases) db \<Longrightarrow> sar_inv db"
  using sar.steps_keep empty_sar_inv by blast

section \<open>The queue\<close>

definition queued_intents :: "sar_db \<Rightarrow> sar_intent list" where
  "queued_intents db = filter (\<lambda>x. si_status x = ''SFTP_QUEUED'') (sd_intents db)"

lemma with_status_other: "i \<notin> si_id ` set its \<Longrightarrow> with_status i s its = its"
  by (induction its) (auto simp: with_status_def)

lemma queue_shrinks:
  assumes "distinct (map si_id its)" "it \<in> set its" "si_status it = ''SFTP_QUEUED''" "s \<noteq> ''SFTP_QUEUED''"
  shows "length (filter (\<lambda>x. si_status x = ''SFTP_QUEUED'') (with_status (si_id it) s its)) = length (filter (\<lambda>x. si_status x = ''SFTP_QUEUED'') its) - 1"
proof -
  obtain as bs where its: "its = as @ it # bs" using assms(2) by (meson split_list)
  then have "si_id it \<notin> si_id ` set as" "si_id it \<notin> si_id ` set bs" using assms(1) by auto
  then have "with_status (si_id it) s its = as @ it\<lparr>si_status := s\<rparr> # bs"
    using with_status_other [of "si_id it" as s] with_status_other [of "si_id it" bs s] by (simp add: its with_status_def)
  then show ?thesis using assms(3,4) by (simp add: its)
qed

text \<open>With no other worker running, a tick never raises and takes one intent off the queue.\<close>

lemma tick_progress:
  assumes rows: "rows_inv db" and free: "sd_locks db = []"
  shows "\<exists>db'. process_sar_transport_once st out db = Inr (queued_intents db \<noteq> [], db') \<and> rows_inv db' \<and> sd_locks db' = [] \<and>
    length (queued_intents db') = length (queued_intents db) - 1 \<and> (\<forall>x \<in> set (sd_intents db). si_status x \<noteq> ''SFTP_QUEUED'' \<longrightarrow> x \<in> set (sd_intents db'))"
proof (cases "claim_next_sftp_queued_intent db")
  case None
  have "claim_next_sftp_queued_intent db = (case sort_key si_created (queued_intents db) of [] \<Rightarrow> None | it # _ \<Rightarrow> Some it)"
    by (simp add: claim_next_sftp_queued_intent_def queued_intents_def free)
  then have "sort_key si_created (queued_intents db) = []" using None by (cases "sort_key si_created (queued_intents db)") simp_all
  then have "length (queued_intents db) = 0" by (metis length_sort list.size(3))
  then show ?thesis using None rows free by (simp add: process_sar_transport_once_def)
next
  case (Some it)
  have it: "it \<in> set (sd_intents db)" and q: "si_status it = ''SFTP_QUEUED''" using claim_queued [OF Some] by simp_all
  obtain db' s where p: "process_claimed_intent st out it db = Inr db'" and m: "moves (si_id it) s db db'" and rows': "rows_inv db'" and d: "delivered_as st it s db db'"
    using processed_moves [OF rows it q] by blast
  have s: "s \<noteq> ''SFTP_QUEUED''" using delivered_status [OF d] by auto
  have ne: "queued_intents db \<noteq> []" using it q by (auto simp: queued_intents_def filter_empty_conv)
  have "length (queued_intents db') = length (queued_intents db) - 1"
    using queue_shrinks [OF rows_inv_distinct [OF rows] it q s] m by (simp add: queued_intents_def moves_def)
  moreover have "x \<in> set (sd_intents db')" if x: "x \<in> set (sd_intents db)" "si_status x \<noteq> ''SFTP_QUEUED''" for x
  proof -
    have "si_id x \<noteq> si_id it" using rows_inv_unique [OF rows x(1) it] x(2) q by auto
    then show ?thesis using moved_rows [OF rows it m, of x] x(1) by blast
  qed
  moreover have "process_sar_transport_once st out db = Inr (True, db')" using Some p by (simp add: process_sar_transport_once_def)
  moreover have "sd_locks db' = []" using m free by (simp add: moves_def)
  ultimately show ?thesis using rows' ne by (intro exI [of _ db']) simp
qed

lemma tick_handled:
  assumes "rows_inv db" and "sd_locks db = []"
  shows "rows_inv (handle_sar_transport_message st out db)" and "sd_locks (handle_sar_transport_message st out db) = []"
    and "length (queued_intents (handle_sar_transport_message st out db)) = length (queued_intents db) - 1"
    and "\<forall>x \<in> set (sd_intents db). si_status x \<noteq> ''SFTP_QUEUED'' \<longrightarrow> x \<in> set (sd_intents (handle_sar_transport_message st out db))"
  using tick_progress [OF assms, of st out] by (auto simp: handle_sar_transport_message_def)

lemma ticks_handled:
  assumes "rows_inv db" and "sd_locks db = []"
  shows "length (queued_intents (fold (handle_sar_transport_message st) outs db)) = length (queued_intents db) - length outs \<and>
    (\<forall>x \<in> set (sd_intents db). si_status x \<noteq> ''SFTP_QUEUED'' \<longrightarrow> x \<in> set (sd_intents (fold (handle_sar_transport_message st) outs db)))"
  using assms
proof (induction outs arbitrary: db)
  case (Cons o1 outs)
  let ?db = "handle_sar_transport_message st o1 db"
  note t = tick_handled [OF Cons.prems, of st o1]
  have ih: "length (queued_intents (fold (handle_sar_transport_message st) outs ?db)) = length (queued_intents ?db) - length outs \<and>
    (\<forall>x \<in> set (sd_intents ?db). si_status x \<noteq> ''SFTP_QUEUED'' \<longrightarrow> x \<in> set (sd_intents (fold (handle_sar_transport_message st) outs ?db)))"
    by (rule Cons.IH [OF t(1,2)])
  then show ?case using t(3,4) by auto
qed simp

section \<open>What the filings promise\<close>



text \<open>
  C18: when no worker is in the middle of a transaction, as many ticks as intents are queued empty the queue, whatever
  becomes of the uploads, and leave every intent that was not queued as it was.
\<close>

theorem sar_queue_drains:
  assumes "(sar_step parse clean st h)\<^sup>*\<^sup>* (empty_sar_db cases) db" and "sd_locks db = []" and "length outs = length (queued_intents db)"
  shows "queued_intents (fold (handle_sar_transport_message st) outs db) = [] \<and>
    (\<forall>x \<in> set (sd_intents db). si_status x \<noteq> ''SFTP_QUEUED'' \<longrightarrow> x \<in> set (sd_intents (fold (handle_sar_transport_message st) outs db)))"
proof -
  have "rows_inv db" using sar_reachable_inv [OF assms(1)] by (simp add: sar_inv_def)
  from ticks_handled [OF this assms(2), of st outs] show ?thesis using assms(3) by simp
qed


section \<open>Validation of what the generator writes\<close>

definition fincen_root :: string where "fincen_root = ''{https://www.fincen.gov/bsa}EFilingBatchXML''"

lemma fincen_root_ok: "contains_str (tag_local_name fincen_root) ''EFilingBatch''"
  by code_simp

lemma filing_data_fields:
  assumes "build_sar_filing_data body r = Inr data"
  shows "dget data ''report_id'' = PStr (rp_id r)" and "dget data ''narrative'' = PStr (rp_narrative r)" and "dget data ''format'' = PStr (rp_format r)"
    and "dget data ''xml_content'' = opt_val (rp_xml r)"
proof -
  obtain tin name where "data = [(''filer_tin'', tin), (''financial_institution_name'', name), (''report_id'', PStr (rp_id r)), (''format'', PStr (rp_format r)),
      (''xml_content'', opt_val (rp_xml r)), (''narrative'', PStr (rp_narrative r))]"
    using assms unfolding build_sar_filing_data_def Let_def by (cases "py_or (rp_institution r) (PDict [])") (simp_all, blast)
  then show "dget data ''report_id'' = PStr (rp_id r)" "dget data ''narrative'' = PStr (rp_narrative r)" "dget data ''format'' = PStr (rp_format r)"
    "dget data ''xml_content'' = opt_val (rp_xml r)" by (simp_all add: dget_def)
qed

text \<open>
  A generated report whose institution gives the two filer fields passes the checks, when the parser gives the root of what was
  written.
\<close>

lemma generated_valid:
  assumes gen: "generate_sar rid filing_date today c txs entity format inst = Inr r" and rid: "strip rid \<noteq> []"
    and data: "build_sar_filing_data body r = Inr data"
    and tin: "dget data ''filer_tin'' = PStr tin" "strip tin \<noteq> []" and name: "dget data ''financial_institution_name'' = PStr name" "strip name \<noteq> []"
    and parse: "\<forall>x. rp_xml r = Some x \<longrightarrow> parse (strip x) = Some fincen_root"
  shows "validate_pre_filing parse data = []"
proof -
  have r: "rp_id r = rid" "strip (rp_narrative r) \<noteq> []" "rp_format r = ''fincen_xml'' \<longleftrightarrow> rp_xml r \<noteq> None" "PStr (rp_format r) = format"
    using generate_sar_fields [OF gen] by blast+
  have d: "dget data ''report_id'' = PStr rid" "dget data ''narrative'' = PStr (rp_narrative r)" "dget data ''format'' = PStr (rp_format r)"
      "dget data ''xml_content'' = opt_val (rp_xml r)"
    using filing_data_fields [OF data] r(1) by simp_all
  have "lower (strip (rp_format r)) = ''fincen_xml'' \<Longrightarrow> xml_errors parse (dget data ''xml_content'') = []"
  proof -
    assume f: "lower (strip (rp_format r)) = ''fincen_xml''"
    have "format = PStr ''fincen_xml'' \<or> format = PStr ''nca_json'' \<or> format = PStr ''generic_json''"
      using gen unfolding generate_sar_def Let_def by (auto elim!: and_thenE split: if_splits)
    then have "rp_format r = ''fincen_xml''" using r(4) f by (auto simp: lower_def lower_char_def strip_def is_space_def)
    then obtain x where x: "rp_xml r = Some x" and "format = PStr ''fincen_xml''" using r(3,4) by auto
    then obtain doc where "xml_tostring doc = Inr x" using generate_fincen_document gen by fastforce
    then obtain u where "x = CHR ''<'' # u" using xml_tostring_start by blast
    moreover have "\<not> is_space CHR ''<''" by (simp add: is_space_def)
    ultimately obtain v where v: "strip x = CHR ''<'' # v" using strip_Cons by blast
    then have "parse (CHR ''<'' # v) = Some fincen_root" using parse x by metis
    then show ?thesis using v x fincen_root_ok by (simp add: xml_errors_def d opt_val_def Let_def startswith_def)
  qed
  then show ?thesis using rid tin name r(2) by (simp add: validate_pre_filing_def mandatory_filing_keys_def field_error_def d)
qed

text \<open>A filing that validates with a transport configured is stored with its artifact and awaits review.\<close>

lemma generate_route_accepts:
  assumes "case_for_tenant c t db = Some cs"
    and "generate_sar (fr_report fr) (fr_filing_date fr) (fr_today fr) cs (dget_or body ''transactions'' (PList []))
      (dget_or body ''entity_data'' (PDict [(''name'', PStr (sc_entity cs))])) (dget_or body ''format'' (PStr ''fincen_xml'')) (dget body ''filing_institution'') = Inr r"
    and "build_sar_filing_data body r = Inr data" and "validate_pre_filing parse data = []" and "build_sftp_destination h \<noteq> None"
  shows "\<exists>db' full trail. generate_sar_route parse h fr (True, True) c t body actor db = (201, [], db') \<and>
    sd_intents db' = sd_intents db @ [new_intent (fr_intent fr) t c (Some (fr_artifact fr)) ''PENDING_REVIEW'' full trail (fr_now fr)] \<and>
    sd_artifacts db' = sd_artifacts db @ [report_artifact (fr_artifact fr) c r] \<and> sd_cases db' = sd_cases db \<and> sd_locks db' = sd_locks db \<and> sd_remote db' = sd_remote db"
proof -
  have i: "sa_id (report_artifact (fr_artifact fr) c r) = fr_artifact fr" by (simp add: report_artifact_def)
  show ?thesis
    unfolding generate_sar_route_def assms(1) option.case assms(2) sum.case assms(3) Let_def assms(4)
    using assms(5) by (simp add: store_filing_def Let_def i add_intent_def record_sar_intent_initial_state_def append_sar_audit_log_def answer_of_def new_intent_def)
qed

text \<open>
  C38: an institution given by the two field names the validation reads passes the validation, and the document filed
  for it has an empty filer name and an empty filer number, because the document reads two other names.
\<close>

theorem filer_fields_lost:
  assumes inst: "dget body ''filing_institution'' = PDict [(''filer_tin'', PStr tin), (''financial_institution_name'', PStr name)]"
    and "strip tin \<noteq> []" "strip name \<noteq> []" "strip rid \<noteq> []"
    and gen: "generate_sar rid filing_date today c txs entity (PStr ''fincen_xml'') (dget body ''filing_institution'') = Inr r"
    and parse: "\<forall>x. rp_xml r = Some x \<longrightarrow> parse (strip x) = Some fincen_root"
  shows "\<exists>data doc activity. build_sar_filing_data body r = Inr data \<and> validate_pre_filing parse data = [] \<and>
    xml_tostring doc = Inr (opt_str (rp_xml r)) \<and> xl_kids doc = [activity] \<and>
    node ''FilingInstitution'' [node ''FilingParty'' [node ''PartyName'' [leaf ''RawPartyFullName'' (PStr [])],
      node ''PartyIdentification'' [leaf ''PartyIdentificationTypeCode'' (PStr ''EIN''), leaf ''PartyIdentificationNumberText'' (PStr [])]],
      node ''FilingContact'' [leaf ''ContactNameText'' (PStr []), leaf ''ContactPhoneNumberText'' (PStr [])]] \<in> set (xl_kids activity)"
proof -
  let ?i = "[(''filer_tin'', PStr tin), (''financial_institution_name'', PStr name)]"
  have ne: "tin \<noteq> []" "name \<noteq> []" using assms(2,3) by auto
  have ri: "rp_institution r = PDict ?i" using generate_sar_fields [OF gen] inst by (simp add: py_or_def)
  obtain data where data: "build_sar_filing_data body r = Inr data" "dget data ''filer_tin'' = PStr tin" "dget data ''financial_institution_name'' = PStr name"
    unfolding build_sar_filing_data_def ri inst using ne by (simp add: py_or_def Let_def dict_update_def dget_def)
  have "validate_pre_filing parse data = []" by (rule generated_valid [OF gen assms(4) data(1,2) assms(2) data(3) assms(3) parse])
  moreover obtain i doc x activity where i: "py_or (dget body ''filing_institution'') (PDict default_institution) = PDict i" and x: "rp_xml r = Some x"
      "xml_tostring doc = Inr x" "xl_kids doc = [activity]" "institution_element i \<in> set (xl_kids activity)"
    using generate_fincen_document [OF gen] by blast
  moreover have "i = ?i" using i inst by (simp add: py_or_def)
  ultimately show ?thesis using data(1) by (intro exI [of _ data] exI [of _ doc] exI [of _ activity]) (simp add: institution_element_def dget_or_def opt_str_def)
qed

section \<open>A filing from request to acknowledgement\<close>

definition filing_parse :: "string \<Rightarrow> string option" where "filing_parse s = Some fincen_root"

definition filing_host :: host where "filing_host = \<lparr>host_env = [(''FINCEN_BSA_SFTP_HOST'', ''sftp.example'')], host_files = []\<rparr>"

definition filing_case :: sar_case where
  "filing_case = \<lparr>sc_id = ''c1'', sc_entity = ''ent-1'', sc_title = ''Layering'', sc_status = ''open'', sc_priority = ''high'', sc_labels = [''structuring'']\<rparr>"

definition filing_settings :: sar_settings where "filing_settings = \<lparr>ss_host = ''sftp.example'', ss_user = ''filer'', ss_separate_ack = False\<rparr>"

definition filing_fresh :: sar_fresh where
  "filing_fresh = \<lparr>fr_intent = ''i1'', fr_artifact = ''a1'', fr_report = ''SAR-1'', fr_filing_date = ''2026-01-02'', fr_today = ''2026-01-02'', fr_now = 7\<rparr>"

definition filing_generated :: sar_db where
  "filing_generated = snd (snd (generate_sar_route filing_parse filing_host filing_fresh (True, True) ''c1'' ''acme'' [] ''ann'' (empty_sar_db [(''acme'', filing_case)])))"

definition filing_approved :: sar_db where "filing_approved = snd (snd (approve_sar_filing_intent ''i1'' ''c1'' ''acme'' ''bob'' filing_generated))"

definition filing_queued :: sar_db where "filing_queued = snd (snd (queue_sar_filing_sftp ''i1'' ''c1'' ''acme'' ''bob'' filing_approved))"

definition filing_filed :: sar_db where
  "filing_filed = (let db = filing_queued\<lparr>sd_locks := [''i1'']\<rparr> in
     unlock_row ''i1'' (case process_claimed_intent filing_settings Uploaded (hd (sd_intents db)) db of Inl _ \<Rightarrow> db | Inr db' \<Rightarrow> db'))"

abbreviation filing_steps :: "sar_db \<Rightarrow> sar_db \<Rightarrow> bool" where
  "filing_steps \<equiv> (sar_step filing_parse id filing_settings filing_host)\<^sup>*\<^sup>*"

definition filing_rows :: "string \<Rightarrow> sar_db \<Rightarrow> bool" where
  "filing_rows s db = (\<exists>full trail art. sd_intents db = [new_intent ''i1'' ''acme'' ''c1'' (Some ''a1'') s full trail 7] \<and> sd_artifacts db = [art] \<and> sa_id art = ''a1'' \<and>
     sd_cases db = [(''acme'', filing_case)] \<and> sd_locks db = [])"

lemma filing_default_report: "\<exists>r. generate_sar ''SAR-1'' ''2026-01-02'' ''2026-01-02'' filing_case (PList []) (PDict [(''name'', PStr ''ent-1'')]) (PStr ''fincen_xml'') PNone = Inr r"
proof -
  have "generate_sar ''SAR-1'' ''2026-01-02'' ''2026-01-02'' filing_case (PList []) (PDict [(''name'', PStr ''ent-1'')]) (PStr ''fincen_xml'') PNone =
      generate_sar ''SAR-1'' ''2026-01-02'' ''2026-01-02'' filing_case (PList []) (PDict [(''name'', PStr ''ent-1'')]) (PStr ''fincen_xml'') (PDict default_institution)"
    by (simp add: generate_sar_def py_or_def)
  then show ?thesis using fincen_report_exists [of default_institution] by (simp add: default_institution_def dget_or_def)
qed

lemma filing_generated_rows: "filing_rows ''PENDING_REVIEW'' filing_generated"
proof -
  obtain r where r: "generate_sar ''SAR-1'' ''2026-01-02'' ''2026-01-02'' filing_case (PList []) (PDict [(''name'', PStr ''ent-1'')]) (PStr ''fincen_xml'') PNone = Inr r"
    using filing_default_report by blast
  have ri: "rp_institution r = PDict default_institution" using generate_sar_fields [OF r] by (simp add: py_or_def)
  obtain data where data: "build_sar_filing_data [] r = Inr data" "dget data ''filer_tin'' = PStr ''00-0000000''"
      "dget data ''financial_institution_name'' = PStr ''Filing Institution''"
    by (simp add: build_sar_filing_data_def ri py_or_def Let_def dict_update_def dget_def default_institution_def)
  have "validate_pre_filing filing_parse data = []"
    by (rule generated_valid [OF r _ data(1,2) _ data(3)]) (simp_all add: strip_def is_space_def filing_parse_def)
  moreover have "build_sftp_destination filing_host \<noteq> None" by code_simp
  moreover have "case_for_tenant ''c1'' ''acme'' (empty_sar_db [(''acme'', filing_case)]) = Some filing_case"
    by (simp add: case_for_tenant_def empty_sar_db_def filing_case_def)
  ultimately obtain db' full trail where d: "generate_sar_route filing_parse filing_host filing_fresh (True, True) ''c1'' ''acme'' [] ''ann'' (empty_sar_db [(''acme'', filing_case)]) = (201, [], db')"
      "sd_intents db' = [new_intent ''i1'' ''acme'' ''c1'' (Some ''a1'') ''PENDING_REVIEW'' full trail 7]" "sd_artifacts db' = [report_artifact ''a1'' ''c1'' r]"
      "sd_cases db' = [(''acme'', filing_case)]" "sd_locks db' = []"
    using generate_route_accepts [of "''c1''" "''acme''" "empty_sar_db [(''acme'', filing_case)]" filing_case filing_fresh "[]" r data filing_parse filing_host "''ann''"] r data(1)
    by (auto simp: filing_fresh_def dget_or_def dget_def filing_case_def empty_sar_db_def)
  moreover have "sa_id (report_artifact ''a1'' ''c1'' r) = ''a1''" by (simp add: report_artifact_def)
  moreover have "filing_generated = db'" using d(1) by (simp add: filing_generated_def)
  ultimately show ?thesis unfolding filing_rows_def by blast
qed

lemma filing_advanced:
  assumes "filing_rows s db" and "assert_allowed_transition (Some s) s' = Inr ()"
  shows "filing_rows s' (snd (snd (on_intent ''i1'' ''c1'' ''acme'' (\<lambda>it. if si_status it \<noteq> s then (409, r, db)
    else answer_of db 200 (transition_sar_intent it s' actor detail None db)) db)))"
  using assms by (auto simp: filing_rows_def on_intent_def case_for_tenant_def filing_case_def sar_intent_for_tenant_def new_intent_def answer_of_def transition_sar_intent_def
    append_sar_audit_log_def set_sar_status_def)

lemma filing_approved_rows: "filing_rows ''APPROVED'' filing_approved"
  unfolding filing_approved_def approve_sar_filing_intent_def
  by (rule filing_advanced [OF filing_generated_rows]) (simp add: assert_allowed_transition_def sar_allowed_def)

lemma filing_queued_rows: "filing_rows ''SFTP_QUEUED'' filing_queued"
  unfolding filing_queued_def queue_sar_filing_sftp_def
  by (rule filing_advanced [OF filing_approved_rows]) (simp add: assert_allowed_transition_def sar_allowed_def)

lemma filing_queued_reached: "filing_steps (empty_sar_db [(''acme'', filing_case)]) filing_queued"
proof -
  let ?S = "sar_step filing_parse id filing_settings filing_host"
  have "?S (empty_sar_db [(''acme'', filing_case)]) filing_generated"
    by (rule sar_step.generated [where fr = filing_fresh and commits = "(True, True)" and c = "''c1''" and t = "''acme''" and body = "[]" and actor = "''ann''"])
      (simp_all add: filing_generated_def empty_sar_db_def prod_eq_iff)
  moreover have "?S filing_generated filing_approved" by (rule sar_step.approved) (simp add: filing_approved_def prod_eq_iff)
  moreover have "?S filing_approved filing_queued" by (rule sar_step.queued) (simp add: filing_queued_def prod_eq_iff)
  ultimately show ?thesis by simp
qed

lemma filing_queue: "length (queued_intents filing_queued) = 1" "sd_locks filing_queued = []"
  using filing_queued_rows by (auto simp: filing_rows_def queued_intents_def new_intent_def)

lemma filing_filed_rows:
  "filing_steps (empty_sar_db [(''acme'', filing_case)]) filing_filed \<and>
   (\<exists>full trail. sd_intents filing_filed = [new_intent ''i1'' ''acme'' ''c1'' (Some ''a1'') ''ACKNOWLEDGED'' full trail 7])"
proof -
  let ?S = "sar_step filing_parse id filing_settings filing_host" and ?db = "filing_queued\<lparr>sd_locks := [''i1'']\<rparr>"
  obtain full trail art where q: "sd_intents filing_queued = [new_intent ''i1'' ''acme'' ''c1'' (Some ''a1'') ''SFTP_QUEUED'' full trail 7]"
      "sd_artifacts filing_queued = [art]" "sa_id art = ''a1''" "sd_locks filing_queued = []"
    using filing_queued_rows by (auto simp: filing_rows_def)
  define it where "it = new_intent ''i1'' ''acme'' ''c1'' (Some ''a1'') ''SFTP_QUEUED'' full trail 7"
  have it: "si_id it = ''i1''" "si_status it = ''SFTP_QUEUED''" "si_artifact it = Some ''a1''" "sd_intents filing_queued = [it]" by (simp_all add: it_def new_intent_def q(1))
  have "claim_next_sftp_queued_intent filing_queued = Some it" by (simp add: claim_next_sftp_queued_intent_def it q(4))
  then have c: "?S filing_queued ?db" using sar_step.claimed [of filing_queued it] by (simp add: it q(4))
  then have reach: "filing_steps (empty_sar_db [(''acme'', filing_case)]) ?db" using filing_queued_reached by simp
  then have rows: "rows_inv ?db" using sar_reachable_inv by (auto simp: sar_inv_def)
  have it_in: "it \<in> set (sd_intents ?db)" by (simp add: it)
  obtain db' s where p: "process_claimed_intent filing_settings Uploaded it ?db = Inr db'" and m: "moves (si_id it) s ?db db'"
      and d: "delivered_as filing_settings it s ?db db'" using processed_moves [OF rows it_in it(2)] by blast
  have art: "find_artifact (Some ''a1'') ?db = Some art" by (simp add: find_artifact_def q)
  have "process_claimed_intent filing_settings Uploaded it ?db = sar_transmitted filing_settings it (build_sar_transmission_package it art)
      (put_remote (build_sar_transmission_package it art) ?db)"
    by (simp add: process_claimed_intent_def it art Let_def) (simp add: filing_settings_def strip_def is_space_def)
  then have s: "sd_intents db' = with_status ''i1'' ''ACKNOWLEDGED'' [it]"
    using transmitted_moves [of "put_remote (build_sar_transmission_package it art) ?db" it filing_settings "build_sar_transmission_package it art"] p rows it_in it
    by (auto simp: put_remote_inv moves_put_remote) (auto simp: moves_def put_remote_def filing_settings_def it)
  have f: "filing_filed = unlock_row ''i1'' db'" using p by (simp add: filing_filed_def Let_def it)
  have "?S ?db filing_filed" unfolding f using sar_step.committed [OF it_in _ p] by (simp add: it)
  then show ?thesis using reach s by (simp add: f with_status_def it_def new_intent_def)
qed



theorem sar_queue_drains_witness:
  "filing_steps (empty_sar_db [(''acme'', filing_case)]) filing_queued \<and> length (queued_intents filing_queued) = 1 \<and>
    queued_intents (fold (handle_sar_transport_message filing_settings) [UploadRaised ''timeout''] filing_queued) = []"
  using sar_queue_drains [OF filing_queued_reached filing_queue(2), of "[UploadRaised ''timeout'']"] filing_queued_reached filing_queue by simp


theorem filer_fields_lost_witness:
  "\<exists>r data. generate_sar ''SAR-1'' ''2026-01-02'' ''2026-01-02'' filing_case (PList []) (PDict [(''name'', PStr ''ent-1'')]) (PStr ''fincen_xml'')
      (PDict [(''filer_tin'', PStr ''12-3456789''), (''financial_institution_name'', PStr ''First Bank'')]) = Inr r \<and>
    build_sar_filing_data [(''filing_institution'', PDict [(''filer_tin'', PStr ''12-3456789''), (''financial_institution_name'', PStr ''First Bank'')])] r = Inr data \<and>
    validate_pre_filing filing_parse data = []"
proof -
  let ?i = "[(''filer_tin'', PStr ''12-3456789''), (''financial_institution_name'', PStr ''First Bank'')]"
  obtain r where r: "generate_sar ''SAR-1'' ''2026-01-02'' ''2026-01-02'' filing_case (PList []) (PDict [(''name'', PStr ''ent-1'')]) (PStr ''fincen_xml'') (PDict ?i) = Inr r"
    using fincen_report_exists [of ?i "''SAR-1''" "''2026-01-02''" "''2026-01-02''" filing_case "''ent-1''"] by (auto simp: dget_or_def)
  then show ?thesis
    using filer_fields_lost [of "[(''filing_institution'', PDict ?i)]" "''12-3456789''" "''First Bank''" "''SAR-1''" "''2026-01-02''" "''2026-01-02''" filing_case "PList []"
        "PDict [(''name'', PStr ''ent-1'')]" r filing_parse]
    by (auto simp: dget_def filing_parse_def strip_def is_space_def)
qed

end
